(* ===== verification/Go_Prelude.thy ===== *)
theory Go_Prelude
  imports Main "HOL-Library.Word" "HOL-Library.AList" "HOL-Library.Multiset"
    "HOL-Library.Sublist"
begin

text \<open>
  What the Go program takes from its language and standard library, and the
  generic lemmas the components share.

  \<^item> \<open>string\<close> and \<open>[]byte\<close>: a Go string is a \<^typ>\<open>string\<close> (a list of bytes), a
    byte slice a \<open>bytes\<close> value; \<open>strings.Split\<close>, \<open>strings.Replace\<close> and
    \<open>strings.TrimSuffix\<close> are \<open>split_on\<close>, \<open>replace_first\<close> and \<open>trim_suffix\<close>;
    \<open>strings.Contains\<close> is the library's \<^const>\<open>sublist\<close> and
    \<open>strings.HasPrefix\<close> its \<^const>\<open>prefix\<close>.
  \<^item> \<open>int\<close>, \<open>int64\<close> and \<open>time.Duration\<close> are 64 bits wide: an \<^typ>\<open>int\<close>, with
    \<open>wrap64\<close> written wherever an operation of the source can overflow.
  \<^item> \<open>time.Time\<close> is the number of nanoseconds since the zero \<open>Time\<close>, so that
    \<open>IsZero\<close> is equality with \<open>0\<close>; \<open>Sub\<close> saturates, as the library's does.
  \<^item> a Go map is an association list with distinct keys. Go leaves the order of
    an iteration open: the list is one order the runtime may pick, and
    \<open>gomap_sim\<close> relates two lists that hold the same map.
\<close>

unbundle bit_operations_syntax

named_theorems go_consts \<open>definitions of the named constants of the source\<close>
named_theorems gomap_simps \<open>rewrite rules for maps held as association lists\<close>

type_synonym byte = "8 word"
type_synonym bytes = "byte list"
type_synonym gotime = int
type_synonym duration = int
type_synonym ('k, 'v) gomap = "('k \<times> 'v) list"

section \<open>Machine integers, durations and times\<close>

definition wrap64 :: "int \<Rightarrow> int" where
  "wrap64 x = (x + 2 ^ 63) mod 2 ^ 64 - 2 ^ 63"

definition in_i64 :: "int \<Rightarrow> bool" where
  "in_i64 x \<longleftrightarrow> - (2 ^ 63) \<le> x \<and> x < 2 ^ 63"

lemma wrap64_in_i64 [simp]: "in_i64 (wrap64 x)"
proof -
  have "0 \<le> (x + 2 ^ 63) mod (2 ^ 64 :: int)" "(x + 2 ^ 63) mod (2 ^ 64 :: int) < 2 ^ 64"
    by simp_all
  then show ?thesis by (simp add: wrap64_def in_i64_def)
qed

lemma wrap64_id: "in_i64 x \<Longrightarrow> wrap64 x = x"
  by (simp add: wrap64_def in_i64_def)

text \<open>One past the largest value comes back negative: what an unchecked addition does.\<close>

lemma wrap64_overflow:
  assumes "2 ^ 63 \<le> x" "x < 2 ^ 63 + 2 ^ 63"
  shows "wrap64 x = x - 2 ^ 64"
proof -
  have "(x + 2 ^ 63) mod (2 ^ 64 :: int) = (x + 2 ^ 63 - 2 ^ 64) mod 2 ^ 64"
    by (rule minus_mod_self2 [symmetric])
  also have "\<dots> = x + 2 ^ 63 - 2 ^ 64"
    using assms by (intro mod_pos_pos_trivial) simp_all
  finally show ?thesis by (simp add: wrap64_def)
qed

definition Millisecond :: duration where [go_consts]: "Millisecond = 1000000"
definition Second :: duration where [go_consts]: "Second = 1000000000"
definition Minute :: duration where [go_consts]: "Minute = 60000000000"

text \<open>\<open>time.Duration(n) * unit\<close>\<close>

definition dur :: "int \<Rightarrow> duration \<Rightarrow> duration" where
  "dur n unit = wrap64 (n * unit)"

text \<open>\<open>Duration.Milliseconds\<close>, which truncates towards zero.\<close>

definition Milliseconds :: "duration \<Rightarrow> int" where
  "Milliseconds d = (if d \<ge> 0 then d div Millisecond else - ((- d) div Millisecond))"

definition IsZero :: "gotime \<Rightarrow> bool" where
  [simp]: "IsZero t \<longleftrightarrow> t = 0"

definition time_sub :: "gotime \<Rightarrow> gotime \<Rightarrow> duration" where
  "time_sub t u = max (- (2 ^ 63)) (min (2 ^ 63 - 1) (t - u))"

lemma time_sub_mono: "t \<le> t' \<Longrightarrow> time_sub t u \<le> time_sub t' u"
  by (simp add: time_sub_def)

lemma time_sub_self [simp]: "time_sub t t = 0"
  by (simp add: time_sub_def)

lemma time_sub_gt_iff: "in_i64 d \<Longrightarrow> d < 2 ^ 63 - 1 \<Longrightarrow> d < time_sub t u \<longleftrightarrow> d < t - u"
  by (auto simp: time_sub_def in_i64_def)

section \<open>Strings\<close>

fun split_on :: "char \<Rightarrow> string \<Rightarrow> string list" where
  "split_on c [] = [[]]"
| "split_on c (x # xs) =
     (if x = c then [] # split_on c xs
      else (case split_on c xs of [] \<Rightarrow> [[x]] | w # ws \<Rightarrow> (x # w) # ws))"

lemma split_on_not_Nil [simp]: "split_on c s \<noteq> []"
  by (induction s) (auto split: list.splits)

lemma split_on_no_sep: "c \<notin> set s \<Longrightarrow> split_on c s = [s]"
  by (induction s) auto

lemma split_on_append: "c \<notin> set a \<Longrightarrow> split_on c (a @ c # b) = a # split_on c b"
  by (induction a) auto

lemma split_on_append_gen:
  "split_on c (a @ c # b) = split_on c a @ split_on c b"
proof (induction a)
  case (Cons x a)
  obtain w ws where "split_on c a = w # ws"
    by (metis list.exhaust split_on_not_Nil)
  with Cons show ?case by auto
qed simp

lemma split_on_words: "w \<in> set (split_on c s) \<Longrightarrow> c \<notin> set w"
proof (induction s arbitrary: w)
  case (Cons x s)
  obtain v vs where "split_on c s = v # vs"
    by (metis list.exhaust split_on_not_Nil)
  with Cons show ?case by (auto split: if_splits)
qed simp

fun join_on :: "char \<Rightarrow> string list \<Rightarrow> string" where
  "join_on c [] = []"
| "join_on c [w] = w"
| "join_on c (w # v # ws) = w @ c # join_on c (v # ws)"

lemma join_split [simp]: "join_on c (split_on c s) = s"
proof (induction s)
  case (Cons x s)
  obtain w ws where s: "split_on c s = w # ws"
    by (metis list.exhaust split_on_not_Nil)
  with Cons show ?case by (cases ws) auto
qed simp

lemma split_on_inject: "split_on c s = split_on c t \<longleftrightarrow> s = t"
  by (metis join_split)

lemma join_append: "ws \<noteq> [] \<Longrightarrow> vs \<noteq> [] \<Longrightarrow> join_on c (ws @ vs) = join_on c ws @ c # join_on c vs"
proof (induction c ws rule: join_on.induct)
  case (2 c w)
  then show ?case by (cases vs) auto
qed auto

lemma split_join: "ws \<noteq> [] \<Longrightarrow> \<forall>w \<in> set ws. c \<notin> set w \<Longrightarrow> split_on c (join_on c ws) = ws"
  by (induction c ws rule: join_on.induct) (auto simp: split_on_no_sep split_on_append)

lemma split_on_eq_append_iff:
  assumes "ws \<noteq> []"
  shows "split_on c t = split_on c p @ ws \<longleftrightarrow> (\<exists>x. t = p @ c # x \<and> split_on c x = ws)"
proof
  assume t: "split_on c t = split_on c p @ ws"
  have "\<forall>w \<in> set ws. c \<notin> set w"
    using split_on_words [of _ c t] t by auto
  then have "split_on c (join_on c ws) = ws"
    using assms by (simp add: split_join)
  moreover have "t = p @ c # join_on c ws"
    using join_split [of c t] assms by (simp add: t join_append)
  ultimately show "\<exists>x. t = p @ c # x \<and> split_on c x = ws" by blast
qed (auto simp: split_on_append_gen)

lemma split_on_single_iff: "split_on c x = [w] \<longleftrightarrow> x = w \<and> c \<notin> set w"
  by (metis join_on.simps(2) join_split list.set_intros(1) split_on_no_sep split_on_words)

definition trim_suffix :: "string \<Rightarrow> string \<Rightarrow> string" where
  "trim_suffix s suf = (if suffix suf s then take (length s - length suf) s else s)"

text \<open>\<open>strings.Replace(s, old, new, 1)\<close>: the first occurrence, and the front of the
  string when \<open>old\<close> is empty.\<close>

fun replace_first :: "string \<Rightarrow> string \<Rightarrow> string \<Rightarrow> string" where
  "replace_first s old new =
     (if prefix old s then new @ drop (length old) s
      else (case s of [] \<Rightarrow> [] | x # xs \<Rightarrow> x # replace_first xs old new))"

declare replace_first.simps [simp del]

lemma replace_first_prefix [simp]: "replace_first (old @ s) old new = new @ s"
  by (simp add: replace_first.simps [of "old @ s"])

lemma replace_first_absent: "\<not> sublist old s \<Longrightarrow> replace_first s old new = s"
proof (induction s)
  case Nil
  then show ?case by (subst replace_first.simps) auto
next
  case (Cons x s)
  then have "\<not> prefix old (x # s)" "\<not> sublist old s"
    by (auto simp: sublist_Cons_right)
  with Cons.IH show ?case by (subst replace_first.simps) simp
qed

section \<open>Maps\<close>

definition wf_gomap :: "('k, 'v) gomap \<Rightarrow> bool" where
  "wf_gomap m \<longleftrightarrow> distinct (map fst m)"

definition gm_set :: "'k \<Rightarrow> 'v \<Rightarrow> ('k, 'v) gomap \<Rightarrow> ('k, 'v) gomap" where
  "gm_set k v m = AList.update k v m"

definition gm_del :: "'k \<Rightarrow> ('k, 'v) gomap \<Rightarrow> ('k, 'v) gomap" where
  "gm_del k m = AList.delete k m"

text \<open>\<open>m[k]\<close> of a string-valued map: the zero value when the key is absent.\<close>

definition gm_str :: "('k, string) gomap \<Rightarrow> 'k \<Rightarrow> string" where
  "gm_str m k = (case map_of m k of Some v \<Rightarrow> v | None \<Rightarrow> [])"

lemma wf_gomap_Nil [simp]: "wf_gomap []"
  by (simp add: wf_gomap_def)

lemma wf_gm_set [simp]: "wf_gomap m \<Longrightarrow> wf_gomap (gm_set k v m)"
  by (simp add: wf_gomap_def gm_set_def distinct_update)

lemma wf_gm_del [simp]: "wf_gomap m \<Longrightarrow> wf_gomap (gm_del k m)"
  by (simp add: wf_gomap_def gm_del_def distinct_delete)

lemma map_of_gm_set [gomap_simps]: "map_of (gm_set k v m) = (map_of m)(k \<mapsto> v)"
  by (simp add: gm_set_def update_conv')

lemma map_of_gm_del [gomap_simps]: "map_of (gm_del k m) = (map_of m)(k := None)"
  by (simp add: gm_del_def delete_conv')

lemma keys_gm_set [gomap_simps]: "fst ` set (gm_set k v m) = insert k (fst ` set m)"
  by (simp add: gm_set_def dom_update)

lemma keys_gm_del [gomap_simps]: "fst ` set (gm_del k m) = fst ` set m - {k}"
  by (simp add: gm_del_def delete_keys flip: set_map)

lemma in_gomap_iff: "wf_gomap m \<Longrightarrow> (k, v) \<in> set m \<longleftrightarrow> map_of m k = Some v"
  by (simp add: wf_gomap_def)

lemma gm_set_new: "map_of m k = None \<Longrightarrow> gm_set k v m = m @ [(k, v)]"
  unfolding gm_set_def by (induction m) (auto split: if_splits)

lemma gm_del_fresh: "map_of m k = None \<Longrightarrow> gm_del k m = m"
  by (simp add: gm_del_def delete_idem map_of_eq_None_iff)

lemma gm_del_append: "gm_del k (xs @ ys) = gm_del k xs @ gm_del k ys"
  by (simp add: gm_del_def AList.delete_eq)

lemma gm_del_set_new: "map_of m k = None \<Longrightarrow> gm_del k (gm_set k v m) = m"
  by (simp add: gm_set_new gm_del_append gm_del_fresh) (simp add: gm_del_def)

lemma length_gm_set_new: "map_of m k = None \<Longrightarrow> length (gm_set k v m) = Suc (length m)"
  by (simp add: gm_set_new)

lemma length_gm_del_le: "length (gm_del k m) \<le> length m"
  by (simp add: gm_del_def length_delete_le)

lemma mset_keys_gm_del:
  "distinct (map fst p) \<Longrightarrow> mset (map fst (gm_del k p)) = mset (map fst p) - {#k#}"
proof (induction p)
  case (Cons a p)
  then show ?case
    by (cases "fst a = k") (auto simp: gm_del_def AList.delete_eq filter_id_conv image_iff
        intro!: arg_cong [where f = mset] arg_cong [where f = "map fst"])
qed (simp add: gm_del_def)

lemma length_gm_del:
  assumes "wf_gomap m" "k \<in> fst ` set m"
  shows "length (gm_del k m) = length m - 1"
proof -
  have "length (gm_del k m) = size (mset (map fst m) - {#k#})"
    using assms(1) by (metis length_map mset_keys_gm_del size_mset wf_gomap_def)
  also have "k \<in># mset (map fst m)"
    using assms(2) by simp
  then have "size (mset (map fst m) - {#k#}) = length m - 1"
    by (simp only: size_Diff_singleton size_mset length_map)
  finally show ?thesis .
qed

lemma wf_gomap_filter: "wf_gomap m \<Longrightarrow> wf_gomap (filter P m)"
  by (simp add: wf_gomap_def distinct_map_filter)

text \<open>A loop \<open>for k, v := range m { ... m[k] = f(v) }\<close>.\<close>

definition gm_map :: "('v \<Rightarrow> 'w) \<Rightarrow> ('k, 'v) gomap \<Rightarrow> ('k, 'w) gomap" where
  "gm_map f m = map (\<lambda>(k, v). (k, f v)) m"

lemma map_of_gm_map [gomap_simps]: "map_of (gm_map f m) k = map_option f (map_of m k)"
  by (simp add: gm_map_def map_of_map)

lemma fst_gm_map [simp]: "map fst (gm_map f m) = map fst m"
  by (induction m) (auto simp: gm_map_def)

lemma wf_gm_map [simp]: "wf_gomap (gm_map f m) \<longleftrightarrow> wf_gomap m"
  by (simp add: wf_gomap_def)

lemma values_gm_map [simp]: "map snd (gm_map f m) = map f (map snd m)"
  by (induction m) (auto simp: gm_map_def)

text \<open>Two iteration orders of one map.\<close>

definition gomap_sim :: "('k, 'v) gomap \<Rightarrow> ('k, 'v) gomap \<Rightarrow> bool" where
  "gomap_sim m n \<longleftrightarrow> wf_gomap m \<and> wf_gomap n \<and> map_of m = map_of n"

lemma gomap_sim_mset:
  assumes "gomap_sim m n"
  shows "mset m = mset n"
proof -
  have "set m = set n"
    using assms by (auto simp: gomap_sim_def in_gomap_iff)
  moreover have "distinct m" "distinct n"
    using assms by (auto simp: gomap_sim_def wf_gomap_def distinct_map)
  ultimately show ?thesis by (simp add: set_eq_iff_mset_eq_distinct)
qed

lemma gomap_sim_length: "gomap_sim m n \<Longrightarrow> length m = length n"
  by (metis gomap_sim_mset size_mset)

lemma gomap_sim_refl: "wf_gomap m \<Longrightarrow> gomap_sim m m"
  by (simp add: gomap_sim_def)

end
