(* ===== verification/Dd_Model.thy ===== *)
theory Dd_Model
  imports Go_Prelude
begin

text \<open>
  The data model under \<open>internal/model\<close>: the error type and its codes
  (\<open>dd_errors.go\<close>), the message envelope with its compatibility rules and its
  validation (\<open>dd_message.go\<close>), and the plain or compressed encoding
  (\<open>dd_message_codec.go\<close>).

  An operation of the source that writes through \<open>m *DdMessage\<close> returns the
  changed message beside its result. \<open>encoding/json\<close> and \<open>compress/gzip\<close> are
  parameters of the codec.
\<close>

section \<open>Errors\<close>

type_synonym DdErrorCode = string

definition ErrInvalidEnvelope :: DdErrorCode where [go_consts]: "ErrInvalidEnvelope = ''DD-4001''"
definition ErrUnauthorizedPeer :: DdErrorCode where [go_consts]: "ErrUnauthorizedPeer = ''DD-4002''"
definition ErrRouteNotFound :: DdErrorCode where [go_consts]: "ErrRouteNotFound = ''DD-4041''"
definition ErrSyncTimeout :: DdErrorCode where [go_consts]: "ErrSyncTimeout = ''DD-4081''"
definition ErrRetryExhausted :: DdErrorCode where [go_consts]: "ErrRetryExhausted = ''DD-4091''"
definition ErrStreamNotFound :: DdErrorCode where [go_consts]: "ErrStreamNotFound = ''DD-4092''"
definition ErrStreamIdleTimeout :: DdErrorCode where [go_consts]: "ErrStreamIdleTimeout = ''DD-4093''"
definition ErrInternal :: DdErrorCode where [go_consts]: "ErrInternal = ''DD-5001''"
definition ErrDuplicateRequest :: DdErrorCode where [go_consts]: "ErrDuplicateRequest = ''DD-4003''"
definition ErrAclDenied :: DdErrorCode where [go_consts]: "ErrAclDenied = ''DD-4004''"
definition ErrPeerNotFound :: DdErrorCode where [go_consts]: "ErrPeerNotFound = ''DD-4042''"
definition ErrPeerOffline :: DdErrorCode where [go_consts]: "ErrPeerOffline = ''DD-4043''"
definition ErrInvalidConfig :: DdErrorCode where [go_consts]: "ErrInvalidConfig = ''DD-5002''"

record DdError =
  e_Code :: DdErrorCode
  e_Message :: string

text \<open>A Go \<open>error\<close>: a \<open>*DdError\<close>, or an error of a library with its text.\<close>

datatype go_error = DdErr DdError | PlainErr string

definition DdError_Error :: "DdError \<Rightarrow> string" where
  "DdError_Error e = ''['' @ e_Code e @ ''] '' @ e_Message e"

fun error_text :: "go_error \<Rightarrow> string" where
  "error_text (DdErr e) = DdError_Error e"
| "error_text (PlainErr s) = s"

definition NewDdError :: "DdErrorCode \<Rightarrow> string \<Rightarrow> go_error" where
  "NewDdError code msg = DdErr \<lparr>e_Code = code, e_Message = msg\<rparr>"

definition ErrInvalidEnvelopeMsg :: "string \<Rightarrow> go_error" where
  "ErrInvalidEnvelopeMsg msg = NewDdError ErrInvalidEnvelope msg"

definition ErrUnauthorizedPeerMsg :: "string \<Rightarrow> go_error" where
  "ErrUnauthorizedPeerMsg peerId =
     NewDdError ErrUnauthorizedPeer (''peer '' @ peerId @ '' unauthorized'')"

definition ErrSyncTimeoutMsg :: "string \<Rightarrow> go_error" where
  "ErrSyncTimeoutMsg requestId =
     NewDdError ErrSyncTimeout (''sync timeout: request_id='' @ requestId)"

definition ErrDuplicateRequestMsg :: "string \<Rightarrow> go_error" where
  "ErrDuplicateRequestMsg requestId =
     NewDdError ErrDuplicateRequest (''duplicate request_id: '' @ requestId)"

definition ErrAclDeniedMsg :: "string \<Rightarrow> string \<Rightarrow> string \<Rightarrow> go_error" where
  "ErrAclDeniedMsg peerId action topic =
     NewDdError ErrAclDenied
       (''acl denied: peer='' @ peerId @ '' action='' @ action @ '' topic='' @ topic)"

definition ErrPeerNotFoundMsg :: "string \<Rightarrow> go_error" where
  "ErrPeerNotFoundMsg peerId = NewDdError ErrPeerNotFound (''peer not found: '' @ peerId)"

section \<open>The message envelope\<close>

type_synonym DdTransferMode = string
type_synonym DdProtocol = string

definition DdTransferModeSync :: DdTransferMode where [go_consts]: "DdTransferModeSync = ''sync''"
definition DdTransferModeAsync :: DdTransferMode where [go_consts]: "DdTransferModeAsync = ''async''"
definition DdProtocolHttp :: DdProtocol where [go_consts]: "DdProtocolHttp = ''http''"
definition DdProtocolMq :: DdProtocol where [go_consts]: "DdProtocolMq = ''mq''"
definition DdProtocolSocket :: DdProtocol where [go_consts]: "DdProtocolSocket = ''socket''"
definition DdProtocolStream :: DdProtocol where [go_consts]: "DdProtocolStream = ''stream''"
definition DdProtocolCoap :: DdProtocol where [go_consts]: "DdProtocolCoap = ''coap''"
definition DdMessageVersionV1 :: string where [go_consts]: "DdMessageVersionV1 = ''v1''"

record DdHeader =
  h_RequestId :: string
  h_CorrelationId :: string
  h_ReplyTo :: string
  h_TimeoutMs :: int
  h_SourcePeerId :: string
  h_TargetPeerId :: string
  h_Tenant :: string
  h_TraceId :: string
  h_IdempotencyKey :: string

definition zeroHeader :: DdHeader where
  "zeroHeader = \<lparr>h_RequestId = [], h_CorrelationId = [], h_ReplyTo = [], h_TimeoutMs = 0,
     h_SourcePeerId = [], h_TargetPeerId = [], h_Tenant = [], h_TraceId = [],
     h_IdempotencyKey = []\<rparr>"

record DdMessage =
  m_Version :: string
  m_Mode :: DdTransferMode
  m_Protocol :: DdProtocol
  m_Resource :: string
  m_Header :: DdHeader
  m_Meta :: DdHeader
  m_Headers :: "(string, string) gomap"
  m_ProtocolMeta :: "(string, (string, string) gomap) gomap"
  m_Payload :: bytes
  m_CreatedAt :: gotime

definition zeroMessage :: DdMessage where
  "zeroMessage = \<lparr>m_Version = [], m_Mode = [], m_Protocol = [], m_Resource = [],
     m_Header = zeroHeader, m_Meta = zeroHeader, m_Headers = [], m_ProtocolMeta = [],
     m_Payload = [], m_CreatedAt = 0\<rparr>"

definition isHeaderZero :: "DdHeader \<Rightarrow> bool" where
  "isHeaderZero h \<longleftrightarrow> h = zeroHeader"

text \<open>The copy loop writes each entry of a map once: the same entries.\<close>

definition cloneMap :: "('k, 'v) gomap \<Rightarrow> ('k, 'v) gomap" where
  "cloneMap inp = (if length inp = 0 then [] else map (\<lambda>(k, v). (k, v)) inp)"

text \<open>\<open>Normalize\<close> is five conditional assignments in a row.\<close>

definition normVersion :: "DdMessage \<Rightarrow> DdMessage" where
  "normVersion m = (if m_Version m = [] then m\<lparr>m_Version := DdMessageVersionV1\<rparr> else m)"

definition normMeta :: "DdMessage \<Rightarrow> DdMessage" where
  "normMeta m = (if isHeaderZero (m_Meta m) \<and> \<not> isHeaderZero (m_Header m)
     then m\<lparr>m_Meta := m_Header m\<rparr> else m)"

definition normHeader :: "DdMessage \<Rightarrow> DdMessage" where
  "normHeader m = (if isHeaderZero (m_Header m) \<and> \<not> isHeaderZero (m_Meta m)
     then m\<lparr>m_Header := m_Meta m\<rparr> else m)"

definition normProtocolMeta :: "DdMessage \<Rightarrow> DdMessage" where
  "normProtocolMeta m = (if length (m_ProtocolMeta m) = 0 \<and> length (m_Headers m) > 0
     then m\<lparr>m_ProtocolMeta := [(m_Protocol m, cloneMap (m_Headers m))]\<rparr> else m)"

definition normHeaders :: "DdMessage \<Rightarrow> DdMessage" where
  "normHeaders m = (if length (m_Headers m) = 0 \<and> length (m_ProtocolMeta m) > 0
     then (case map_of (m_ProtocolMeta m) (m_Protocol m) of
             Some pm \<Rightarrow> m\<lparr>m_Headers := cloneMap pm\<rparr> | None \<Rightarrow> m)
     else m)"

definition Normalize :: "DdMessage \<Rightarrow> DdMessage" where
  "Normalize m = normHeaders (normProtocolMeta (normHeader (normMeta (normVersion m))))"

definition ProtocolFields :: "DdMessage \<Rightarrow> (string, string) gomap \<times> DdMessage" where
  "ProtocolFields m =
    (let m = Normalize m
     in case map_of (m_ProtocolMeta m) (m_Protocol m) of
          Some pm \<Rightarrow> (pm, m) | None \<Rightarrow> (m_Headers m, m))"

text \<open>The table \<open>allowed\<close> of \<open>validateProtocolMeta\<close>.\<close>

definition allowedProtocolMeta :: "(DdProtocol, string list) gomap" where
  "allowedProtocolMeta =
    [(DdProtocolHttp, [''method'', ''path'', ''query'', ''content-type'', ''content_type'']),
     (DdProtocolCoap, [''method'', ''path'', ''content_format'', ''token'', ''observe'']),
     (DdProtocolMq, [''topic'', ''qos'', ''retain'', ''partition_key'']),
     (DdProtocolStream, [''stream_id'', ''profile'', ''subproto'', ''chunk_seq'']),
     (DdProtocolSocket, [])]"

definition validateProtocolMeta :: "DdMessage \<Rightarrow> string option \<times> DdMessage" where
  "validateProtocolMeta m =
    (case ProtocolFields m of (flds, m) \<Rightarrow>
      if length flds = 0 then (None, m)
      else (case map_of allowedProtocolMeta (m_Protocol m) of
          None \<Rightarrow> (None, m)
        | Some allow \<Rightarrow>
           (case find (\<lambda>k. k \<notin> set allow \<and>
                        \<not> (m_Protocol m = DdProtocolHttp \<and> sublist ''-'' k))
                 (map fst flds) of
              Some k \<Rightarrow> (Some (''invalid protocol_meta field: '' @ k), m)
            | None \<Rightarrow> (None, m))))"

definition knownProtocols :: "DdProtocol list" where
  "knownProtocols =
     [DdProtocolHttp, DdProtocolMq, DdProtocolSocket, DdProtocolStream, DdProtocolCoap]"

text \<open>\<open>Validate\<close> on a message that is there, and on a pointer that may be nil.\<close>

definition validateMessage :: "DdMessage \<Rightarrow> string option \<times> DdMessage" where
  "validateMessage m =
    (let m = Normalize m in
     if m_Mode m \<noteq> DdTransferModeSync \<and> m_Mode m \<noteq> DdTransferModeAsync
     then (Some ''invalid mode'', m)
     else if m_Protocol m \<notin> set knownProtocols then (Some ''invalid protocol'', m)
     else if m_Resource m = [] then (Some ''resource is required'', m)
     else (case validateProtocolMeta m of
         (Some err, m) \<Rightarrow> (Some err, m)
       | (None, m) \<Rightarrow>
          if m_Mode m = DdTransferModeSync \<and> h_RequestId (m_Header m) = []
          then (Some ''sync request_id is required'', m)
          else if m_Mode m = DdTransferModeSync \<and> h_TimeoutMs (m_Header m) \<le> 0
          then (Some ''sync timeout_ms must be > 0'', m)
          else (None, m)))"

fun Validate :: "DdMessage option \<Rightarrow> string option \<times> DdMessage option" where
  "Validate None = (Some ''message is nil'', None)"
| "Validate (Some m) = (case validateMessage m of (err, m) \<Rightarrow> (err, Some m))"

section \<open>The codec\<close>

definition gzipMagic :: bytes where
  "gzipMagic = [0x44, 0x44, 0x47, 0x5a, 0x31]"

fun magic_mismatch :: "bytes \<Rightarrow> bytes \<Rightarrow> bool" where
  "magic_mismatch (d # ds) (g # gs) = (if d \<noteq> g then True else magic_mismatch ds gs)"
| "magic_mismatch _ _ = False"

definition isGzipEnvelope :: "bytes \<Rightarrow> bool" where
  "isGzipEnvelope data =
     (if length data < length gzipMagic then False else \<not> magic_mismatch data gzipMagic)"

text \<open>\<open>marshal\<close> is \<open>json.Marshal\<close>; \<open>gzip\<close> is a \<open>gzip.Writer\<close> written and closed, or
  the error of either call.\<close>

definition EncodeDdMessage ::
  "(DdMessage \<Rightarrow> go_error + bytes) \<Rightarrow> (bytes \<Rightarrow> go_error + bytes) \<Rightarrow> DdMessage \<Rightarrow> bool \<Rightarrow>
     (go_error + bytes) \<times> DdMessage" where
  "EncodeDdMessage marshal gzip msg compress =
    (let msg = Normalize msg
     in case marshal msg of
          Inl err \<Rightarrow> (Inl err, msg)
        | Inr raw \<Rightarrow>
            if \<not> compress then (Inr raw, msg)
            else (case gzip raw of Inl err \<Rightarrow> (Inl err, msg)
                  | Inr z \<Rightarrow> (Inr (gzipMagic @ z), msg)))"

text \<open>\<open>gunzip\<close> is \<open>gzip.NewReader\<close> followed by \<open>io.ReadAll\<close>; \<open>unmarshal data out\<close> is
  \<open>json.Unmarshal\<close> into the value \<open>out\<close>.\<close>

definition DecodeDdMessage ::
  "(bytes \<Rightarrow> DdMessage \<Rightarrow> go_error + DdMessage) \<Rightarrow> (bytes \<Rightarrow> go_error + bytes) \<Rightarrow> bytes \<Rightarrow>
     DdMessage \<Rightarrow> go_error + DdMessage" where
  "DecodeDdMessage unmarshal gunzip data out =
    (case (if isGzipEnvelope data then gunzip (drop (length gzipMagic) data) else Inr data) of
       Inl err \<Rightarrow> Inl err
     | Inr payload \<Rightarrow>
        (case unmarshal payload out of Inl err \<Rightarrow> Inl err | Inr out \<Rightarrow> Inr (Normalize out)))"

section \<open>Lemmas\<close>

lemma cloneMap_id [simp]: "cloneMap m = m"
  by (simp add: cloneMap_def)

named_theorems norm_steps \<open>what one assignment of Normalize leaves in each field\<close>

lemma normVersion_sel [norm_steps]:
  "m_Version (normVersion m) = (if m_Version m = [] then DdMessageVersionV1 else m_Version m)"
  "m_Mode (normVersion m) = m_Mode m" "m_Protocol (normVersion m) = m_Protocol m"
  "m_Resource (normVersion m) = m_Resource m" "m_Header (normVersion m) = m_Header m"
  "m_Meta (normVersion m) = m_Meta m" "m_Headers (normVersion m) = m_Headers m"
  "m_ProtocolMeta (normVersion m) = m_ProtocolMeta m"
  "m_Payload (normVersion m) = m_Payload m" "m_CreatedAt (normVersion m) = m_CreatedAt m"
  by (simp_all add: normVersion_def)

lemma normMeta_sel [norm_steps]:
  "m_Meta (normMeta m) = (if isHeaderZero (m_Meta m) then m_Header m else m_Meta m)"
  "m_Version (normMeta m) = m_Version m"
  "m_Mode (normMeta m) = m_Mode m" "m_Protocol (normMeta m) = m_Protocol m"
  "m_Resource (normMeta m) = m_Resource m" "m_Header (normMeta m) = m_Header m"
  "m_Headers (normMeta m) = m_Headers m" "m_ProtocolMeta (normMeta m) = m_ProtocolMeta m"
  "m_Payload (normMeta m) = m_Payload m" "m_CreatedAt (normMeta m) = m_CreatedAt m"
  by (simp_all add: normMeta_def isHeaderZero_def)

lemma normHeader_sel [norm_steps]:
  "m_Header (normHeader m) = (if isHeaderZero (m_Header m) then m_Meta m else m_Header m)"
  "m_Version (normHeader m) = m_Version m"
  "m_Mode (normHeader m) = m_Mode m" "m_Protocol (normHeader m) = m_Protocol m"
  "m_Resource (normHeader m) = m_Resource m" "m_Meta (normHeader m) = m_Meta m"
  "m_Headers (normHeader m) = m_Headers m" "m_ProtocolMeta (normHeader m) = m_ProtocolMeta m"
  "m_Payload (normHeader m) = m_Payload m" "m_CreatedAt (normHeader m) = m_CreatedAt m"
  by (simp_all add: normHeader_def isHeaderZero_def)

lemma normProtocolMeta_sel [norm_steps]:
  "m_ProtocolMeta (normProtocolMeta m) =
     (if m_ProtocolMeta m = [] \<and> m_Headers m \<noteq> [] then [(m_Protocol m, m_Headers m)]
      else m_ProtocolMeta m)"
  "m_Version (normProtocolMeta m) = m_Version m"
  "m_Mode (normProtocolMeta m) = m_Mode m" "m_Protocol (normProtocolMeta m) = m_Protocol m"
  "m_Resource (normProtocolMeta m) = m_Resource m" "m_Header (normProtocolMeta m) = m_Header m"
  "m_Meta (normProtocolMeta m) = m_Meta m" "m_Headers (normProtocolMeta m) = m_Headers m"
  "m_Payload (normProtocolMeta m) = m_Payload m"
  "m_CreatedAt (normProtocolMeta m) = m_CreatedAt m"
  by (simp_all add: normProtocolMeta_def)

lemma normHeaders_sel [norm_steps]:
  "m_Headers (normHeaders m) =
     (if m_Headers m = []
      then (case map_of (m_ProtocolMeta m) (m_Protocol m) of Some pm \<Rightarrow> pm | None \<Rightarrow> [])
      else m_Headers m)"
  "m_Version (normHeaders m) = m_Version m"
  "m_Mode (normHeaders m) = m_Mode m" "m_Protocol (normHeaders m) = m_Protocol m"
  "m_Resource (normHeaders m) = m_Resource m" "m_Header (normHeaders m) = m_Header m"
  "m_Meta (normHeaders m) = m_Meta m" "m_ProtocolMeta (normHeaders m) = m_ProtocolMeta m"
  "m_Payload (normHeaders m) = m_Payload m" "m_CreatedAt (normHeaders m) = m_CreatedAt m"
  by (simp_all add: normHeaders_def split: option.split)

lemmas Normalize_defs =
  Normalize_def normVersion_def normMeta_def normHeader_def normProtocolMeta_def normHeaders_def

lemma Normalize_fields [simp]:
  "m_Mode (Normalize m) = m_Mode m"
  "m_Protocol (Normalize m) = m_Protocol m"
  "m_Resource (Normalize m) = m_Resource m"
  "m_Payload (Normalize m) = m_Payload m"
  "m_CreatedAt (Normalize m) = m_CreatedAt m"
  by (simp_all add: Normalize_def norm_steps)

text \<open>The header the services read, and the one the receiver of a message with only
  \<open>meta\<close> sees.\<close>

lemma Normalize_Header:
  "m_Header (Normalize m) = (if isHeaderZero (m_Header m) then m_Meta m else m_Header m)"
  by (simp add: Normalize_def norm_steps isHeaderZero_def)

lemma Normalize_Meta:
  "m_Meta (Normalize m) = (if isHeaderZero (m_Meta m) then m_Header m else m_Meta m)"
  by (simp add: Normalize_def norm_steps)

lemma Normalize_Version:
  "m_Version (Normalize m) = (if m_Version m = [] then DdMessageVersionV1 else m_Version m)"
  by (simp add: Normalize_def norm_steps)

lemma Normalize_ProtocolMeta:
  "m_ProtocolMeta (Normalize m) =
     (if m_ProtocolMeta m = [] \<and> m_Headers m \<noteq> [] then [(m_Protocol m, m_Headers m)]
      else m_ProtocolMeta m)"
  by (simp add: Normalize_def norm_steps)

lemma Normalize_Headers:
  "m_Headers (Normalize m) =
     (if m_Headers m = []
      then (case map_of (m_ProtocolMeta m) (m_Protocol m) of Some pm \<Rightarrow> pm | None \<Rightarrow> [])
      else m_Headers m)"
  by (simp add: Normalize_def norm_steps)

lemmas Normalize_simps =
  Normalize_Header Normalize_Meta Normalize_Version Normalize_ProtocolMeta Normalize_Headers

lemma DdMessage_eqI:
  fixes m n :: DdMessage
  assumes "m_Version m = m_Version n" "m_Mode m = m_Mode n" "m_Protocol m = m_Protocol n"
    "m_Resource m = m_Resource n" "m_Header m = m_Header n" "m_Meta m = m_Meta n"
    "m_Headers m = m_Headers n" "m_ProtocolMeta m = m_ProtocolMeta n"
    "m_Payload m = m_Payload n" "m_CreatedAt m = m_CreatedAt n"
  shows "m = n"
  using assms by simp

lemma Normalize_idem [simp]: "Normalize (Normalize m) = Normalize m"
  by (rule DdMessage_eqI)
    (simp_all add: Normalize_simps go_consts isHeaderZero_def split: option.split)

definition effectiveFields :: "DdMessage \<Rightarrow> (string, string) gomap" where
  "effectiveFields m =
     (case map_of (m_ProtocolMeta m) (m_Protocol m) of Some pm \<Rightarrow> pm | None \<Rightarrow> m_Headers m)"

lemma ProtocolFields_eq: "ProtocolFields m = (effectiveFields m, Normalize m)"
  by (simp add: ProtocolFields_def effectiveFields_def Let_def Normalize_simps
      split: option.split)

lemma effectiveFields_Normalize [simp]: "effectiveFields (Normalize m) = effectiveFields m"
  by (simp add: effectiveFields_def Normalize_simps split: option.split)

text \<open>What \<open>validateProtocolMeta\<close> lets through.\<close>

definition legalField :: "DdProtocol \<Rightarrow> string \<Rightarrow> bool" where
  "legalField proto k \<longleftrightarrow>
     (case map_of allowedProtocolMeta proto of None \<Rightarrow> True | Some allow \<Rightarrow> k \<in> set allow)
     \<or> proto = DdProtocolHttp \<and> CHR ''-'' \<in> set k"

lemma sublist_single [simp]: "sublist [c] k \<longleftrightarrow> c \<in> set k"
  by (auto simp: sublist_def in_set_conv_decomp)

lemma find_eq_None: "find P xs = None \<longleftrightarrow> list_all (\<lambda>x. \<not> P x) xs"
  by (induction xs) auto

lemma validateProtocolMeta_ok_iff:
  "fst (validateProtocolMeta m) = None \<longleftrightarrow>
     list_all (legalField (m_Protocol m)) (map fst (effectiveFields m))"
proof (cases "map_of allowedProtocolMeta (m_Protocol m)")
  case None
  then show ?thesis
    by (simp add: validateProtocolMeta_def ProtocolFields_eq legalField_def [abs_def] list_all_iff)
next
  case (Some allow)
  have "fst (validateProtocolMeta m) = None \<longleftrightarrow>
      find (\<lambda>k. k \<notin> set allow \<and> \<not> (m_Protocol m = DdProtocolHttp \<and> sublist ''-'' k))
        (map fst (effectiveFields m)) = None"
    using Some by (auto simp: validateProtocolMeta_def ProtocolFields_eq split: option.split)
  with Some show ?thesis
    by (simp add: find_eq_None legalField_def [abs_def] disj_imp)
qed

lemma validateProtocolMeta_msg [simp]: "snd (validateProtocolMeta m) = Normalize m"
  by (simp add: validateProtocolMeta_def ProtocolFields_eq split: option.split)

lemma validateMessage_msg [simp]: "snd (validateMessage m) = Normalize m"
  by (cases "validateProtocolMeta (Normalize m)")
    (auto simp: validateMessage_def Let_def split: option.split dest: arg_cong [of _ _ snd])

lemma validateMessage_ok_iff:
  "fst (validateMessage m) = None \<longleftrightarrow>
     m_Mode m \<in> {DdTransferModeSync, DdTransferModeAsync} \<and>
     m_Protocol m \<in> set knownProtocols \<and> m_Resource m \<noteq> [] \<and>
     list_all (legalField (m_Protocol m)) (map fst (effectiveFields m)) \<and>
     (m_Mode m = DdTransferModeSync \<longrightarrow>
        h_RequestId (m_Header (Normalize m)) \<noteq> [] \<and> 0 < h_TimeoutMs (m_Header (Normalize m)))"
proof -
  obtain r m' where v: "validateProtocolMeta (Normalize m) = (r, m')" by fastforce
  have m': "m' = Normalize m"
    using validateProtocolMeta_msg [of "Normalize m"] v by simp
  have "r = None \<longleftrightarrow> list_all (legalField (m_Protocol m)) (map fst (effectiveFields m))"
    using validateProtocolMeta_ok_iff [of "Normalize m"] v by simp
  with v m' show ?thesis by (auto simp: validateMessage_def Let_def split: option.splits)
qed

lemma fst_Validate: "fst (Validate (Some m)) = fst (validateMessage m)"
  by (simp split: prod.split)

lemma isGzipEnvelope_iff: "isGzipEnvelope data \<longleftrightarrow> prefix gzipMagic data"
proof -
  have "length gs \<le> length ds \<Longrightarrow> (\<not> magic_mismatch ds gs) = prefix gs ds" for ds gs
    by (induction ds gs rule: magic_mismatch.induct) auto
  then show ?thesis
    by (auto simp: isGzipEnvelope_def not_less dest: prefix_length_le)
qed

section \<open>Properties\<close>

text \<open>
  C5: \<open>Validate\<close> accepts a message exactly when its mode and protocol are known, its
  resource is not empty, every protocol field it carries is legal for its protocol
  (for HTTP also any name with a dash), and, in sync mode, the request id is set and
  the timeout positive; the fields and the header that count are the ones of
  whichever of the old or new envelope form the sender filled in.
\<close>

theorem Validate_accepts_iff:
  "fst (Validate (Some m)) = None \<longleftrightarrow>
     (let hdr = (if isHeaderZero (m_Header m) then m_Meta m else m_Header m);
          flds = (case map_of (m_ProtocolMeta m) (m_Protocol m) of
                    Some pm \<Rightarrow> pm | None \<Rightarrow> m_Headers m)
      in m_Mode m \<in> {DdTransferModeSync, DdTransferModeAsync} \<and>
         m_Protocol m \<in> set knownProtocols \<and> m_Resource m \<noteq> [] \<and>
         list_all (legalField (m_Protocol m)) (map fst flds) \<and>
         (m_Mode m = DdTransferModeSync \<longrightarrow> h_RequestId hdr \<noteq> [] \<and> 0 < h_TimeoutMs hdr))"
  unfolding fst_Validate validateMessage_ok_iff Normalize_Header effectiveFields_def Let_def ..

theorem Validate_accepts_iff_witness:
  "fst (Validate (Some (zeroMessage\<lparr>m_Mode := ''async'', m_Protocol := ''mq'',
     m_Resource := ''r'', m_Headers := [(''qos'', ''1'')]\<rparr>))) = None"
  unfolding Validate_accepts_iff
  by (simp add: zeroMessage_def go_consts knownProtocols_def legalField_def allowedProtocolMeta_def)

text \<open>
  The two generations of the envelope are interchangeable: a message that
  carries \<open>header\<close> and \<open>headers\<close> only, and the same message with \<open>meta\<close> and
  \<open>protocol_meta\<close> only, normalise to one message, in which both forms are filled in
  and which a further normalisation leaves alone.
\<close>

lemma Normalize_compat:
  fixes m :: DdMessage
  assumes "\<not> isHeaderZero h" "hs \<noteq> []"
  shows "let old = m\<lparr>m_Header := h, m_Meta := zeroHeader, m_Headers := hs, m_ProtocolMeta := []\<rparr>;
             new = m\<lparr>m_Header := zeroHeader, m_Meta := h, m_Headers := [],
                      m_ProtocolMeta := [(m_Protocol m, hs)]\<rparr>;
             n = Normalize old
         in n = Normalize new \<and> Normalize n = n \<and> m_Header n = h \<and> m_Meta n = h \<and>
            m_Headers n = hs \<and> map_of (m_ProtocolMeta n) (m_Protocol m) = Some hs"
proof -
  have "Normalize (m\<lparr>m_Header := h, m_Meta := zeroHeader, m_Headers := hs, m_ProtocolMeta := []\<rparr>) =
    Normalize (m\<lparr>m_Header := zeroHeader, m_Meta := h, m_Headers := [],
      m_ProtocolMeta := [(m_Protocol m, hs)]\<rparr>)" (is "Normalize ?old = Normalize ?new")
    using assms by (intro DdMessage_eqI) (simp_all add: Normalize_simps isHeaderZero_def)
  moreover have "m_Header (Normalize ?old) = h" "m_Meta (Normalize ?old) = h"
    "m_Headers (Normalize ?old) = hs"
    "map_of (m_ProtocolMeta (Normalize ?old)) (m_Protocol m) = Some hs"
    using assms by (simp_all add: Normalize_simps isHeaderZero_def)
  ultimately show ?thesis by (simp only: Let_def Normalize_idem simp_thms)
qed

text \<open>
  C6: decoding what the encoder produced gives the normalised message back, plain or
  compressed. The JSON encoder is assumed to write an object (its first byte is an
  opening brace) and to read its own output of this message back; the gzip writer and
  reader are inverse on it. The envelope detection itself is proved.
\<close>

theorem Encode_Decode_roundtrip:
  assumes json_object: "marshal (Normalize m) = Inr (0x7b # rest)"
    and json_reads_back: "unmarshal (0x7b # rest) out = Inr (Normalize m)"
    and gzip_writes: "gzip (0x7b # rest) = Inr z"
    and gzip_reads_back: "gunzip z = Inr (0x7b # rest)"
  shows "\<exists>data. EncodeDdMessage marshal gzip m compress = (Inr data, Normalize m) \<and>
     DecodeDdMessage unmarshal gunzip data out = Inr (Normalize m)"
proof (cases compress)
  case True
  have "isGzipEnvelope (gzipMagic @ z)" by (simp add: isGzipEnvelope_iff)
  with True assms show ?thesis
    by (simp add: EncodeDdMessage_def DecodeDdMessage_def Let_def)
next
  case False
  have "\<not> isGzipEnvelope (0x7b # rest)" by (simp add: isGzipEnvelope_iff gzipMagic_def)
  with False assms show ?thesis
    by (simp add: EncodeDdMessage_def DecodeDdMessage_def Let_def)
qed

theorem Encode_Decode_roundtrip_witness:
  "\<exists>data. EncodeDdMessage (\<lambda>x. Inr (0x7b # m_Payload x)) Inr (zeroMessage\<lparr>m_Payload := [1, 2]\<rparr>) True
      = (Inr data, Normalize (zeroMessage\<lparr>m_Payload := [1, 2]\<rparr>)) \<and>
    DecodeDdMessage (\<lambda>d x. Inr (x\<lparr>m_Version := ''v1'', m_Payload := tl d\<rparr>)) Inr data zeroMessage
      = Inr (Normalize (zeroMessage\<lparr>m_Payload := [1, 2]\<rparr>))"
proof (rule Encode_Decode_roundtrip)
  show "(Inr (0x7b # m_Payload (Normalize (zeroMessage\<lparr>m_Payload := [1, 2]\<rparr>))) :: go_error + bytes)
      = Inr (0x7b # [1, 2])"
    by simp
  show "(Inr (zeroMessage\<lparr>m_Version := ''v1'', m_Payload := tl (0x7b # [1, 2])\<rparr>) :: go_error + DdMessage)
      = Inr (Normalize (zeroMessage\<lparr>m_Payload := [1, 2]\<rparr>))"
    by (simp add: Normalize_defs zeroMessage_def isHeaderZero_def go_consts)
qed (rule refl)+

end
