(* ===== verification/Config.thy ===== *)
theory Config
  imports Dd_Model
begin

text \<open>
  Configuration (\<open>config/config.go\<close>, \<open>config/cli.go\<close>): the record, its defaults, the
  overrides from the environment, from inline JSON and from the command line, and the
  order in which \<open>LoadWithArgs\<close> applies them. The file system, the two parsers and the
  environment are parameters: \<open>readFile\<close>, \<open>json\<close> and \<open>yaml\<close> (which decode over an
  existing value) and \<open>getenv\<close> (the empty string for an unset variable).

  The package's other file-level entry points \<open>Load\<close>, \<open>LoadOrDefault\<close> and
  \<open>LoadOrDefaultPath\<close> are modelled too.
\<close>

section \<open>The record\<close>

record ServerConfig =
  sv_ListenAddr :: string

record BroadcastConfig =
  bc_IntervalSec :: int
  bc_TtlSec :: int

record AuthPeerConfig =
  ac_Key :: string
  ac_Secret :: string
  ac_VerifyTopicSuffix :: string

record PeerConfig =
  pc_Id :: string
  pc_Name :: string
  pc_Role :: string
  pc_Key :: string
  pc_Secret :: string
  pc_Broadcast :: BroadcastConfig
  pc_Auth :: AuthPeerConfig

record TLSConfig =
  tls_Enabled :: bool
  tls_CaCertFile :: string
  tls_ClientCertFile :: string
  tls_ClientKeyFile :: string
  tls_InsecureSkipVerify :: bool

record MqttConfig =
  mqc_BrokerUrl :: string
  mqc_ClientId :: string
  mqc_Username :: string
  mqc_Password :: string
  mqc_TLS :: TLSConfig
  mqc_TopicAliasEnabled :: bool

record MqConfig =
  mq_Provider :: string
  mq_Mqtt :: MqttConfig

record SyncConfig =
  sy_DefaultTimeoutMs :: int

record DiscoveryConfig =
  di_HeartbeatIntervalSec :: int
  di_LeaseTtlSec :: int
  di_DefaultPageSize :: int
  di_MaxPageSize :: int

record BridgeTargetCfg =
  bt_Enabled :: bool
  bt_TargetUrl :: string

record BridgeConfig =
  bg_Http :: BridgeTargetCfg
  bg_Coap :: BridgeTargetCfg
  bg_MqttMappings :: "(string \<times> string) list"

record AclRule =
  al_PeerId :: string
  al_Action :: string
  al_Pattern :: string
  al_Allow :: bool

record LoggingConfig =
  lg_Level :: string
  lg_Format :: string

record Config =
  cf_Server :: ServerConfig
  cf_Peer :: PeerConfig
  cf_Mq :: MqConfig
  cf_Tenant :: string
  cf_Sync :: SyncConfig
  cf_Discovery :: DiscoveryConfig
  cf_Bridges :: BridgeConfig
  cf_AclRules :: "AclRule list"
  cf_Logging :: LoggingConfig

definition zeroTLS :: TLSConfig where
  "zeroTLS = \<lparr>tls_Enabled = False, tls_CaCertFile = [], tls_ClientCertFile = [],
     tls_ClientKeyFile = [], tls_InsecureSkipVerify = False\<rparr>"

definition zeroConfig :: Config where
  "zeroConfig = \<lparr>cf_Server = \<lparr>sv_ListenAddr = []\<rparr>,
     cf_Peer = \<lparr>pc_Id = [], pc_Name = [], pc_Role = [], pc_Key = [], pc_Secret = [],
       pc_Broadcast = \<lparr>bc_IntervalSec = 0, bc_TtlSec = 0\<rparr>,
       pc_Auth = \<lparr>ac_Key = [], ac_Secret = [], ac_VerifyTopicSuffix = []\<rparr>\<rparr>,
     cf_Mq = \<lparr>mq_Provider = [], mq_Mqtt = \<lparr>mqc_BrokerUrl = [], mqc_ClientId = [],
       mqc_Username = [], mqc_Password = [], mqc_TLS = zeroTLS, mqc_TopicAliasEnabled = False\<rparr>\<rparr>,
     cf_Tenant = [], cf_Sync = \<lparr>sy_DefaultTimeoutMs = 0\<rparr>,
     cf_Discovery = \<lparr>di_HeartbeatIntervalSec = 0, di_LeaseTtlSec = 0, di_DefaultPageSize = 0, di_MaxPageSize = 0\<rparr>,
     cf_Bridges = \<lparr>bg_Http = \<lparr>bt_Enabled = False, bt_TargetUrl = []\<rparr>,
       bg_Coap = \<lparr>bt_Enabled = False, bt_TargetUrl = []\<rparr>, bg_MqttMappings = []\<rparr>,
     cf_AclRules = [], cf_Logging = \<lparr>lg_Level = [], lg_Format = []\<rparr>\<rparr>"

definition defaultConfig :: Config where
  "defaultConfig = zeroConfig\<lparr>
     cf_Server := \<lparr>sv_ListenAddr = '':8080''\<rparr>,
     cf_Peer := (cf_Peer zeroConfig)\<lparr>pc_Role := ''edge'',
       pc_Broadcast := \<lparr>bc_IntervalSec = 10, bc_TtlSec = 30\<rparr>\<rparr>,
     cf_Mq := \<lparr>mq_Provider = ''mqtt'', mq_Mqtt = (mq_Mqtt (cf_Mq zeroConfig))\<lparr>
       mqc_BrokerUrl := ''tcp://localhost:1883'', mqc_ClientId := ''dd-core-hub''\<rparr>\<rparr>,
     cf_Tenant := ''default'',
     cf_Sync := \<lparr>sy_DefaultTimeoutMs = 3000\<rparr>,
     cf_Discovery := \<lparr>di_HeartbeatIntervalSec = 10, di_LeaseTtlSec = 30, di_DefaultPageSize = 20, di_MaxPageSize = 100\<rparr>,
     cf_Logging := \<lparr>lg_Level = ''info'', lg_Format = ''json''\<rparr>\<rparr>"

section \<open>Overrides\<close>

text \<open>\<open>if v != "" { x = v }\<close> and \<open>if n > 0 { x = n }\<close>.\<close>

definition overStr :: "string \<Rightarrow> string \<Rightarrow> string" where
  "overStr v x = (if v \<noteq> [] then v else x)"

definition overInt :: "int \<Rightarrow> int \<Rightarrow> int" where
  "overInt n x = (if n > 0 then n else x)"

definition mergePeer :: "PeerConfig \<Rightarrow> PeerConfig \<Rightarrow> PeerConfig" where
  "mergePeer base override = base\<lparr>
     pc_Id := overStr (pc_Id override) (pc_Id base),
     pc_Name := overStr (pc_Name override) (pc_Name base),
     pc_Role := overStr (pc_Role override) (pc_Role base),
     pc_Key := overStr (pc_Key override) (pc_Key base),
     pc_Secret := overStr (pc_Secret override) (pc_Secret base),
     pc_Broadcast := \<lparr>bc_IntervalSec = overInt (bc_IntervalSec (pc_Broadcast override)) (bc_IntervalSec (pc_Broadcast base)),
       bc_TtlSec = overInt (bc_TtlSec (pc_Broadcast override)) (bc_TtlSec (pc_Broadcast base))\<rparr>\<rparr>"

definition mergeTLS :: "TLSConfig \<Rightarrow> TLSConfig \<Rightarrow> TLSConfig" where
  "mergeTLS base override = \<lparr>
     tls_Enabled = (tls_Enabled base \<or> tls_Enabled override),
     tls_CaCertFile = overStr (tls_CaCertFile override) (tls_CaCertFile base),
     tls_ClientCertFile = overStr (tls_ClientCertFile override) (tls_ClientCertFile base),
     tls_ClientKeyFile = overStr (tls_ClientKeyFile override) (tls_ClientKeyFile base),
     tls_InsecureSkipVerify = (tls_InsecureSkipVerify base \<or> tls_InsecureSkipVerify override)\<rparr>"

definition mergeMq :: "MqConfig \<Rightarrow> MqConfig \<Rightarrow> MqConfig" where
  "mergeMq base override =
    (let b = mq_Mqtt base; o' = mq_Mqtt override in
     \<lparr>mq_Provider = overStr (mq_Provider override) (mq_Provider base),
      mq_Mqtt = \<lparr>mqc_BrokerUrl = overStr (mqc_BrokerUrl o') (mqc_BrokerUrl b),
        mqc_ClientId = overStr (mqc_ClientId o') (mqc_ClientId b),
        mqc_Username = overStr (mqc_Username o') (mqc_Username b),
        mqc_Password = overStr (mqc_Password o') (mqc_Password b),
        mqc_TLS = mergeTLS (mqc_TLS b) (mqc_TLS o'),
        mqc_TopicAliasEnabled = (mqc_TopicAliasEnabled b \<or> mqc_TopicAliasEnabled o')\<rparr>\<rparr>)"

definition mergeDiscovery :: "DiscoveryConfig \<Rightarrow> DiscoveryConfig \<Rightarrow> DiscoveryConfig" where
  "mergeDiscovery base override = \<lparr>
     di_HeartbeatIntervalSec = overInt (di_HeartbeatIntervalSec override) (di_HeartbeatIntervalSec base),
     di_LeaseTtlSec = overInt (di_LeaseTtlSec override) (di_LeaseTtlSec base),
     di_DefaultPageSize = overInt (di_DefaultPageSize override) (di_DefaultPageSize base),
     di_MaxPageSize = overInt (di_MaxPageSize override) (di_MaxPageSize base)\<rparr>"

definition mergeTarget :: "BridgeTargetCfg \<Rightarrow> BridgeTargetCfg \<Rightarrow> BridgeTargetCfg" where
  "mergeTarget base override = \<lparr>bt_Enabled = (bt_Enabled base \<or> bt_Enabled override),
     bt_TargetUrl = overStr (bt_TargetUrl override) (bt_TargetUrl base)\<rparr>"

definition mergeBridges :: "BridgeConfig \<Rightarrow> BridgeConfig \<Rightarrow> BridgeConfig" where
  "mergeBridges base override = \<lparr>
     bg_Http = mergeTarget (bg_Http base) (bg_Http override),
     bg_Coap = mergeTarget (bg_Coap base) (bg_Coap override),
     bg_MqttMappings = (if length (bg_MqttMappings override) > 0 then bg_MqttMappings override
       else bg_MqttMappings base)\<rparr>"

definition mergeInto :: "Config \<Rightarrow> Config \<Rightarrow> Config" where
  "mergeInto base override = base\<lparr>
     cf_Server := \<lparr>sv_ListenAddr = overStr (sv_ListenAddr (cf_Server override)) (sv_ListenAddr (cf_Server base))\<rparr>,
     cf_Peer := mergePeer (cf_Peer base) (cf_Peer override),
     cf_Tenant := overStr (cf_Tenant override) (cf_Tenant base),
     cf_Mq := mergeMq (cf_Mq base) (cf_Mq override),
     cf_Sync := \<lparr>sy_DefaultTimeoutMs = overInt (sy_DefaultTimeoutMs (cf_Sync override)) (sy_DefaultTimeoutMs (cf_Sync base))\<rparr>,
     cf_Discovery := mergeDiscovery (cf_Discovery base) (cf_Discovery override),
     cf_Logging := \<lparr>lg_Level = overStr (lg_Level (cf_Logging override)) (lg_Level (cf_Logging base)),
       lg_Format = overStr (lg_Format (cf_Logging override)) (lg_Format (cf_Logging base))\<rparr>,
     cf_Bridges := mergeBridges (cf_Bridges base) (cf_Bridges override),
     cf_AclRules := (if length (cf_AclRules override) > 0 then cf_AclRules override else cf_AclRules base)\<rparr>"

definition MergeJson :: "(string \<Rightarrow> Config \<Rightarrow> go_error + Config) \<Rightarrow> Config \<Rightarrow> string \<Rightarrow> go_error + Config" where
  "MergeJson json cfg jsonStr =
    (if jsonStr = [] then Inr cfg
     else (case json jsonStr zeroConfig of
         Inl err \<Rightarrow> Inl err
       | Inr override \<Rightarrow> Inr (mergeInto cfg override)))"

text \<open>Digits: any other character gives zero; the arithmetic wraps at 64 bits.\<close>

fun parseDigits :: "int \<Rightarrow> string \<Rightarrow> int" where
  "parseDigits n [] = n"
| "parseDigits n (c # s) =
    (if of_char c < (48 :: nat) \<or> of_char c > (57 :: nat) then 0
     else parseDigits (wrap64 (n * 10 + (int (of_char c) - 48))) s)"

definition parseInt64 :: "string \<Rightarrow> int" where
  "parseInt64 s = parseDigits 0 s"

definition parseInt :: "string \<Rightarrow> int" where
  "parseInt s = parseInt64 s"

text \<open>\<open>strings.EqualFold\<close> with an ASCII word and \<open>strings.ToLower\<close> on ASCII.\<close>

definition asciiLower :: "char \<Rightarrow> char" where
  "asciiLower c = (let n = of_char c in if 65 \<le> n \<and> n \<le> (90 :: nat) then char_of (n + 32) else c)"

definition envTrue :: "string \<Rightarrow> bool" where
  "envTrue v \<longleftrightarrow> v = ''1'' \<or> map asciiLower v = ''true''"

definition envMqtt :: "(string \<Rightarrow> string) \<Rightarrow> MqttConfig \<Rightarrow> MqttConfig" where
  "envMqtt getenv c = c\<lparr>
     mqc_BrokerUrl := overStr (getenv ''DD_MQTT_BROKER_URL'') (mqc_BrokerUrl c),
     mqc_ClientId := overStr (getenv ''DD_MQTT_CLIENT_ID'') (mqc_ClientId c),
     mqc_Username := overStr (getenv ''DD_MQTT_USERNAME'') (mqc_Username c),
     mqc_Password := overStr (getenv ''DD_MQTT_PASSWORD'') (mqc_Password c),
     mqc_TLS := \<lparr>
       tls_Enabled = (if envTrue (getenv ''DD_MQTT_TLS_ENABLED'') then True else tls_Enabled (mqc_TLS c)),
       tls_CaCertFile = overStr (getenv ''DD_MQTT_TLS_CA_CERT_FILE'') (tls_CaCertFile (mqc_TLS c)),
       tls_ClientCertFile = overStr (getenv ''DD_MQTT_TLS_CLIENT_CERT_FILE'') (tls_ClientCertFile (mqc_TLS c)),
       tls_ClientKeyFile = overStr (getenv ''DD_MQTT_TLS_CLIENT_KEY_FILE'') (tls_ClientKeyFile (mqc_TLS c)),
       tls_InsecureSkipVerify = (if envTrue (getenv ''DD_MQTT_TLS_INSECURE_SKIP_VERIFY'') then True
         else tls_InsecureSkipVerify (mqc_TLS c))\<rparr>,
     mqc_TopicAliasEnabled := (if envTrue (getenv ''DD_MQTT_TOPIC_ALIAS_ENABLED'') then True
       else mqc_TopicAliasEnabled c)\<rparr>"

text \<open>A numeric variable counts when it is set and parses to a positive number.\<close>

definition envInt :: "string \<Rightarrow> int \<Rightarrow> int" where
  "envInt v x = (if v \<noteq> [] then (if parseInt64 v > 0 then parseInt64 v else x) else x)"

definition applyEnvOverrides :: "(string \<Rightarrow> string) \<Rightarrow> Config \<Rightarrow> Config" where
  "applyEnvOverrides getenv cfg = cfg\<lparr>
     cf_Server := \<lparr>sv_ListenAddr = overStr (getenv ''DD_SERVER_LISTEN_ADDR'') (sv_ListenAddr (cf_Server cfg))\<rparr>,
     cf_Peer := (cf_Peer cfg)\<lparr>pc_Id := overStr (getenv ''DD_PEER_ID'') (pc_Id (cf_Peer cfg)),
       pc_Name := overStr (getenv ''DD_PEER_NAME'') (pc_Name (cf_Peer cfg)),
       pc_Role := overStr (getenv ''DD_PEER_ROLE'') (pc_Role (cf_Peer cfg))\<rparr>,
     cf_Mq := \<lparr>mq_Provider = overStr (getenv ''DD_MQ_PROVIDER'') (mq_Provider (cf_Mq cfg)),
       mq_Mqtt = envMqtt getenv (mq_Mqtt (cf_Mq cfg))\<rparr>,
     cf_Tenant := overStr (getenv ''DD_TENANT'') (cf_Tenant cfg),
     cf_Sync := \<lparr>sy_DefaultTimeoutMs = envInt (getenv ''DD_SYNC_DEFAULT_TIMEOUT_MS'') (sy_DefaultTimeoutMs (cf_Sync cfg))\<rparr>,
     cf_Discovery := (cf_Discovery cfg)\<lparr>di_LeaseTtlSec :=
       envInt (getenv ''DD_DISCOVERY_LEASE_TTL_SEC'') (di_LeaseTtlSec (cf_Discovery cfg))\<rparr>,
     cf_Logging := \<lparr>lg_Level = overStr (getenv ''DD_LOG_LEVEL'') (lg_Level (cf_Logging cfg)),
       lg_Format = overStr (getenv ''DD_LOG_FORMAT'') (lg_Format (cf_Logging cfg))\<rparr>\<rparr>"

section \<open>Loading\<close>

fun extRev :: "string \<Rightarrow> string \<Rightarrow> string" where
  "extRev acc [] = []"
| "extRev acc (c # cs) = (if c = CHR ''/'' then [] else if c = CHR ''.'' then c # acc else extRev (c # acc) cs)"

text \<open>\<open>filepath.Ext\<close>: from the last dot of the last path element.\<close>

definition fileExt :: "string \<Rightarrow> string" where
  "fileExt path = extRev [] (rev path)"

record ConfigEnv =
  ce_readFile :: "string \<Rightarrow> go_error + string"
  ce_json :: "string \<Rightarrow> Config \<Rightarrow> go_error + Config"
  ce_yaml :: "string \<Rightarrow> Config \<Rightarrow> go_error + Config"
  ce_getenv :: "string \<Rightarrow> string"

definition LoadPath :: "ConfigEnv \<Rightarrow> string \<Rightarrow> go_error + Config" where
  "LoadPath env path =
    (case ce_readFile env path of
       Inl err \<Rightarrow> Inl err
     | Inr data \<Rightarrow>
        let ext = map asciiLower (fileExt path) in
        if ext = ''.json'' then ce_json env data defaultConfig
        else ce_yaml env data defaultConfig)"

definition Load :: "ConfigEnv \<Rightarrow> string \<Rightarrow> go_error + Config" where
  "Load env path = (case LoadPath env path of Inl err \<Rightarrow> Inl err
     | Inr cfg \<Rightarrow> Inr (applyEnvOverrides (ce_getenv env) cfg))"

definition LoadOrDefault :: "ConfigEnv \<Rightarrow> string \<Rightarrow> Config" where
  "LoadOrDefault env path = (case Load env path of
       Inl err \<Rightarrow> applyEnvOverrides (ce_getenv env) defaultConfig | Inr cfg \<Rightarrow> cfg)"

definition LoadOrDefaultPath :: "ConfigEnv \<Rightarrow> string \<Rightarrow> Config" where
  "LoadOrDefaultPath env path = (case LoadPath env path of
       Inl err \<Rightarrow> defaultConfig | Inr cfg \<Rightarrow> applyEnvOverrides (ce_getenv env) cfg)"

record CliConfig =
  cl_ConfigPath :: string
  cl_ConfigJson :: string
  cl_Role :: string
  cl_PeerId :: string
  cl_PeerName :: string
  cl_Tenant :: string
  cl_ListenAddr :: string
  cl_MqttBroker :: string
  cl_LogLevel :: string
  cl_LogFormat :: string

definition applyCliOverrides :: "CliConfig \<Rightarrow> Config \<Rightarrow> Config" where
  "applyCliOverrides c cfg = cfg\<lparr>
     cf_Peer := (cf_Peer cfg)\<lparr>pc_Role := overStr (cl_Role c) (pc_Role (cf_Peer cfg)),
       pc_Id := overStr (cl_PeerId c) (pc_Id (cf_Peer cfg)),
       pc_Name := overStr (cl_PeerName c) (pc_Name (cf_Peer cfg))\<rparr>,
     cf_Tenant := overStr (cl_Tenant c) (cf_Tenant cfg),
     cf_Server := \<lparr>sv_ListenAddr = overStr (cl_ListenAddr c) (sv_ListenAddr (cf_Server cfg))\<rparr>,
     cf_Mq := (cf_Mq cfg)\<lparr>mq_Mqtt := (mq_Mqtt (cf_Mq cfg))\<lparr>mqc_BrokerUrl :=
       overStr (cl_MqttBroker c) (mqc_BrokerUrl (mq_Mqtt (cf_Mq cfg)))\<rparr>\<rparr>,
     cf_Logging := \<lparr>lg_Level = overStr (cl_LogLevel c) (lg_Level (cf_Logging cfg)),
       lg_Format = overStr (cl_LogFormat c) (lg_Format (cf_Logging cfg))\<rparr>\<rparr>"

definition LoadWithArgs :: "ConfigEnv \<Rightarrow> CliConfig \<Rightarrow> go_error + Config" where
  "LoadWithArgs env cli =
    (let cfg = (case LoadPath env (cl_ConfigPath cli) of Inl err \<Rightarrow> defaultConfig | Inr cfg \<Rightarrow> cfg);
         cfg = applyEnvOverrides (ce_getenv env) cfg
     in if cl_ConfigJson cli \<noteq> []
        then (case MergeJson (ce_json env) cfg (cl_ConfigJson cli) of
            Inl err \<Rightarrow> Inl err
          | Inr cfg \<Rightarrow> Inr (applyCliOverrides cli cfg))
        else Inr (applyCliOverrides cli cfg))"

section \<open>Lemmas\<close>

definition isDigit :: "char \<Rightarrow> bool" where
  "isDigit c \<longleftrightarrow> 48 \<le> (of_char c :: nat) \<and> (of_char c :: nat) \<le> 57"

definition decimal :: "int \<Rightarrow> string \<Rightarrow> int" where
  "decimal n s = foldl (\<lambda>n c. n * 10 + (int (of_char c) - 48)) n s"

lemma decimal_ge: "list_all isDigit s \<Longrightarrow> 0 \<le> n \<Longrightarrow> n \<le> decimal n s"
proof (induction s arbitrary: n)
  case (Cons c s)
  let ?m = "n * 10 + (int (of_char c) - 48)"
  have "(48 :: nat) \<le> of_char c" using Cons.prems(1) by (simp add: isDigit_def)
  then have "48 \<le> int (of_char c)" by linarith
  then have "0 \<le> ?m" "n \<le> ?m" using Cons.prems(2) by linarith+
  moreover have "decimal n (c # s) = decimal ?m s" by (simp add: decimal_def)
  moreover have "?m \<le> decimal ?m s"
    using Cons.IH [of ?m] Cons.prems(1) \<open>0 \<le> ?m\<close> by simp
  ultimately show ?case by linarith
qed (simp add: decimal_def)

text \<open>The parser is exact below the 64-bit range, and wraps above it.\<close>

lemma parseDigits_exact:
  "list_all isDigit s \<Longrightarrow> 0 \<le> n \<Longrightarrow> decimal n s < 2 ^ 63 \<Longrightarrow> parseDigits n s = decimal n s"
proof (induction s arbitrary: n)
  case (Cons c s)
  let ?m = "n * 10 + (int (of_char c) - 48)"
  have dig: "(48 :: nat) \<le> of_char c" "of_char c \<le> (57 :: nat)"
    using Cons.prems(1) by (simp_all add: isDigit_def)
  then have "48 \<le> int (of_char c)" by linarith
  then have m: "0 \<le> ?m" "list_all isDigit s" "\<not> (of_char c < (48 :: nat) \<or> of_char c > (57 :: nat))"
    using Cons.prems(1,2) dig by (simp_all add: not_less)
  have d: "decimal n (c # s) = decimal ?m s" by (simp add: decimal_def)
  then have "?m < 2 ^ 63"
    using decimal_ge [OF m(2,1)] Cons.prems(3) by linarith
  then have "wrap64 ?m = ?m"
    using m(1) by (intro wrap64_id) (simp add: in_i64_def)
  then show ?case
    using Cons.IH [OF m(2,1)] Cons.prems(3) m(3) d by simp
qed (simp add: decimal_def)

lemma parseInt64_wraps: "parseInt64 ''18446744073709551617'' = 1"
  by code_simp

lemma overStr_assoc: "overStr (overStr a b) c = overStr a (overStr b c)"
  by (simp add: overStr_def)

lemma overStr_Nil [simp]: "overStr [] x = x"
  by (simp add: overStr_def)

lemma overInt_zero [simp]: "overInt 0 x = x"
  by (simp add: overInt_def)

lemmas merge_defs = mergeInto_def mergePeer_def mergeMq_def mergeTLS_def mergeDiscovery_def
  mergeBridges_def mergeTarget_def Let_def

text \<open>Merging the zero value changes nothing.\<close>

lemma mergeInto_zero [simp]: "mergeInto cfg zeroConfig = cfg"
  by (simp add: merge_defs zeroConfig_def zeroTLS_def)

section \<open>The name of the environment\<close>

text \<open>\<open>strings.ToLower\<close> on a string with characters beyond ASCII is a parameter; \<open>strings.ReplaceAll\<close> of one
  character by another goes character by character.\<close>

definition ToLower :: "(string \<Rightarrow> string) \<Rightarrow> string \<Rightarrow> string" where
  "ToLower lowerRunes s = (if list_all (\<lambda>c. of_char c < (128 :: nat)) s then map asciiLower s else lowerRunes s)"

definition EnvName :: "(string \<Rightarrow> string) \<Rightarrow> Config \<Rightarrow> string" where
  "EnvName lowerRunes c =
    (let s = cf_Tenant c;
         s = ToLower lowerRunes s;
         s = map (\<lambda>x. if x = CHR '' '' then CHR ''_'' else x) s
     in s)"

text \<open>The name of an ASCII tenant has its length, no space and no capital letter, and is its own name.\<close>

lemma asciiLower_ascii: "of_char c < (128 :: nat) \<Longrightarrow> of_char (asciiLower c) < (128 :: nat)"
  by (auto simp: asciiLower_def Let_def)

lemma asciiLower_idem [simp]: "asciiLower (asciiLower c) = asciiLower c"
  by (auto simp: asciiLower_def Let_def)

lemma asciiLower_neq: "65 \<le> (of_char d :: nat) \<Longrightarrow> of_char d \<le> (90 :: nat) \<Longrightarrow> asciiLower c \<noteq> d"
  by (auto simp: asciiLower_def Let_def)

lemma EnvName_ascii:
  assumes "list_all (\<lambda>c. of_char c < (128 :: nat)) (cf_Tenant cfg)"
  shows "length (EnvName lowerRunes cfg) = length (cf_Tenant cfg) \<and>
    CHR '' '' \<notin> set (EnvName lowerRunes cfg) \<and>
    (\<forall>d \<in> set (EnvName lowerRunes cfg). \<not> (65 \<le> (of_char d :: nat) \<and> of_char d \<le> (90 :: nat))) \<and>
    EnvName lowerRunes (cfg\<lparr>cf_Tenant := EnvName lowerRunes cfg\<rparr>) = EnvName lowerRunes cfg"
proof -
  let ?f = "\<lambda>x. if asciiLower x = CHR '' '' then CHR ''_'' else asciiLower x"
  have name: "EnvName lowerRunes cfg = map ?f (cf_Tenant cfg)"
    using assms by (simp add: EnvName_def ToLower_def Let_def)
  have "list_all (\<lambda>c. of_char c < (128 :: nat)) (map ?f (cf_Tenant cfg))"
    using assms asciiLower_ascii by (auto simp: list_all_iff)
  moreover have "asciiLower (?f x) = ?f x" "?f x \<noteq> CHR '' ''" for x
    by (auto simp: asciiLower_def Let_def)
  ultimately have "EnvName lowerRunes (cfg\<lparr>cf_Tenant := map ?f (cf_Tenant cfg)\<rparr>) = map ?f (cf_Tenant cfg)"
    by (simp add: EnvName_def ToLower_def Let_def)
  then show ?thesis
    using asciiLower_neq by (auto simp: name) 
qed

section \<open>Properties\<close>

text \<open>The first string that is set, and the first number that is positive or else the last resort.\<close>

fun firstSet :: "string list \<Rightarrow> string" where
  "firstSet [] = []"
| "firstSet (v # vs) = (if v \<noteq> [] then v else firstSet vs)"

fun firstPositive :: "int list \<Rightarrow> int \<Rightarrow> int" where
  "firstPositive [] x = x"
| "firstPositive (n # ns) x = (if n > 0 then n else firstPositive ns x)"

text \<open>Where every setting of a process comes from: the command line, the inline JSON \<open>ov\<close>, the environment, and
  \<open>base\<close>, which is the file over the defaults.\<close>

definition settled :: "(string \<Rightarrow> string) \<Rightarrow> CliConfig \<Rightarrow> Config \<Rightarrow> Config \<Rightarrow> Config" where
  "settled getenv cli ov base = \<lparr>
     cf_Server = \<lparr>sv_ListenAddr = firstSet [cl_ListenAddr cli, sv_ListenAddr (cf_Server ov), getenv ''DD_SERVER_LISTEN_ADDR'', sv_ListenAddr (cf_Server base)]\<rparr>,
     cf_Peer = \<lparr>pc_Id = firstSet [cl_PeerId cli, pc_Id (cf_Peer ov), getenv ''DD_PEER_ID'', pc_Id (cf_Peer base)],
       pc_Name = firstSet [cl_PeerName cli, pc_Name (cf_Peer ov), getenv ''DD_PEER_NAME'', pc_Name (cf_Peer base)],
       pc_Role = firstSet [cl_Role cli, pc_Role (cf_Peer ov), getenv ''DD_PEER_ROLE'', pc_Role (cf_Peer base)],
       pc_Key = firstSet [pc_Key (cf_Peer ov), pc_Key (cf_Peer base)],
       pc_Secret = firstSet [pc_Secret (cf_Peer ov), pc_Secret (cf_Peer base)],
       pc_Broadcast = \<lparr>bc_IntervalSec = firstPositive [bc_IntervalSec (pc_Broadcast (cf_Peer ov))] (bc_IntervalSec (pc_Broadcast (cf_Peer base))),
         bc_TtlSec = firstPositive [bc_TtlSec (pc_Broadcast (cf_Peer ov))] (bc_TtlSec (pc_Broadcast (cf_Peer base)))\<rparr>,
       pc_Auth = pc_Auth (cf_Peer base)\<rparr>,
     cf_Mq = \<lparr>mq_Provider = firstSet [mq_Provider (cf_Mq ov), getenv ''DD_MQ_PROVIDER'', mq_Provider (cf_Mq base)],
       mq_Mqtt = \<lparr>mqc_BrokerUrl = firstSet [cl_MqttBroker cli, mqc_BrokerUrl (mq_Mqtt (cf_Mq ov)), getenv ''DD_MQTT_BROKER_URL'', mqc_BrokerUrl (mq_Mqtt (cf_Mq base))],
         mqc_ClientId = firstSet [mqc_ClientId (mq_Mqtt (cf_Mq ov)), getenv ''DD_MQTT_CLIENT_ID'', mqc_ClientId (mq_Mqtt (cf_Mq base))],
         mqc_Username = firstSet [mqc_Username (mq_Mqtt (cf_Mq ov)), getenv ''DD_MQTT_USERNAME'', mqc_Username (mq_Mqtt (cf_Mq base))],
         mqc_Password = firstSet [mqc_Password (mq_Mqtt (cf_Mq ov)), getenv ''DD_MQTT_PASSWORD'', mqc_Password (mq_Mqtt (cf_Mq base))],
         mqc_TLS = \<lparr>tls_Enabled = (tls_Enabled (mqc_TLS (mq_Mqtt (cf_Mq base))) \<or> envTrue (getenv ''DD_MQTT_TLS_ENABLED'') \<or> tls_Enabled (mqc_TLS (mq_Mqtt (cf_Mq ov)))),
           tls_CaCertFile = firstSet [tls_CaCertFile (mqc_TLS (mq_Mqtt (cf_Mq ov))), getenv ''DD_MQTT_TLS_CA_CERT_FILE'', tls_CaCertFile (mqc_TLS (mq_Mqtt (cf_Mq base)))],
           tls_ClientCertFile = firstSet [tls_ClientCertFile (mqc_TLS (mq_Mqtt (cf_Mq ov))), getenv ''DD_MQTT_TLS_CLIENT_CERT_FILE'', tls_ClientCertFile (mqc_TLS (mq_Mqtt (cf_Mq base)))],
           tls_ClientKeyFile = firstSet [tls_ClientKeyFile (mqc_TLS (mq_Mqtt (cf_Mq ov))), getenv ''DD_MQTT_TLS_CLIENT_KEY_FILE'', tls_ClientKeyFile (mqc_TLS (mq_Mqtt (cf_Mq base)))],
           tls_InsecureSkipVerify = (tls_InsecureSkipVerify (mqc_TLS (mq_Mqtt (cf_Mq base))) \<or> envTrue (getenv ''DD_MQTT_TLS_INSECURE_SKIP_VERIFY'') \<or> tls_InsecureSkipVerify (mqc_TLS (mq_Mqtt (cf_Mq ov))))\<rparr>,
         mqc_TopicAliasEnabled = (mqc_TopicAliasEnabled (mq_Mqtt (cf_Mq base)) \<or> envTrue (getenv ''DD_MQTT_TOPIC_ALIAS_ENABLED'') \<or> mqc_TopicAliasEnabled (mq_Mqtt (cf_Mq ov)))\<rparr>\<rparr>,
     cf_Tenant = firstSet [cl_Tenant cli, cf_Tenant ov, getenv ''DD_TENANT'', cf_Tenant base],
     cf_Sync = \<lparr>sy_DefaultTimeoutMs = firstPositive [sy_DefaultTimeoutMs (cf_Sync ov), parseInt64 (getenv ''DD_SYNC_DEFAULT_TIMEOUT_MS'')] (sy_DefaultTimeoutMs (cf_Sync base))\<rparr>,
     cf_Discovery = \<lparr>di_HeartbeatIntervalSec = firstPositive [di_HeartbeatIntervalSec (cf_Discovery ov)] (di_HeartbeatIntervalSec (cf_Discovery base)),
       di_LeaseTtlSec = firstPositive [di_LeaseTtlSec (cf_Discovery ov), parseInt64 (getenv ''DD_DISCOVERY_LEASE_TTL_SEC'')] (di_LeaseTtlSec (cf_Discovery base)),
       di_DefaultPageSize = firstPositive [di_DefaultPageSize (cf_Discovery ov)] (di_DefaultPageSize (cf_Discovery base)),
       di_MaxPageSize = firstPositive [di_MaxPageSize (cf_Discovery ov)] (di_MaxPageSize (cf_Discovery base))\<rparr>,
     cf_Bridges = \<lparr>
       bg_Http = \<lparr>bt_Enabled = (bt_Enabled (bg_Http (cf_Bridges base)) \<or> bt_Enabled (bg_Http (cf_Bridges ov))), bt_TargetUrl = firstSet [bt_TargetUrl (bg_Http (cf_Bridges ov)), bt_TargetUrl (bg_Http (cf_Bridges base))]\<rparr>,
       bg_Coap = \<lparr>bt_Enabled = (bt_Enabled (bg_Coap (cf_Bridges base)) \<or> bt_Enabled (bg_Coap (cf_Bridges ov))), bt_TargetUrl = firstSet [bt_TargetUrl (bg_Coap (cf_Bridges ov)), bt_TargetUrl (bg_Coap (cf_Bridges base))]\<rparr>,
       bg_MqttMappings = (if bg_MqttMappings (cf_Bridges ov) \<noteq> [] then bg_MqttMappings (cf_Bridges ov) else bg_MqttMappings (cf_Bridges base))\<rparr>,
     cf_AclRules = (if cf_AclRules ov \<noteq> [] then cf_AclRules ov else cf_AclRules base),
     cf_Logging = \<lparr>lg_Level = firstSet [cl_LogLevel cli, lg_Level (cf_Logging ov), getenv ''DD_LOG_LEVEL'', lg_Level (cf_Logging base)],
       lg_Format = firstSet [cl_LogFormat cli, lg_Format (cf_Logging ov), getenv ''DD_LOG_FORMAT'', lg_Format (cf_Logging base)]\<rparr>\<rparr>"

lemma override_chains:
  "firstSet [v] = v" "firstSet (v # w # ws) = overStr v (firstSet (w # ws))"
  "firstPositive [] x = x" "firstPositive (n # ns) x = overInt n (firstPositive ns x)"
  "envInt v x = overInt (parseInt64 v) x"
  by (auto simp: overStr_def overInt_def envInt_def parseInt64_def)

declare firstSet.simps [simp del] firstPositive.simps [simp del]

lemma settled_chain:
  "applyCliOverrides cli (mergeInto (applyEnvOverrides getenv base) ov) = settled getenv cli ov base"
proof (rule Config.Config.equality)
  let ?c = "applyCliOverrides cli (mergeInto (applyEnvOverrides getenv base) ov)" and ?s = "settled getenv cli ov base"
  note defs = settled_def applyCliOverrides_def merge_defs applyEnvOverrides_def envMqtt_def override_chains
  show "cf_Server ?c = cf_Server ?s" "cf_Tenant ?c = cf_Tenant ?s" "cf_Sync ?c = cf_Sync ?s" "cf_Discovery ?c = cf_Discovery ?s"
    "cf_Bridges ?c = cf_Bridges ?s" "cf_AclRules ?c = cf_AclRules ?s" "cf_Logging ?c = cf_Logging ?s" "Config.Config.more ?c = Config.Config.more ?s"
    by (simp_all add: defs)
  show "cf_Peer ?c = cf_Peer ?s"
    by (rule PeerConfig.equality) (simp_all add: defs)
  show "cf_Mq ?c = cf_Mq ?s"
    by (auto simp: defs)
qed

text \<open>
  C31: where each setting of the process comes from. \<open>LoadWithArgs\<close> fails only on inline JSON that does not
  parse; a file that cannot be read or parsed is replaced by the defaults. Otherwise every string is
  the first one set among the command line (where it has a flag for it), the inline JSON, the environment
  (where it has a variable for it), the file and the default; every number the first positive one; every switch is
  on when any of the places turns it on, and none can turn it off; rules and mappings are those of the
  inline JSON when it has any. The authentication settings of the peer come from the file alone: the inline
  JSON cannot set them.
\<close>

theorem config_precedence:
  "LoadWithArgs env cli =
    (let base = (case LoadPath env (cl_ConfigPath cli) of Inl err \<Rightarrow> defaultConfig | Inr c \<Rightarrow> c) in
     case (if cl_ConfigJson cli = [] then Inr zeroConfig else ce_json env (cl_ConfigJson cli) zeroConfig) of
       Inl err \<Rightarrow> Inl err
     | Inr ov \<Rightarrow> Inr (settled (ce_getenv env) cli ov base))"
  using settled_chain [of cli "ce_getenv env" _ zeroConfig] settled_chain [of cli "ce_getenv env"]
  by (auto simp: LoadWithArgs_def MergeJson_def Let_def split: sum.split)

definition demoCli :: CliConfig where
  "demoCli = \<lparr>cl_ConfigPath = ''config.yaml'', cl_ConfigJson = ''{}'', cl_Role = [], cl_PeerId = [],
     cl_PeerName = [], cl_Tenant = ''cli'', cl_ListenAddr = [], cl_MqttBroker = [], cl_LogLevel = [], cl_LogFormat = []\<rparr>"

definition demoCfgEnv :: ConfigEnv where
  "demoCfgEnv = \<lparr>ce_readFile = \<lambda>p. Inl (PlainErr ''not found''),
     ce_json = \<lambda>s c. Inr (zeroConfig\<lparr>cf_Tenant := ''json''\<rparr>), ce_yaml = \<lambda>s c. Inr c,
     ce_getenv = \<lambda>v. if v = ''DD_PEER_ID'' then ''env-peer'' else []\<rparr>"

end
