(* ===== verification/Cli.thy ===== *)
theory Cli
  imports Config
begin

text \<open>
  The command line (\<open>config/cli.go\<close>): the flags of dd-core and what \<open>flag.FlagSet.Parse\<close> does
  with an argument list under \<open>ContinueOnError\<close>. The source prints a parse error and goes on
  with what was set until then; the error is the first component of the result.
\<close>

section \<open>Flags\<close>

definition emptyCli :: CliConfig where
  "emptyCli = \<lparr>cl_ConfigPath = ''config.yaml'', cl_ConfigJson = [], cl_Role = [], cl_PeerId = [],
     cl_PeerName = [], cl_Tenant = [], cl_ListenAddr = [], cl_MqttBroker = [], cl_LogLevel = [],
     cl_LogFormat = []\<rparr>"

text \<open>The variable a \<open>StringVar\<close> flag sets, \<open>None\<close> for a name that is not defined.\<close>

definition setFlag :: "string \<Rightarrow> string \<Rightarrow> CliConfig \<Rightarrow> CliConfig option" where
  "setFlag name v c =
    (if name = ''config'' then Some (c\<lparr>cl_ConfigPath := v\<rparr>)
     else if name = ''config-json'' then Some (c\<lparr>cl_ConfigJson := v\<rparr>)
     else if name = ''role'' then Some (c\<lparr>cl_Role := v\<rparr>)
     else if name = ''peer-id'' then Some (c\<lparr>cl_PeerId := v\<rparr>)
     else if name = ''peer-name'' then Some (c\<lparr>cl_PeerName := v\<rparr>)
     else if name = ''tenant'' then Some (c\<lparr>cl_Tenant := v\<rparr>)
     else if name = ''listen-addr'' then Some (c\<lparr>cl_ListenAddr := v\<rparr>)
     else if name = ''mqtt-broker'' then Some (c\<lparr>cl_MqttBroker := v\<rparr>)
     else if name = ''log-level'' then Some (c\<lparr>cl_LogLevel := v\<rparr>)
     else if name = ''log-format'' then Some (c\<lparr>cl_LogFormat := v\<rparr>)
     else None)"

text \<open>The part of an argument behind its one or two minus signs, cut at the first equals sign
  that is not its first character.\<close>

fun cutEquals :: "string \<Rightarrow> string \<times> string option" where
  "cutEquals [] = ([], None)"
| "cutEquals (x # xs) = (case takeWhile (\<lambda>y. y \<noteq> CHR ''='') xs of
     name \<Rightarrow> (x # name, if length name < length xs then Some (drop (Suc (length name)) xs) else None))"

section \<open>Parsing\<close>

text \<open>One step of \<open>parseOne\<close>: no more flags, an error, or a flag that was set.\<close>

datatype parsed = NoFlag | BadFlag string | FlagSet CliConfig "string list"

definition parseOne :: "string list \<Rightarrow> CliConfig \<Rightarrow> parsed" where
  "parseOne args c =
    (case args of
       [] \<Rightarrow> NoFlag
     | s # rest \<Rightarrow>
        if length s < 2 \<or> s ! 0 \<noteq> CHR ''-'' then NoFlag
        else if s = ''--'' then NoFlag
        else let name = (if s ! 1 = CHR ''-'' then drop 2 s else drop 1 s) in
          if name = [] \<or> hd name = CHR ''-'' \<or> hd name = CHR ''=''
          then BadFlag (''bad flag syntax: '' @ s)
          else (case cutEquals name of (name, val) \<Rightarrow>
            if setFlag name [] c = None
            then (if name = ''help'' \<or> name = ''h'' then BadFlag ''flag: help requested''
                  else BadFlag (''flag provided but not defined: -'' @ name))
            else (case (val, rest) of
                (Some v, _) \<Rightarrow> FlagSet (the (setFlag name v c)) rest
              | (None, v # rest) \<Rightarrow> FlagSet (the (setFlag name v c)) rest
              | (None, []) \<Rightarrow> BadFlag (''flag needs an argument: -'' @ name))))"

lemma parseOne_shorter: "parseOne args c = FlagSet c' rest \<Longrightarrow> length rest < length args"
  by (auto simp: parseOne_def Let_def split: list.splits if_splits prod.splits option.splits)

function parseFlags :: "string list \<Rightarrow> CliConfig \<Rightarrow> string option \<times> CliConfig" where
  "parseFlags args c =
    (case parseOne args c of
       NoFlag \<Rightarrow> (None, c)
     | BadFlag err \<Rightarrow> (Some err, c)
     | FlagSet c rest \<Rightarrow> parseFlags rest c)"
  by pat_completeness auto

termination
  by (relation "measure (\<lambda>(args, c). length args)") (auto dest: parseOne_shorter)

declare parseFlags.simps [simp del]

definition ParseCliArgs :: "string list \<Rightarrow> string option \<times> CliConfig" where
  "ParseCliArgs args = parseFlags args emptyCli"

section \<open>Lemmas\<close>

text \<open>The two ways to write a flag with its value.\<close>

definition flagArgs :: "bool \<Rightarrow> string \<Rightarrow> string \<Rightarrow> string list" where
  "flagArgs joined name v = (if joined then [''--'' @ name @ ''='' @ v] else [''-'' @ name, v])"

definition flagTable :: "(string \<times> (CliConfig \<Rightarrow> string)) list" where
  "flagTable = [(''config'', cl_ConfigPath), (''config-json'', cl_ConfigJson), (''role'', cl_Role),
     (''peer-id'', cl_PeerId), (''peer-name'', cl_PeerName), (''tenant'', cl_Tenant),
     (''listen-addr'', cl_ListenAddr), (''mqtt-broker'', cl_MqttBroker), (''log-level'', cl_LogLevel),
     (''log-format'', cl_LogFormat)]"

lemma takeWhile_until:
  "c \<notin> set xs \<Longrightarrow> takeWhile (\<lambda>y. y \<noteq> c) xs = xs"
  "c \<notin> set xs \<Longrightarrow> takeWhile (\<lambda>y. y \<noteq> c) (xs @ c # ys) = xs"
  by (induction xs) auto

lemma cutEquals_name:
  assumes "name \<noteq> []" "CHR ''='' \<notin> set name"
  shows "cutEquals name = (name, None)" "cutEquals (name @ CHR ''='' # v) = (name, Some v)"
  using assms by (cases name; simp add: takeWhile_until)+

lemma setFlag_defined: "setFlag name v c = None \<longleftrightarrow> name \<notin> set (map fst flagTable)"
  unfolding setFlag_def flagTable_def by simp

definition flagName :: "string \<Rightarrow> bool" where
  "flagName name \<longleftrightarrow> name \<noteq> [] \<and> hd name \<noteq> CHR ''-'' \<and> CHR ''='' \<notin> set name"

lemma parseOne_flag:
  assumes "flagName name" "setFlag name v c = Some c'" "setFlag name [] c \<noteq> None"
  shows "parseOne (flagArgs joined name v @ tail) c = FlagSet c' tail"
proof -
  obtain x xs where name: "name = x # xs" using assms(1) by (auto simp: flagName_def neq_Nil_conv)
  with assms(1) have "x \<noteq> CHR ''-''" "x \<noteq> CHR ''=''" "CHR ''='' \<notin> set (x # xs)"
    by (auto simp: flagName_def)
  moreover from this have "cutEquals (x # xs) = (x # xs, None)" "cutEquals (x # xs @ CHR ''='' # v) = (x # xs, Some v)"
    using cutEquals_name(1) [of "x # xs"] cutEquals_name(2) [of "x # xs" v] by simp_all
  ultimately show ?thesis
    using assms(2,3) by (simp add: parseOne_def flagArgs_def name Let_def del: cutEquals.simps)
qed

lemma parseOne_unknown:
  assumes "flagName name" "setFlag name [] c = None" "name \<noteq> ''help''" "name \<noteq> ''h''"
  shows "parseOne ((''-'' @ name) # tail) c = BadFlag (''flag provided but not defined: -'' @ name)"
proof -
  obtain x xs where name: "name = x # xs" using assms(1) by (auto simp: flagName_def neq_Nil_conv)
  with assms(1) have "x \<noteq> CHR ''-''" "x \<noteq> CHR ''=''" "CHR ''='' \<notin> set (x # xs)"
    by (auto simp: flagName_def)
  moreover from this have "cutEquals (x # xs) = (x # xs, None)"
    by (intro cutEquals_name) simp_all
  ultimately show ?thesis
    using assms(2-4) by (simp add: parseOne_def name Let_def del: cutEquals.simps)
qed

lemma parseFlags_flag:
  "flagName name \<Longrightarrow> setFlag name v c = Some c' \<Longrightarrow>
     parseFlags (flagArgs joined name v @ tail) c = parseFlags tail c'"
  using setFlag_defined [of name v c] setFlag_defined [of name "[]" c]
  by (simp add: parseFlags.simps [of "flagArgs joined name v @ tail"] parseOne_flag)

text \<open>The flags of a configuration, each written in either way.\<close>

definition flagsOf :: "(string \<Rightarrow> bool) \<Rightarrow> CliConfig \<Rightarrow> string list" where
  "flagsOf joined c = concat (map (\<lambda>(name, field). flagArgs (joined name) name (field c)) flagTable)"

lemma parseFlags_flagsOf: "parseFlags (flagsOf joined c @ tail) emptyCli = parseFlags tail c"
  by (cases c) (simp add: flagsOf_def flagTable_def parseFlags_flag flagName_def setFlag_def emptyCli_def)

lemma ParseCliArgs_flagsOf: "ParseCliArgs (flagsOf joined c) = (None, c)"
  using parseFlags_flagsOf [of joined c "[]"]
  by (simp add: ParseCliArgs_def parseFlags.simps [of "[]"] parseOne_def)

section \<open>Properties\<close>

text \<open>
  C32: writing a configuration as flags and parsing them gives it back, with every flag as one
  argument or as two and whatever the values are, a leading minus or an equals sign
  included. A flag that is not defined ends the parsing with an error: what stands before
  it counts, what follows is ignored, and the source goes on with that.
\<close>

theorem cli_roundtrip:
  "ParseCliArgs (flagsOf joined c) = (None, c) \<and>
   (flagName name \<and> name \<notin> set (map fst flagTable) \<and> name \<noteq> ''help'' \<and> name \<noteq> ''h'' \<longrightarrow>
     ParseCliArgs (flagsOf joined c @ (''-'' @ name) # tail) =
       (Some (''flag provided but not defined: -'' @ name), c))"
proof (intro conjI impI)
  show "ParseCliArgs (flagsOf joined c) = (None, c)"
    by (rule ParseCliArgs_flagsOf)
  assume name: "flagName name \<and> name \<notin> set (map fst flagTable) \<and> name \<noteq> ''help'' \<and> name \<noteq> ''h''"
  then have "parseOne ((''-'' @ name) # tail) c = BadFlag (''flag provided but not defined: -'' @ name)"
    by (intro parseOne_unknown) (simp_all add: setFlag_defined)
  then show "ParseCliArgs (flagsOf joined c @ (''-'' @ name) # tail) =
      (Some (''flag provided but not defined: -'' @ name), c)"
    by (simp only: ParseCliArgs_def parseFlags_flagsOf parseFlags.simps [of "(''-'' @ name) # tail"] parsed.case)
qed

theorem cli_roundtrip_witness:
  "ParseCliArgs (flagsOf (\<lambda>f. f = ''role'') (demoCli\<lparr>cl_Role := ''-a=b''\<rparr>) @ (''-'' @ ''verbose'') # [''--tenant=x'']) =
     (Some (''flag provided but not defined: -'' @ ''verbose''), demoCli\<lparr>cl_Role := ''-a=b''\<rparr>)"
proof -
  have "flagName ''verbose'' \<and> ''verbose'' \<notin> set (map fst flagTable) \<and> ''verbose'' \<noteq> ''help'' \<and> ''verbose'' \<noteq> ''h''"
    by (simp add: flagName_def flagTable_def)
  with cli_roundtrip show ?thesis by blast
qed

end
