(* ===== verification/Topics.thy ===== *)
theory Topics
  imports Dd_Model
begin

text \<open>
  MQTT topics: the names the services publish on (\<open>service/topics.go\<close>), the two
  implementations of wildcard matching (\<open>matchMQTTTopic\<close> of the ACL service,
  \<open>matchMQTTTopicWildcard\<close> of the in-memory client), and what the MQTT client does
  to a topic before it goes to the broker (\<open>mq/mqtt_client.go\<close>: the quality of
  service and the topic alias).

  The locale \<open>topic_matcher\<close> is the contract of a wildcard matcher; both
  implementations are interpretations of it.
\<close>

section \<open>Topic names\<close>

record TopicSet =
  ts_PeerRegister :: string
  ts_PeerHeartbeat :: string
  ts_PeerQuery :: string
  ts_PeerResourceReport :: string
  ts_PeerUnregister :: string
  ts_HubBroadcast :: string
  ts_AuthBroadcast :: string
  ts_PeerResourceRegister :: string
  ts_PeerAuthVerify :: string
  ts_PeerListQuery :: string
  ts_tenant :: string

definition NewDefaultTopicSet :: "string \<Rightarrow> TopicSet" where
  "NewDefaultTopicSet tenant =
    (let base = ''dd/'' @ tenant in
     \<lparr>ts_PeerRegister = base @ ''/peer/register'',
      ts_PeerHeartbeat = base @ ''/peer/heartbeat'',
      ts_PeerQuery = base @ ''/peer/query'',
      ts_PeerResourceReport = base @ ''/peer/resource/report'',
      ts_PeerUnregister = base @ ''/peer/unregister'',
      ts_HubBroadcast = base @ ''/peer/hub/broadcast'',
      ts_AuthBroadcast = base @ ''/peer/auth/broadcast'',
      ts_PeerResourceRegister = base @ ''/peer/resource/register'',
      ts_PeerAuthVerify = base @ ''/peer/auth/verify'',
      ts_PeerListQuery = base @ ''/peer/list/query'',
      ts_tenant = tenant\<rparr>)"

definition TransferRequest :: "TopicSet \<Rightarrow> string \<Rightarrow> string" where
  "TransferRequest t resource = ''dd/'' @ ts_tenant t @ ''/transfer/'' @ resource @ ''/request''"

definition TransferResponse :: "TopicSet \<Rightarrow> string \<Rightarrow> string" where
  "TransferResponse t resource = ''dd/'' @ ts_tenant t @ ''/transfer/'' @ resource @ ''/response''"

definition TransferResponseByRequest :: "TopicSet \<Rightarrow> string \<Rightarrow> string" where
  "TransferResponseByRequest t requestID =
     ''dd/'' @ ts_tenant t @ ''/transfer/response/'' @ requestID"

definition TransferResponseStream :: "TopicSet \<Rightarrow> string" where
  "TransferResponseStream t = ''dd/'' @ ts_tenant t @ ''/transfer/+/response''"

definition TransferResponseByRequestStream :: "TopicSet \<Rightarrow> string" where
  "TransferResponseByRequestStream t = ''dd/'' @ ts_tenant t @ ''/transfer/response/+''"

definition EventPublish :: "TopicSet \<Rightarrow> string \<Rightarrow> string" where
  "EventPublish t resource = ''dd/'' @ ts_tenant t @ ''/event/'' @ resource @ ''/publish''"

definition StreamOpen :: "TopicSet \<Rightarrow> string \<Rightarrow> string" where
  "StreamOpen t resource = ''dd/'' @ ts_tenant t @ ''/stream/'' @ resource @ ''/open''"

definition StreamClose :: "TopicSet \<Rightarrow> string \<Rightarrow> string" where
  "StreamClose t resource = ''dd/'' @ ts_tenant t @ ''/stream/'' @ resource @ ''/close''"

definition DlqBridge :: "TopicSet \<Rightarrow> string" where
  "DlqBridge t = ''dd/'' @ ts_tenant t @ ''/dlq/bridge''"

section \<open>Wildcard matching\<close>

text \<open>The loops walk the levels of the pattern and of the topic in step; here the two
  lists hold the levels from the current index on.\<close>

fun matchLoop :: "string list \<Rightarrow> string list \<Rightarrow> bool" where
  "matchLoop [] tp = (tp = [])"
| "matchLoop (p # pp) tp =
     (if p = ''#'' then True
      else (case tp of [] \<Rightarrow> False
            | t # tp' \<Rightarrow> if p = ''+'' then matchLoop pp tp'
                        else if p \<noteq> t then False else matchLoop pp tp'))"

definition matchMQTTTopic :: "string \<Rightarrow> string \<Rightarrow> bool" where
  "matchMQTTTopic pattern topic =
     matchLoop (split_on CHR ''/'' pattern) (split_on CHR ''/'' topic)"

fun matchLevels :: "string list \<Rightarrow> string list \<Rightarrow> bool" where
  "matchLevels [] tp = (tp = [])"
| "matchLevels (p # pp) tp =
     (if p = ''#'' then True
      else (case tp of [] \<Rightarrow> False
            | t # tp' \<Rightarrow> if p = ''+'' \<or> p = ''*'' then matchLevels pp tp'
                        else if p \<noteq> t then False else matchLevels pp tp'))"

definition matchMQTTTopicWildcard :: "string \<Rightarrow> string \<Rightarrow> bool" where
  "matchMQTTTopicWildcard pattern topic =
     (if pattern = topic then True
      else matchLevels (split_on CHR ''/'' pattern) (split_on CHR ''/'' topic))"

section \<open>What the MQTT client does to a topic\<close>

definition containsAny :: "string \<Rightarrow> string list \<Rightarrow> bool" where
  "containsAny s parts = list_ex (\<lambda>p. p \<noteq> [] \<and> sublist p s) parts"

definition qosForTopic :: "string \<Rightarrow> nat" where
  "qosForTopic topic =
     (if containsAny topic [''/event/'', ''/peer/heartbeat'', ''/peer/resource/report'',
           ''/peer/hub/broadcast'', ''/peer/auth/broadcast'']
      then 0 else 1)"

text \<open>\<open>hash/fnv\<close>'s 64-bit FNV-1a with its big-endian \<open>Sum\<close>, and \<open>encoding/hex\<close>.\<close>

definition fnv64a :: "string \<Rightarrow> 64 word" where
  "fnv64a s = foldl (\<lambda>h c. (h XOR of_char c) * 1099511628211) 14695981039346656037 s"

definition sum_bytes :: "64 word \<Rightarrow> bytes" where
  "sum_bytes h = map (\<lambda>i. ucast (drop_bit (8 * i) h)) [7, 6, 5, 4, 3, 2, 1, 0]"

definition hex_digit :: "byte \<Rightarrow> char" where
  "hex_digit b = ''0123456789abcdef'' ! (unat b mod 16)"

definition hex_encode :: "bytes \<Rightarrow> string" where
  "hex_encode bs = concat (map (\<lambda>b. [hex_digit (drop_bit 4 b), hex_digit (b AND 15)]) bs)"

definition aliasTopic :: "bool \<Rightarrow> string \<Rightarrow> string" where
  "aliasTopic topicAliasEnabled topic =
    (if \<not> topicAliasEnabled \<or> topic = [] then topic
     else if sublist ''#'' topic \<or> sublist ''+'' topic \<or> \<not> prefix ''dd/'' topic then topic
     else if \<not> sublist ''/transfer/'' topic then topic
     else let parts = split_on CHR ''/'' topic in
       if length parts < 3 then topic
       else ''dd/'' @ parts ! 1 @ ''/ta/'' @ hex_encode (sum_bytes (fnv64a topic)))"

section \<open>The contract of a matcher\<close>

text \<open>A topic without wildcards, in either matcher's sense.\<close>

definition plain_level :: "string \<Rightarrow> bool" where
  "plain_level l \<longleftrightarrow> l \<notin> {''#'', ''+'', ''*''}"

definition plain_topic :: "string \<Rightarrow> bool" where
  "plain_topic t \<longleftrightarrow> list_all plain_level (split_on CHR ''/'' t)"

lemma plain_topic_sep [simp]:
  "plain_topic (a @ CHR ''/'' # b) \<longleftrightarrow> plain_topic a \<and> plain_topic b"
  by (simp add: plain_topic_def split_on_append_gen)

lemma plain_topic_level:
  "CHR ''/'' \<notin> set l \<Longrightarrow> plain_topic l \<longleftrightarrow> l \<notin> {''#'', ''+'', ''*''}"
  by (simp add: plain_topic_def plain_level_def split_on_no_sep)

locale topic_matcher =
  fixes matches :: "string \<Rightarrow> string \<Rightarrow> bool"
  assumes match_plain: "plain_topic p \<Longrightarrow> matches p t \<longleftrightarrow> t = p"
    and match_plus: "plain_topic p \<Longrightarrow> plain_topic s \<Longrightarrow>
      matches (p @ ''/+/'' @ s) t \<longleftrightarrow>
        (\<exists>x. CHR ''/'' \<notin> set x \<and> t = p @ CHR ''/'' # x @ CHR ''/'' # s)"
    and match_plus_end: "plain_topic p \<Longrightarrow>
      matches (p @ ''/+'') t \<longleftrightarrow> (\<exists>x. CHR ''/'' \<notin> set x \<and> t = p @ CHR ''/'' # x)"
    and match_hash: "plain_topic p \<Longrightarrow>
      matches (p @ ''/#'') t \<longleftrightarrow> t = p \<or> (\<exists>x. t = p @ CHR ''/'' # x)"
begin

lemma response_by_request_iff:
  assumes "plain_topic (ts_tenant ts)"
  shows "matches (TransferResponseByRequestStream ts) t \<longleftrightarrow>
    (\<exists>rid. CHR ''/'' \<notin> set rid \<and> t = TransferResponseByRequest ts rid)"
proof -
  have "plain_topic (''dd/'' @ ts_tenant ts @ ''/transfer/response'')"
    using assms by (simp add: plain_topic_def plain_level_def split_on_append_gen)
  from match_plus_end [OF this] show ?thesis
    by (simp add: TransferResponseByRequestStream_def TransferResponseByRequest_def)
qed

lemma response_stream_iff:
  assumes "plain_topic (ts_tenant ts)"
  shows "matches (TransferResponseStream ts) t \<longleftrightarrow>
    (\<exists>r. CHR ''/'' \<notin> set r \<and> t = TransferResponse ts r)"
proof -
  have "plain_topic (''dd/'' @ ts_tenant ts @ ''/transfer'')" "plain_topic ''response''"
    using assms by (simp_all add: plain_topic_def plain_level_def split_on_append_gen)
  from match_plus [OF this] show ?thesis
    by (simp add: TransferResponseStream_def TransferResponse_def)
qed

end

text \<open>Both loops have one shape: they differ in what counts as a one-level wildcard.\<close>

locale level_loop =
  fixes loop :: "string list \<Rightarrow> string list \<Rightarrow> bool"
    and single :: "string \<Rightarrow> bool"
  assumes loop_Nil: "loop [] tp \<longleftrightarrow> tp = []"
    and loop_Cons: "loop (p # pp) tp \<longleftrightarrow>
      (if p = ''#'' then True
       else (case tp of [] \<Rightarrow> False
             | t # tp' \<Rightarrow> if single p then loop pp tp' else if p \<noteq> t then False else loop pp tp'))"
    and single_plus: "single ''+''"
    and single_wild: "single p \<Longrightarrow> p = ''+'' \<or> p = ''*''"
begin

lemma loop_refl: "loop ls ls"
  by (induction ls) (simp_all add: loop_Nil loop_Cons)

lemma not_single: "plain_level l \<Longrightarrow> \<not> single l"
  using single_wild by (auto simp: plain_level_def)

lemma loop_plain_prefix:
  "list_all plain_level ps \<Longrightarrow> loop (ps @ pp) tp \<longleftrightarrow> (\<exists>tp'. tp = ps @ tp' \<and> loop pp tp')"
proof (induction ps arbitrary: tp)
  case (Cons p ps)
  then have "p \<noteq> ''#''" "\<not> single p"
    using not_single by (auto simp: plain_level_def)
  with Cons show ?case by (auto simp: loop_Cons split: list.split)
qed simp

lemma loop_plain: "list_all plain_level ps \<Longrightarrow> loop ps tp \<longleftrightarrow> tp = ps"
  using loop_plain_prefix [of ps "[]" tp] by (simp add: loop_Nil)

lemma loop_plus: "loop (''+'' # pp) tp \<longleftrightarrow> (\<exists>x tp'. tp = x # tp' \<and> loop pp tp')"
  by (auto simp: loop_Cons single_plus split: list.split)

lemma loop_hash: "loop [''#''] tp"
  by (simp add: loop_Cons)

lemma split_plus: "split_on CHR ''/'' (p @ ''/+/'' @ s) = split_on CHR ''/'' p @ ''+'' # split_on CHR ''/'' s"
  using split_on_append_gen [of "CHR ''/''" p "''+/'' @ s"] split_on_append [of "CHR ''/''" "''+''" s]
  by simp

lemma split_wild_end:
  "w \<noteq> CHR ''/'' \<Longrightarrow> split_on CHR ''/'' (p @ [CHR ''/'', w]) = split_on CHR ''/'' p @ [[w]]"
  using split_on_append_gen [of "CHR ''/''" p "[w]"] by (simp add: split_on_no_sep)

lemma level_then:
  "split_on CHR ''/'' t = split_on CHR ''/'' p @ x # split_on CHR ''/'' s \<longleftrightarrow>
     CHR ''/'' \<notin> set x \<and> t = p @ CHR ''/'' # x @ CHR ''/'' # s"
proof
  assume t: "split_on CHR ''/'' t = split_on CHR ''/'' p @ x # split_on CHR ''/'' s"
  then have "CHR ''/'' \<notin> set x" by (intro split_on_words [of x _ t]) simp
  with t show "CHR ''/'' \<notin> set x \<and> t = p @ CHR ''/'' # x @ CHR ''/'' # s"
    by (metis split_on_append split_on_append_gen split_on_inject)
qed (simp add: split_on_append_gen split_on_no_sep)

lemma level_end:
  "split_on CHR ''/'' t = split_on CHR ''/'' p @ [x] \<longleftrightarrow>
     CHR ''/'' \<notin> set x \<and> t = p @ CHR ''/'' # x"
  by (subst split_on_eq_append_iff) (auto simp: split_on_single_iff)

lemma levels_after:
  "(\<exists>ls. split_on CHR ''/'' t = split_on CHR ''/'' p @ ls) \<longleftrightarrow>
     t = p \<or> (\<exists>x. t = p @ CHR ''/'' # x)"
proof
  assume "\<exists>ls. split_on CHR ''/'' t = split_on CHR ''/'' p @ ls"
  then obtain ls where "split_on CHR ''/'' t = split_on CHR ''/'' p @ ls" ..
  then show "t = p \<or> (\<exists>x. t = p @ CHR ''/'' # x)"
    by (cases "ls = []") (auto simp: split_on_eq_append_iff split_on_inject)
qed (auto simp: split_on_append_gen)

end

sublocale level_loop \<subseteq> topic_matcher "\<lambda>p t. loop (split_on CHR ''/'' p) (split_on CHR ''/'' t)"
proof
  fix p s t
  assume p: "plain_topic p"
  then have P: "list_all plain_level (split_on CHR ''/'' p)" by (simp add: plain_topic_def)
  show "loop (split_on CHR ''/'' p) (split_on CHR ''/'' t) \<longleftrightarrow> t = p"
    using P by (simp add: loop_plain split_on_inject)
  show "loop (split_on CHR ''/'' (p @ ''/+'')) (split_on CHR ''/'' t) \<longleftrightarrow>
    (\<exists>x. CHR ''/'' \<notin> set x \<and> t = p @ CHR ''/'' # x)"
    using P by (auto simp: split_wild_end loop_plain_prefix loop_plus loop_Nil simp flip: level_end)
  show "loop (split_on CHR ''/'' (p @ ''/#'')) (split_on CHR ''/'' t) \<longleftrightarrow>
    t = p \<or> (\<exists>x. t = p @ CHR ''/'' # x)"
    using P by (simp add: split_wild_end loop_plain_prefix loop_hash levels_after)
  assume s: "plain_topic s"
  then have S: "list_all plain_level (split_on CHR ''/'' s)" by (simp add: plain_topic_def)
  show "loop (split_on CHR ''/'' (p @ ''/+/'' @ s)) (split_on CHR ''/'' t) \<longleftrightarrow>
    (\<exists>x. CHR ''/'' \<notin> set x \<and> t = p @ CHR ''/'' # x @ CHR ''/'' # s)"
    unfolding split_plus using P S
    by (auto simp: loop_plain_prefix loop_plus loop_plain simp flip: level_then)
qed

interpretation svc_loop: level_loop matchLoop "\<lambda>p. p = ''+''"
  by unfold_locales auto

interpretation mock_loop: level_loop matchLevels "\<lambda>p. p = ''+'' \<or> p = ''*''"
  by unfold_locales auto

lemma matchMQTTTopicWildcard_eq:
  "matchMQTTTopicWildcard p t = matchLevels (split_on CHR ''/'' p) (split_on CHR ''/'' t)"
  by (simp add: matchMQTTTopicWildcard_def mock_loop.loop_refl)

interpretation svc_match: topic_matcher matchMQTTTopic
  unfolding matchMQTTTopic_def [abs_def] by (rule svc_loop.topic_matcher_axioms)

interpretation mock_match: topic_matcher matchMQTTTopicWildcard
  unfolding matchMQTTTopicWildcard_eq [abs_def] by (rule mock_loop.topic_matcher_axioms)

section \<open>The levels of the topics\<close>

lemmas topic_defs =
  TransferRequest_def TransferResponse_def TransferResponseByRequest_def
  TransferResponseStream_def TransferResponseByRequestStream_def EventPublish_def
  StreamOpen_def StreamClose_def DlqBridge_def

lemma response_levels:
  "CHR ''/'' \<notin> set (ts_tenant ts) \<Longrightarrow> split_on CHR ''/'' (TransferResponseByRequest ts rid) =
     [''dd'', ts_tenant ts, ''transfer'', ''response''] @ split_on CHR ''/'' rid"
  by (simp add: topic_defs split_on_append)

lemma response_stream_levels:
  "CHR ''/'' \<notin> set (ts_tenant ts) \<Longrightarrow> split_on CHR ''/'' (TransferResponseByRequestStream ts) =
     [''dd'', ts_tenant ts, ''transfer'', ''response'', ''+'']"
  by (simp add: topic_defs split_on_append)

lemma stream_open_levels:
  "CHR ''/'' \<notin> set (ts_tenant ts) \<Longrightarrow> CHR ''/'' \<notin> set r \<Longrightarrow>
     split_on CHR ''/'' (StreamOpen ts r) = [''dd'', ts_tenant ts, ''stream'', r, ''open'']"
  by (simp add: topic_defs split_on_append)

text \<open>Topic filters as section 4.7 of MQTT 3.1.1 has them. A wildcard stands alone in its level, a hash
  only in the last one; a plus is one level, a hash at the end is the level before it and whatever
  follows; and no filter that starts with a wildcard matches a topic that starts with a dollar.\<close>

definition validFilter :: "string \<Rightarrow> bool" where
  "validFilter flt \<longleftrightarrow> flt \<noteq> [] \<and>
     (\<forall>l \<in> set (split_on CHR ''/'' flt). (CHR ''#'' \<in> set l \<longrightarrow> l = ''#'') \<and> (CHR ''+'' \<in> set l \<longrightarrow> l = ''+'')) \<and>
     ''#'' \<notin> set (butlast (split_on CHR ''/'' flt))"

definition mqttLevels :: "string list \<Rightarrow> string list \<Rightarrow> bool" where
  "mqttLevels fs ts \<longleftrightarrow>
     (if fs \<noteq> [] \<and> last fs = ''#''
      then list_all2 (\<lambda>f t. f = ''+'' \<or> f = t) (butlast fs) (take (length fs - 1) ts)
      else list_all2 (\<lambda>f t. f = ''+'' \<or> f = t) fs ts)"

definition systemTopic :: "string \<Rightarrow> string \<Rightarrow> bool" where
  "systemTopic flt topic \<longleftrightarrow> prefix ''$'' topic \<and> hd (split_on CHR ''/'' flt) \<in> {''#'', ''+''}"

definition mqttMatches :: "string \<Rightarrow> string \<Rightarrow> bool" where
  "mqttMatches flt topic \<longleftrightarrow> \<not> systemTopic flt topic \<and>
     mqttLevels (split_on CHR ''/'' flt) (split_on CHR ''/'' topic)"

text \<open>The loop reads a pattern as a filter that ends at its first hash level.\<close>

definition uptoHash :: "string list \<Rightarrow> string list" where
  "uptoHash fs = takeWhile (\<lambda>f. f \<noteq> ''#'') fs @ (if ''#'' \<in> set fs then [''#''] else [])"

lemma uptoHash_simps [simp]:
  "uptoHash [] = []" "uptoHash (''#'' # fs) = [''#'']" "f \<noteq> ''#'' \<Longrightarrow> uptoHash (f # fs) = f # uptoHash fs"
  by (auto simp: uptoHash_def)

lemma uptoHash_valid: "''#'' \<notin> set (butlast fs) \<Longrightarrow> uptoHash fs = fs"
proof (induction fs)
  case (Cons f fs)
  then show ?case by (cases "f = ''#''"; cases fs) auto
qed simp

lemma mqttLevels_simps [simp]:
  "mqttLevels [] ts \<longleftrightarrow> ts = []" "mqttLevels [''#''] ts"
  "f \<noteq> ''#'' \<Longrightarrow> mqttLevels (f # fs) ts \<longleftrightarrow>
     (case ts of [] \<Rightarrow> False | t # ts' \<Rightarrow> (f = ''+'' \<or> f = t) \<and> mqttLevels fs ts')"
  by (cases ts; auto simp: mqttLevels_def take_Cons')+

lemma matchLoop_iff: "matchLoop pp tp \<longleftrightarrow> mqttLevels (uptoHash pp) tp"
  by (induction pp tp rule: matchLoop.induct) (auto split: list.splits)

lemma matchLevels_no_star: "''*'' \<notin> set pp \<Longrightarrow> matchLevels pp tp = matchLoop pp tp"
  by (induction pp tp rule: matchLevels.induct) (auto split: list.splits)

lemma hex_digit_range: "hex_digit b \<in> set ''0123456789abcdef''"
proof -
  have "unat b mod 16 < length ''0123456789abcdef''" by simp
  then show ?thesis unfolding hex_digit_def by (rule nth_mem)
qed

lemma hex_digit_neq_slash: "hex_digit b \<noteq> CHR ''/''"
  using hex_digit_range [of b] by auto

lemma slash_notin_hex: "CHR ''/'' \<notin> set (hex_encode bs)"
  using hex_digit_neq_slash by (auto simp: hex_encode_def) metis+

text \<open>An aliased topic has four levels, the third of them \<open>ta\<close>.\<close>

lemma alias_response_levels:
  assumes "CHR ''/'' \<notin> set (ts_tenant ts)" "CHR ''#'' \<notin> set (ts_tenant ts @ rid)"
    "CHR ''+'' \<notin> set (ts_tenant ts @ rid)"
  shows "\<exists>h. split_on CHR ''/'' (aliasTopic True (TransferResponseByRequest ts rid)) =
     [''dd'', ts_tenant ts, ''ta'', h]"
proof -
  let ?t = "TransferResponseByRequest ts rid"
  have "sublist ''/transfer/'' ?t"
    unfolding topic_defs
    using sublist_appendI [of "''/transfer/''" "''dd/'' @ ts_tenant ts" "''response/'' @ rid"] by simp
  moreover have "\<not> sublist ''#'' ?t" "\<not> sublist ''+'' ?t" "prefix ''dd/'' ?t" "?t \<noteq> []"
    using assms by (simp_all add: topic_defs)
  ultimately have "aliasTopic True ?t =
      ''dd/'' @ ts_tenant ts @ ''/ta/'' @ hex_encode (sum_bytes (fnv64a ?t))"
    using assms(1) by (simp add: aliasTopic_def response_levels)
  then show ?thesis
    using assms(1) by (simp add: split_on_append split_on_no_sep slash_notin_hex)
qed

section \<open>Properties\<close>

text \<open>
  C7: how far the matcher of the ACL service follows MQTT. On every filter the protocol allows it decides exactly
  the protocol's rules, save one: a filter that starts with a wildcard also matches the topics that
  start with a dollar, which the protocol keeps apart. A filter the protocol forbids, with a hash
  level before its end, is not refused: what follows its first hash is not looked at.
\<close>

theorem matchMQTTTopic_spec:
  "(validFilter pattern \<longrightarrow> (matchMQTTTopic pattern topic \<longleftrightarrow> mqttMatches pattern topic \<or>
      systemTopic pattern topic \<and> mqttLevels (split_on CHR ''/'' pattern) (split_on CHR ''/'' topic))) \<and>
   (matchMQTTTopic pattern topic \<longleftrightarrow> mqttLevels (uptoHash (split_on CHR ''/'' pattern)) (split_on CHR ''/'' topic))"
  by (auto simp: matchMQTTTopic_def matchLoop_iff mqttMatches_def validFilter_def uptoHash_valid)

theorem matchMQTTTopic_spec_witness:
  "matchMQTTTopic ''#'' ''$SYS/uptime'' \<and> \<not> mqttMatches ''#'' ''$SYS/uptime'' \<and>
   matchMQTTTopic ''a/#/b'' ''a/x'' \<and> matchMQTTTopic ''a/+/#'' ''a/x'' \<and> mqttMatches ''a/+/#'' ''a/x''"
proof -
  have "validFilter ''#''" "validFilter ''a/+/#''" "systemTopic ''#'' ''$SYS/uptime''" "\<not> systemTopic ''a/+/#'' ''a/x''"
    "mqttLevels (split_on CHR ''/'' ''#'') (split_on CHR ''/'' ''$SYS/uptime'')"
    "mqttLevels (split_on CHR ''/'' ''a/+/#'') (split_on CHR ''/'' ''a/x'')"
    "mqttLevels (uptoHash (split_on CHR ''/'' ''a/#/b'')) (split_on CHR ''/'' ''a/x'')"
    by (simp_all add: validFilter_def systemTopic_def mqttLevels_def)
  moreover from this have "matchMQTTTopic ''a/#/b'' ''a/x''"
    using matchMQTTTopic_spec [of "''a/#/b''" "''a/x''"] by blast
  ultimately show ?thesis
    using matchMQTTTopic_spec [of "''#''" "''$SYS/uptime''"] matchMQTTTopic_spec [of "''a/+/#''" "''a/x''"]
    by (simp add: mqttMatches_def)
qed

text \<open>
  The in-memory client used by the tests matches like the ACL service on every
  pattern without a star level.
\<close>

lemma mock_matches_like_service:
  assumes "''*'' \<notin> set (split_on CHR ''/'' pattern)"
  shows "matchMQTTTopicWildcard pattern topic = matchMQTTTopic pattern topic"
  using assms by (simp add: matchMQTTTopicWildcard_eq matchMQTTTopic_def matchLevels_no_star)

text \<open>
  A reply on the topic of a request reaches the subscription of the requester's
  own tenant and of no other: under the MQTT rules the response stream of tenant
  \<open>ts\<close> receives the reply for \<open>rid\<close> of tenant \<open>ts'\<close> exactly when the tenants are
  the same, provided tenants and request ids are single levels.
\<close>

lemma reply_reaches_own_tenant:
  assumes "CHR ''/'' \<notin> set (ts_tenant ts)" "CHR ''/'' \<notin> set (ts_tenant ts')"
    "plain_topic (ts_tenant ts)" "CHR ''/'' \<notin> set rid"
  shows "matchMQTTTopic (TransferResponseByRequestStream ts) (TransferResponseByRequest ts' rid)
     \<longleftrightarrow> ts_tenant ts = ts_tenant ts'"
proof -
  have "TransferResponseByRequest ts' rid = TransferResponseByRequest ts rid' \<longleftrightarrow>
      ts_tenant ts = ts_tenant ts' \<and> rid = rid'" for rid'
    using assms split_on_inject [of "CHR ''/''" rid rid']
    by (auto simp: response_levels simp flip: split_on_inject [of "CHR ''/''"])
  then show ?thesis
    using assms by (auto simp: svc_match.response_by_request_iff)
qed

text \<open>
  With the topic alias switched on, no reply comes back: the client publishes the
  reply under an alias and leaves the wildcard subscription as it is, and the two no
  longer match; without the alias they do.
\<close>

lemma alias_breaks_replies:
  assumes "CHR ''/'' \<notin> set (ts_tenant ts)" "plain_topic (ts_tenant ts)"
    "CHR ''#'' \<notin> set (ts_tenant ts @ rid)" "CHR ''+'' \<notin> set (ts_tenant ts @ rid)"
    "CHR ''/'' \<notin> set rid"
  shows "matchMQTTTopic (aliasTopic enabled (TransferResponseByRequestStream ts))
           (aliasTopic enabled (TransferResponseByRequest ts rid)) \<longleftrightarrow> \<not> enabled"
proof (cases enabled)
  case True
  have sub: "aliasTopic True (TransferResponseByRequestStream ts) = TransferResponseByRequestStream ts"
    by (simp add: aliasTopic_def topic_defs)
  obtain h where h: "split_on CHR ''/'' (aliasTopic True (TransferResponseByRequest ts rid)) =
      [''dd'', ts_tenant ts, ''ta'', h]"
    using alias_response_levels assms by blast
  have "ts_tenant ts \<noteq> ''#''" using assms(3) by auto
  with True sub h assms(1) show ?thesis
    by (simp add: matchMQTTTopic_def response_stream_levels)
next
  case False
  then show ?thesis
    using assms by (auto simp: aliasTopic_def svc_match.response_by_request_iff)
qed

text \<open>
  The stream service subscribes with a star as the resource. Under the MQTT rules
  that subscription receives the open event of no resource but the one named star;
  the in-memory client, which takes the star for a wildcard, delivers them all.
\<close>

lemma stream_subscription_star:
  assumes "plain_topic (ts_tenant ts)" "CHR ''/'' \<notin> set (ts_tenant ts)" "CHR ''/'' \<notin> set resource"
  shows "(matchMQTTTopic (StreamOpen ts ''*'') (StreamOpen ts resource) \<longleftrightarrow> resource = ''*'') \<and>
    matchMQTTTopicWildcard (StreamOpen ts ''*'') (StreamOpen ts resource)"
proof -
  have "ts_tenant ts \<noteq> ''#''"
    using assms(1) by (auto simp: plain_topic_def plain_level_def)
  then show ?thesis
    using assms(2,3) by (auto simp: matchMQTTTopic_def matchMQTTTopicWildcard_eq stream_open_levels)
qed

end
