(* ===== verification/Acl.thy ===== *)
theory Acl
  imports Topics
begin

text \<open>
  The topic ACL (\<open>service/topic_acl_service.go\<close>): an ordered list of rules, replaced
  as a whole by \<open>SetRules\<close> and read by \<open>Authorize\<close>. The lock makes each operation one
  step on the list.
\<close>

type_synonym AclAction = string

definition AclActionPub :: AclAction where [go_consts]: "AclActionPub = ''pub''"
definition AclActionSub :: AclAction where [go_consts]: "AclActionSub = ''sub''"

record TopicAclRule =
  r_PeerId :: string
  r_Action :: AclAction
  r_Pattern :: string
  r_Allow :: bool

record TopicAclService =
  acl_rules :: "TopicAclRule list"

definition NewTopicAclService :: TopicAclService where
  "NewTopicAclService = \<lparr>acl_rules = []\<rparr>"

definition SetRules :: "TopicAclService \<Rightarrow> TopicAclRule list \<Rightarrow> TopicAclService" where
  "SetRules s rules = s\<lparr>acl_rules := rules\<rparr>"

fun authorizeLoop :: "TopicAclRule list \<Rightarrow> string \<Rightarrow> AclAction \<Rightarrow> string \<Rightarrow> bool \<Rightarrow> bool" where
  "authorizeLoop [] peerID action topic allowed = allowed"
| "authorizeLoop (rule # rules) peerID action topic allowed =
     (if r_PeerId rule \<noteq> peerID \<or> r_Action rule \<noteq> action
      then authorizeLoop rules peerID action topic allowed
      else if \<not> matchMQTTTopic (r_Pattern rule) topic
      then authorizeLoop rules peerID action topic allowed
      else if \<not> r_Allow rule then False
      else authorizeLoop rules peerID action topic True)"

definition Authorize :: "TopicAclService \<Rightarrow> string \<Rightarrow> AclAction \<Rightarrow> string \<Rightarrow> bool" where
  "Authorize s peerID action topic = authorizeLoop (acl_rules s) peerID action topic False"

section \<open>Lemmas\<close>

definition applies :: "string \<Rightarrow> AclAction \<Rightarrow> string \<Rightarrow> TopicAclRule \<Rightarrow> bool" where
  "applies peerID action topic rule \<longleftrightarrow>
     r_PeerId rule = peerID \<and> r_Action rule = action \<and> matchMQTTTopic (r_Pattern rule) topic"

lemma authorizeLoop_iff:
  "authorizeLoop rules peerID action topic allowed \<longleftrightarrow>
     (\<forall>r \<in> set rules. applies peerID action topic r \<longrightarrow> r_Allow r) \<and>
     (allowed \<or> (\<exists>r \<in> set rules. applies peerID action topic r))"
  by (induction rules arbitrary: allowed) (auto simp: applies_def)

lemma Authorize_iff:
  "Authorize s peerID action topic \<longleftrightarrow>
     (\<exists>r \<in> set (acl_rules s). applies peerID action topic r) \<and>
     (\<forall>r \<in> set (acl_rules s). applies peerID action topic r \<longrightarrow> r_Allow r)"
  by (auto simp: Authorize_def authorizeLoop_iff)

section \<open>Properties\<close>

text \<open>
  C8: a peer may act on a topic exactly when some rule for that peer and action
  matches the topic and every such rule allows it: deny beats allow wherever it stands
  in the list, and no matching rule means no.
\<close>

theorem Authorize_deny_overrides:
  "Authorize (SetRules s rules) peerID action topic \<longleftrightarrow>
     (let hits = filter (applies peerID action topic) rules
      in hits \<noteq> [] \<and> list_all r_Allow hits)"
  by (auto simp: Authorize_iff SetRules_def Let_def filter_empty_conv list_all_iff)

text \<open>
  The order of the rules does not matter, and adding rules for other peers or
  other actions changes nothing for this one.
\<close>

lemma Authorize_order_irrelevant:
  assumes "mset rules' = mset (rules @ others)"
    "list_all (\<lambda>r. r_PeerId r \<noteq> peerID \<or> r_Action r \<noteq> action) others"
  shows "Authorize (SetRules s rules') peerID action topic =
         Authorize (SetRules s rules) peerID action topic"
proof -
  have "set rules' = set rules \<union> set others"
    using mset_eq_setD [OF assms(1)] by simp
  with assms(2) show ?thesis
    by (auto simp: Authorize_iff SetRules_def applies_def list_all_iff)
qed

text \<open>
  The star is no wildcard for peers: rules written for peer star, as in the
  shipped \<open>config.yaml\<close>, authorise no peer of any other name.
\<close>

lemma Authorize_star_peer:
  assumes "list_all (\<lambda>r. r_PeerId r = ''*'') rules" "peerID \<noteq> ''*''"
  shows "\<not> Authorize (SetRules s rules) peerID action topic"
  using assms by (auto simp: Authorize_iff SetRules_def applies_def list_all_iff)

end
