(* ===== verification/Mq.thy ===== *)
theory Mq
  imports Topics
begin

text \<open>
  The message-queue client: the interface \<open>mq.Client\<close> as the locale \<open>mq_client\<close>, and
  its in-memory implementation (\<open>mq/mock_client.go\<close>) as an interpretation. A handler
  is a value of an arbitrary type; where the source calls the handlers of a message
  the model returns the calls it makes. The MQTT implementation of the interface sits
  on the paho library and is represented by its topic handling (theory \<open>Topics\<close>).
\<close>

type_synonym publisher = "string \<Rightarrow> bytes \<Rightarrow> go_error option"
type_synonym outbox = "(string \<times> bytes) list"
type_synonym 'h deliveries = "('h \<times> string \<times> bytes) list"

text \<open>The shape of every \<open>Start\<close>: subscribe in order, stop at the first error. The
  second component lists the subscriptions made.\<close>

fun subscribeAll :: "(string \<Rightarrow> go_error option) \<Rightarrow> (string \<times> 'h) list \<Rightarrow>
    go_error option \<times> (string \<times> 'h) list" where
  "subscribeAll subscribe [] = (None, [])"
| "subscribeAll subscribe ((t, h) # subs) =
     (case subscribe t of
        Some err \<Rightarrow> (Some err, [])
      | None \<Rightarrow> (case subscribeAll subscribe subs of (r, done) \<Rightarrow> (r, (t, h) # done)))"

lemma subscribeAll_ok: "(\<And>t. subscribe t = None) \<Longrightarrow> subscribeAll subscribe subs = (None, subs)"
  by (induction subs) auto

lemma subscribeAll_prefix: "prefix (snd (subscribeAll subscribe subs)) subs"
  by (induction subs) (auto split: option.split prod.split)

section \<open>The in-memory client\<close>

record 'h MockClient =
  mc_subscribers :: "(string, 'h list) gomap"
  mc_published :: outbox
  mc_failPublish :: "go_error option"
  mc_failSubscribe :: "go_error option"

definition NewMockClient :: "'h MockClient" where
  "NewMockClient = \<lparr>mc_subscribers = [], mc_published = [], mc_failPublish = None,
     mc_failSubscribe = None\<rparr>"

definition matchingHandlers :: "'h MockClient \<Rightarrow> string \<Rightarrow> 'h list" where
  "matchingHandlers m topic =
     concat (map (\<lambda>(pattern, subs). if matchMQTTTopicWildcard pattern topic then subs else [])
       (mc_subscribers m))"

definition Publish :: "'h MockClient \<Rightarrow> string \<Rightarrow> bytes \<Rightarrow>
    go_error option \<times> 'h MockClient \<times> 'h deliveries" where
  "Publish m topic payload =
    (case mc_failPublish m of
       Some err \<Rightarrow> (Some err, m, [])
     | None \<Rightarrow>
         let m = m\<lparr>mc_published := mc_published m @ [(topic, payload)]\<rparr>
         in (None, m, map (\<lambda>h. (h, topic, payload)) (matchingHandlers m topic)))"

definition Subscribe :: "'h MockClient \<Rightarrow> string \<Rightarrow> 'h \<Rightarrow> go_error option \<times> 'h MockClient" where
  "Subscribe m topic handler =
    (case mc_failSubscribe m of
       Some err \<Rightarrow> (Some err, m)
     | None \<Rightarrow>
         let old = (case map_of (mc_subscribers m) topic of Some hs \<Rightarrow> hs | None \<Rightarrow> [])
         in (None, m\<lparr>mc_subscribers := gm_set topic (old @ [handler]) (mc_subscribers m)\<rparr>))"

definition Emit :: "'h MockClient \<Rightarrow> string \<Rightarrow> bytes \<Rightarrow> 'h deliveries" where
  "Emit m topic payload = map (\<lambda>h. (h, topic, payload)) (matchingHandlers m topic)"

definition Published :: "'h MockClient \<Rightarrow> outbox" where
  "Published m = mc_published m"

definition SetPublishError :: "'h MockClient \<Rightarrow> go_error option \<Rightarrow> 'h MockClient" where
  "SetPublishError m err = m\<lparr>mc_failPublish := err\<rparr>"

definition SetSubscribeError :: "'h MockClient \<Rightarrow> go_error option \<Rightarrow> 'h MockClient" where
  "SetSubscribeError m err = m\<lparr>mc_failSubscribe := err\<rparr>"

section \<open>The contract of a client\<close>

locale mq_client = topic_matcher matches
  for matches :: "string \<Rightarrow> string \<Rightarrow> bool" +
  fixes subscribe :: "'c \<Rightarrow> string \<Rightarrow> 'h \<Rightarrow> go_error option \<times> 'c"
    and publish :: "'c \<Rightarrow> string \<Rightarrow> bytes \<Rightarrow> go_error option \<times> 'c \<times> 'h deliveries"
    and subscribed :: "'c \<Rightarrow> string \<Rightarrow> 'h \<Rightarrow> bool"
    and invar :: "'c \<Rightarrow> bool"
  assumes subscribe_ok: "subscribe c p h = (None, c') \<Longrightarrow>
      subscribed c' q g \<longleftrightarrow> subscribed c q g \<or> q = p \<and> g = h"
    and publish_delivers: "invar c \<Longrightarrow> publish c t d = (None, c', ds) \<Longrightarrow>
      set ds = {(h, t, d) | h p. subscribed c p h \<and> matches p t}"
    and publish_keeps: "publish c t d = (r, c', ds) \<Longrightarrow> subscribed c' = subscribed c"
    and publish_fails: "publish c t d = (Some err, c', ds) \<Longrightarrow> ds = []"
    and invar_subscribe: "invar c \<Longrightarrow> invar (snd (subscribe c p h))"
    and invar_publish: "invar c \<Longrightarrow> publish c t d = (r, c', ds) \<Longrightarrow> invar c'"
begin

text \<open>A reply published on the topic of a request is handed to every handler
  subscribed to the tenant's response stream.\<close>

lemma reply_delivered:
  assumes "invar c" "subscribe c (TransferResponseByRequestStream ts) h = (None, c')"
    "publish c' (TransferResponseByRequest ts rid) d = (None, c'', ds)"
    "plain_topic (ts_tenant ts)" "CHR ''/'' \<notin> set rid"
  shows "(h, TransferResponseByRequest ts rid, d) \<in> set ds"
proof -
  have "invar c'" using invar_subscribe [OF assms(1)] assms(2) by (metis snd_conv)
  moreover have "matches (TransferResponseByRequestStream ts) (TransferResponseByRequest ts rid)"
    using assms(4,5) by (auto simp: response_by_request_iff)
  ultimately show ?thesis
    using publish_delivers [OF _ assms(3)] subscribe_ok [OF assms(2)] by fastforce
qed

end

definition mock_subscribed :: "'h MockClient \<Rightarrow> string \<Rightarrow> 'h \<Rightarrow> bool" where
  "mock_subscribed m p h \<longleftrightarrow> (\<exists>hs. map_of (mc_subscribers m) p = Some hs \<and> h \<in> set hs)"

definition wf_mock :: "'h MockClient \<Rightarrow> bool" where
  "wf_mock m \<longleftrightarrow> wf_gomap (mc_subscribers m)"

lemma set_matchingHandlers:
  "wf_mock m \<Longrightarrow> set (matchingHandlers m t) =
     {h. \<exists>p. mock_subscribed m p h \<and> matchMQTTTopicWildcard p t}"
  by (force simp: matchingHandlers_def mock_subscribed_def wf_mock_def
      simp flip: in_gomap_iff split: if_splits)

lemma matchingHandlers_published [simp]:
  "matchingHandlers (m\<lparr>mc_published := ps\<rparr>) t = matchingHandlers m t"
  by (simp add: matchingHandlers_def)

lemma Publish_calls:
  "wf_mock c \<Longrightarrow> Publish c t d = (None, c', ds) \<Longrightarrow>
     set ds = {(h, t, d) | h p. mock_subscribed c p h \<and> matchMQTTTopicWildcard p t}"
  using set_matchingHandlers [of c t]
  by (auto simp: Publish_def Let_def image_iff split: option.splits)

interpretation mock: mq_client matchMQTTTopicWildcard Subscribe Publish mock_subscribed wf_mock
proof
  fix c c' :: "'h MockClient" and p q t d h g r ds
  show "Subscribe c p h = (None, c') \<Longrightarrow>
      mock_subscribed c' q g \<longleftrightarrow> mock_subscribed c q g \<or> q = p \<and> g = h"
    by (auto simp: Subscribe_def mock_subscribed_def gomap_simps split: option.splits if_splits)
  show "wf_mock c \<Longrightarrow> Publish c t d = (None, c', ds) \<Longrightarrow>
      set ds = {(h, t, d) | h p. mock_subscribed c p h \<and> matchMQTTTopicWildcard p t}"
    by (rule Publish_calls)
  show "Publish c t d = (r, c', ds) \<Longrightarrow> mock_subscribed c' = mock_subscribed c"
    by (auto simp: Publish_def Let_def mock_subscribed_def fun_eq_iff split: option.splits)
  show "wf_mock c \<Longrightarrow> wf_mock (snd (Subscribe c p h))"
    by (simp add: wf_mock_def Subscribe_def Let_def split: option.split)
  show "wf_mock c \<Longrightarrow> Publish c t d = (r, c', ds) \<Longrightarrow> wf_mock c'"
    by (auto simp: wf_mock_def Publish_def Let_def split: option.splits)
qed (auto simp: Publish_def Let_def split: option.splits)

section \<open>Properties\<close>

text \<open>
  A successful publish of the in-memory client records the message and calls
  exactly the handlers whose subscription matches the topic, each with that topic and
  payload; a failing one leaves the client as it was and calls nobody.
\<close>

lemma mock_publish_spec:
  assumes "wf_mock m"
  shows "(case Publish m topic payload of (err, m', calls) \<Rightarrow>
     err = mc_failPublish m \<and>
     (if err = None
      then Published m' = Published m @ [(topic, payload)] \<and>
           set calls = {(h, topic, payload) | h p. mock_subscribed m p h \<and>
                          matchMQTTTopicWildcard p topic}
      else m' = m \<and> calls = []))"
proof (cases "mc_failPublish m")
  case None
  then obtain m' calls where p: "Publish m topic payload = (None, m', calls)"
    by (auto simp: Publish_def Let_def)
  then have "Published m' = Published m @ [(topic, payload)]"
    using None by (auto simp: Publish_def Let_def Published_def)
  with p None mock.publish_delivers [OF assms p] show ?thesis by simp
qed (simp add: Publish_def)

end
