(* ===== verification/Data_Service.thy ===== *)
theory Data_Service
  imports Acl Mq
begin

text \<open>
  The data service (\<open>service/dd_data_service.go\<close>): \<open>SendSync\<close> with its table of
  pending requests, the handler that hands a reply to its waiter, \<open>SendAsync\<close>, the
  idempotency cache and the transfer records, each with its sweeper.

  \<open>SendSync\<close> blocks in a \<open>select\<close>, so it is two operations: \<open>SendSync_begin\<close> up to the
  \<open>select\<close>, which either returns at once or leaves the request pending, and
  \<open>SendSync_finish\<close> for the branch the \<open>select\<close> takes, the deferred clean-up
  included. Between the two, any operation of any other goroutine can run:
  \<open>dd_step\<close> interleaves them. The channel of a waiter has room for one message and is
  an option. \<open>env\<close> holds the JSON encoder, the gzip writer and the MQ client's
  \<open>Publish\<close>. The Prometheus counters are a log of increments.
  A step has the time it is made at, so that a timer fires no sooner than it is due; \<open>dd_run\<close> is an endless
  run of steps in time. The timer counts from the start of the call: what is encoded and published takes no time.
\<close>

section \<open>State\<close>

type_synonym TransferStatus = string

definition TransferStatusAccepted :: TransferStatus where [go_consts]: "TransferStatusAccepted = ''accepted''"
definition TransferStatusRouted :: TransferStatus where [go_consts]: "TransferStatusRouted = ''routed''"
definition TransferStatusDelivered :: TransferStatus where [go_consts]: "TransferStatusDelivered = ''delivered''"
definition TransferStatusResponded :: TransferStatus where [go_consts]: "TransferStatusResponded = ''responded''"
definition TransferStatusTimeout :: TransferStatus where [go_consts]: "TransferStatusTimeout = ''timeout''"
definition TransferStatusFailed :: TransferStatus where [go_consts]: "TransferStatusFailed = ''failed''"

record TransferRecord =
  tr_RequestId :: string
  tr_Resource :: string
  tr_Protocol :: DdProtocol
  tr_Mode :: DdTransferMode
  tr_SourcePeerId :: string
  tr_TargetPeerId :: string
  tr_Status :: TransferStatus
  tr_LatencyMs :: int
  tr_CreatedAt :: gotime
  tr_UpdatedAt :: gotime

record idempotentEntry =
  ie_response :: DdMessage
  ie_expireAt :: gotime

datatype metric =
    SyncRequestsTotal string string
  | SyncLatencyMs string int
  | AsyncPublishedTotal string string
  | AclDeniedTotal
  | TimeoutTotal

record DdDataService =
  ds_defaultTimeout :: duration
  ds_statusRetention :: duration
  ds_compressThreshold :: nat
  ds_maxPendingRequests :: nat
  ds_aclService :: "TopicAclService option"
  ds_pendingRequests :: "(string, DdMessage option) gomap"
  ds_idempotentKeys :: "(string, idempotentEntry) gomap"
  ds_transferStatuses :: "(string, TransferRecord) gomap"
  ds_metrics :: "metric list"

definition maxIdempotentKeys :: nat where [go_consts]: "maxIdempotentKeys = 10000"

definition WithDataAclService :: "TopicAclService \<Rightarrow> DdDataService \<Rightarrow> DdDataService" where
  "WithDataAclService acl s = s\<lparr>ds_aclService := Some acl\<rparr>"

definition NewDdDataService :: "duration \<Rightarrow> (DdDataService \<Rightarrow> DdDataService) list \<Rightarrow> DdDataService" where
  "NewDdDataService defaultTimeout opts =
     fold (\<lambda>opt s. opt s) opts
       \<lparr>ds_defaultTimeout = defaultTimeout, ds_statusRetention = dur 30 Minute,
        ds_compressThreshold = 128, ds_maxPendingRequests = 1024, ds_aclService = None,
        ds_pendingRequests = [], ds_idempotentKeys = [], ds_transferStatuses = [],
        ds_metrics = []\<rparr>"

record DataEnv =
  en_marshal :: "DdMessage \<Rightarrow> go_error + bytes"
  en_gzip :: "bytes \<Rightarrow> go_error + bytes"
  en_publish :: publisher

definition inc :: "metric \<Rightarrow> DdDataService \<Rightarrow> DdDataService" where
  "inc m s = s\<lparr>ds_metrics := ds_metrics s @ [m]\<rparr>"

section \<open>Helpers\<close>

definition checkAcl :: "DdDataService \<Rightarrow> string \<Rightarrow> string \<Rightarrow> string \<Rightarrow> go_error option \<times> DdDataService" where
  "checkAcl s peerId action topic =
    (case ds_aclService s of
       None \<Rightarrow> (None, s)
     | Some acl \<Rightarrow>
         if \<not> Authorize acl peerId action topic
         then (Some (ErrAclDeniedMsg peerId action topic), inc AclDeniedTotal s)
         else (None, s))"

definition shouldCompress :: "DdDataService \<Rightarrow> DdMessage \<Rightarrow> bool" where
  "shouldCompress s msg \<longleftrightarrow> length (m_Payload msg) \<ge> ds_compressThreshold s"

definition recordStatus ::
  "gotime \<Rightarrow> string \<Rightarrow> DdMessage \<Rightarrow> TransferStatus \<Rightarrow> int \<Rightarrow> DdDataService \<Rightarrow> DdDataService" where
  "recordStatus now requestId msg status latencyMs s =
    (let rec = (case map_of (ds_transferStatuses s) requestId of
           Some rec \<Rightarrow> rec
         | None \<Rightarrow> \<lparr>tr_RequestId = requestId, tr_Resource = m_Resource msg,
             tr_Protocol = m_Protocol msg, tr_Mode = m_Mode msg,
             tr_SourcePeerId = h_SourcePeerId (m_Header msg),
             tr_TargetPeerId = h_TargetPeerId (m_Header msg), tr_Status = [],
             tr_LatencyMs = 0, tr_CreatedAt = now, tr_UpdatedAt = 0\<rparr>)
     in s\<lparr>ds_transferStatuses := gm_set requestId
           (rec\<lparr>tr_Status := status, tr_LatencyMs := latencyMs, tr_UpdatedAt := now\<rparr>)
           (ds_transferStatuses s)\<rparr>)"

definition GetTransferStatus :: "DdDataService \<Rightarrow> string \<Rightarrow> TransferRecord option" where
  "GetTransferStatus s requestId = map_of (ds_transferStatuses s) requestId"

definition PendingRequestCount :: "DdDataService \<Rightarrow> nat" where
  "PendingRequestCount s = length (ds_pendingRequests s)"

definition lookupIdempotent :: "DdDataService \<Rightarrow> gotime \<Rightarrow> DdMessage \<Rightarrow> DdMessage option" where
  "lookupIdempotent s now msg =
    (if h_IdempotencyKey (m_Header msg) = [] then None
     else (case map_of (ds_idempotentKeys s) (h_IdempotencyKey (m_Header msg)) of
         Some entry \<Rightarrow> if now < ie_expireAt entry then Some (ie_response entry) else None
       | None \<Rightarrow> None))"

definition idempotentTtl :: "DdMessage \<Rightarrow> duration" where
  "idempotentTtl msg =
    (let ttl = wrap64 (dur (h_TimeoutMs (m_Header msg)) Millisecond * 5)
     in if ttl < Minute then Minute else ttl)"

definition storeIdempotent :: "gotime \<Rightarrow> DdMessage \<Rightarrow> DdMessage \<Rightarrow> DdDataService \<Rightarrow> DdDataService" where
  "storeIdempotent now msg resp s =
    (if h_IdempotencyKey (m_Header msg) = [] then s
     else s\<lparr>ds_idempotentKeys := gm_set (h_IdempotencyKey (m_Header msg))
        \<lparr>ie_response = resp, ie_expireAt = now + idempotentTtl msg\<rparr> (ds_idempotentKeys s)\<rparr>)"

section \<open>Asynchronous sending\<close>

definition setTrace :: "DdMessage \<Rightarrow> DdMessage" where
  "setTrace msg = (if h_TraceId (m_Header msg) = []
     then msg\<lparr>m_Header := (m_Header msg)\<lparr>h_TraceId := h_RequestId (m_Header msg)\<rparr>\<rparr> else msg)"

definition setCreated :: "gotime \<Rightarrow> DdMessage \<Rightarrow> DdMessage" where
  "setCreated now msg = (if IsZero (m_CreatedAt msg) then msg\<lparr>m_CreatedAt := now\<rparr> else msg)"

definition SendAsync ::
  "DataEnv \<Rightarrow> gotime \<Rightarrow> DdDataService \<Rightarrow> string \<Rightarrow> DdMessage option \<Rightarrow>
     go_error option \<times> DdDataService \<times> outbox" where
  "SendAsync env now s topic mo =
    (case mo of
       None \<Rightarrow> (Some (ErrInvalidEnvelopeMsg ''nil message''), s, [])
     | Some msg \<Rightarrow>
        let msg = Normalize msg
        in case checkAcl s (h_SourcePeerId (m_Header msg)) ''pub'' topic of
             (Some err, s) \<Rightarrow> (Some err, inc (AsyncPublishedTotal (m_Resource msg) ''denied'') s, [])
           | (None, s) \<Rightarrow>
              let msg = setCreated now (msg\<lparr>m_Mode := DdTransferModeAsync\<rparr>)
              in case validateMessage msg of
                   (Some err, msg) \<Rightarrow> (Some (ErrInvalidEnvelopeMsg err),
                      inc (AsyncPublishedTotal (m_Resource msg) ''invalid'') s, [])
                 | (None, msg) \<Rightarrow>
                    let msg = setTrace msg
                    in case EncodeDdMessage (en_marshal env) (en_gzip env) msg (shouldCompress s msg) of
                         (Inl err, msg) \<Rightarrow> (Some err, s, [])
                       | (Inr data, msg) \<Rightarrow>
                          (case en_publish env topic data of
                             Some err \<Rightarrow> (Some err,
                               recordStatus now (h_RequestId (m_Header msg)) msg TransferStatusFailed 0
                                 (inc (AsyncPublishedTotal (m_Resource msg) ''error'') s), [(topic, data)])
                           | None \<Rightarrow> (None,
                               recordStatus now (h_RequestId (m_Header msg)) msg TransferStatusAccepted 0
                                 (inc (AsyncPublishedTotal (m_Resource msg) ''ok'') s), [(topic, data)])))"

section \<open>Synchronous sending\<close>

definition setTimeout :: "DdDataService \<Rightarrow> DdMessage \<Rightarrow> DdMessage" where
  "setTimeout s msg = (if h_TimeoutMs (m_Header msg) \<le> 0
     then msg\<lparr>m_Header := (m_Header msg)\<lparr>h_TimeoutMs := Milliseconds (ds_defaultTimeout s)\<rparr>\<rparr> else msg)"

abbreviation reqId :: "DdMessage \<Rightarrow> string" where
  "reqId msg \<equiv> h_RequestId (m_Header msg)"

definition dropPending :: "string \<Rightarrow> DdDataService \<Rightarrow> DdDataService" where
  "dropPending k s = s\<lparr>ds_pendingRequests := gm_del k (ds_pendingRequests s)\<rparr>"

text \<open>From the pending table to the \<open>select\<close>. A result of \<open>None\<close> means that the call
  waits; an error after the entry was made runs the deferred deletion.\<close>

definition syncAdmit ::
  "DataEnv \<Rightarrow> gotime \<Rightarrow> DdDataService \<Rightarrow> string \<Rightarrow> DdMessage \<Rightarrow>
     (go_error + DdMessage) option \<times> DdDataService \<times> DdMessage \<times> outbox" where
  "syncAdmit env now s topic msg =
    (if length (ds_pendingRequests s) \<ge> ds_maxPendingRequests s
     then (Some (Inl (NewDdError ErrInternal ''sync pending backpressure limit reached'')), s, msg, [])
     else if map_of (ds_pendingRequests s) (reqId msg) \<noteq> None
     then (Some (Inl (ErrDuplicateRequestMsg (reqId msg))), s, msg, [])
     else
       let s = s\<lparr>ds_pendingRequests := gm_set (reqId msg) None (ds_pendingRequests s)\<rparr>;
           s = recordStatus now (reqId msg) msg TransferStatusRouted 0 s
       in case EncodeDdMessage (en_marshal env) (en_gzip env) msg (shouldCompress s msg) of
            (Inl err, msg) \<Rightarrow> (Some (Inl err),
               dropPending (reqId msg) (recordStatus now (reqId msg) msg TransferStatusFailed 0 s), msg, [])
          | (Inr data, msg) \<Rightarrow>
             (case en_publish env topic data of
                Some err \<Rightarrow> (Some (Inl err),
                  dropPending (reqId msg) (recordStatus now (reqId msg) msg TransferStatusFailed 0
                    (inc (SyncRequestsTotal (m_Resource msg) ''error'') s)), msg, [(topic, data)])
              | None \<Rightarrow> (None, s, msg, [(topic, data)])))"

definition SendSync_begin ::
  "DataEnv \<Rightarrow> gotime \<Rightarrow> DdDataService \<Rightarrow> string \<Rightarrow> DdMessage option \<Rightarrow>
     (go_error + DdMessage) option \<times> DdDataService \<times> DdMessage \<times> outbox" where
  "SendSync_begin env now s topic mo =
    (case mo of
       None \<Rightarrow> (Some (Inl (ErrInvalidEnvelopeMsg ''nil message'')), s, zeroMessage, [])
     | Some msg \<Rightarrow>
        let msg = Normalize msg
        in case checkAcl s (h_SourcePeerId (m_Header msg)) ''pub'' topic of
             (Some err, s) \<Rightarrow>
               (Some (Inl err), inc (SyncRequestsTotal (m_Resource msg) ''denied'') s, msg, [])
           | (None, s) \<Rightarrow>
              (case lookupIdempotent s now msg of
                 Some cached \<Rightarrow>
                   (Some (Inr cached), inc (SyncRequestsTotal (m_Resource msg) ''idempotent'') s, msg, [])
               | None \<Rightarrow>
                  let msg = setTimeout s (setCreated now (msg\<lparr>m_Mode := DdTransferModeSync\<rparr>))
                  in if reqId msg = []
                     then (Some (Inl (ErrInvalidEnvelopeMsg ''request_id is required'')), s, msg, [])
                     else (case validateMessage (setTrace msg) of
                         (Some err, msg) \<Rightarrow> (Some (Inl (ErrInvalidEnvelopeMsg err)), s, msg, [])
                       | (None, msg) \<Rightarrow>
                           syncAdmit env now
                             (recordStatus now (reqId msg) msg TransferStatusAccepted 0 s) topic msg)))"

datatype syncEvent = CtxDone go_error | TimerFired | Responded DdMessage

definition SendSync_finish ::
  "gotime \<Rightarrow> gotime \<Rightarrow> DdDataService \<Rightarrow> DdMessage \<Rightarrow> syncEvent \<Rightarrow>
     (go_error + DdMessage) \<times> DdDataService" where
  "SendSync_finish start now s msg ev =
    (case ev of
       CtxDone err \<Rightarrow>
         (Inl err, dropPending (reqId msg) (inc (SyncRequestsTotal (m_Resource msg) ''cancelled'') s))
     | TimerFired \<Rightarrow>
         (Inl (ErrSyncTimeoutMsg (reqId msg)),
          dropPending (reqId msg) (recordStatus now (reqId msg) msg TransferStatusTimeout 0
            (inc (SyncRequestsTotal (m_Resource msg) ''timeout'') (inc TimeoutTotal s))))
     | Responded resp \<Rightarrow>
         let elapsed = Milliseconds (time_sub now start)
         in (Inr resp,
             dropPending (reqId msg) (storeIdempotent now msg resp
               (recordStatus now (reqId msg) msg TransferStatusResponded elapsed
                 (inc (SyncRequestsTotal (m_Resource msg) ''ok'')
                   (inc (SyncLatencyMs (m_Resource msg) elapsed) s))))))"

text \<open>The timer is armed with the timeout of the message, a product that can leave the 64-bit range; a timer for
  a time that has passed fires at once. Which branches the \<open>select\<close> may take at a time: a cancelled context is the
  caller's matter, the timer fires when it is due, and a reply has to be in the channel.\<close>

definition timerDue :: "gotime \<Rightarrow> gotime \<Rightarrow> DdMessage \<Rightarrow> bool" where
  "timerDue start now msg \<longleftrightarrow> start + dur (h_TimeoutMs (m_Header msg)) Millisecond \<le> now"

definition selectReady :: "DdDataService \<Rightarrow> gotime \<Rightarrow> gotime \<Rightarrow> DdMessage \<Rightarrow> syncEvent \<Rightarrow> bool" where
  "selectReady s start now msg ev =
    (case ev of
       CtxDone err \<Rightarrow> True
     | TimerFired \<Rightarrow> timerDue start now msg
     | Responded resp \<Rightarrow> map_of (ds_pendingRequests s) (reqId msg) = Some (Some resp))"

text \<open>\<open>SendSyncAsync\<close> runs \<open>SendSync\<close> in a goroutine and gives the caller a channel of capacity
  one: it is empty and open until \<open>SendSync\<close> returns, then holds the result and is closed.\<close>

record SyncResult =
  sres_Response :: "DdMessage option"
  sres_Err :: "go_error option"

record resultChan =
  rc_buffer :: "SyncResult list"
  rc_closed :: bool

definition syncResult :: "go_error + DdMessage \<Rightarrow> SyncResult" where
  "syncResult r = (case r of Inl err \<Rightarrow> \<lparr>sres_Response = None, sres_Err = Some err\<rparr>
     | Inr resp \<Rightarrow> \<lparr>sres_Response = Some resp, sres_Err = None\<rparr>)"

definition sendClose :: "SyncResult \<Rightarrow> resultChan \<Rightarrow> resultChan" where
  "sendClose r ch = \<lparr>rc_buffer = rc_buffer ch @ [r], rc_closed = True\<rparr>"

definition SendSyncAsync_begin ::
  "DataEnv \<Rightarrow> gotime \<Rightarrow> DdDataService \<Rightarrow> string \<Rightarrow> DdMessage option \<Rightarrow>
     resultChan \<times> DdDataService \<times> DdMessage \<times> outbox" where
  "SendSyncAsync_begin env now s topic mo =
    (let ch = \<lparr>rc_buffer = [], rc_closed = False\<rparr>
     in case SendSync_begin env now s topic mo of
          (Some r, s', msg, out) \<Rightarrow> (sendClose (syncResult r) ch, s', msg, out)
        | (None, s', msg, out) \<Rightarrow> (ch, s', msg, out))"

definition SendSyncAsync_finish ::
  "gotime \<Rightarrow> gotime \<Rightarrow> DdDataService \<Rightarrow> DdMessage \<Rightarrow> syncEvent \<Rightarrow> resultChan \<Rightarrow> resultChan \<times> DdDataService" where
  "SendSyncAsync_finish start now s msg ev ch =
    (case SendSync_finish start now s msg ev of (r, s') \<Rightarrow> (sendClose (syncResult r) ch, s'))"

text \<open>The id a reply is filed under, and the handler of the reply topics. A full
  channel is drained before the new reply is put in.\<close>

definition replyId :: "DdMessage \<Rightarrow> string" where
  "replyId msg = (if h_CorrelationId (m_Header msg) = [] then h_RequestId (m_Header msg)
     else h_CorrelationId (m_Header msg))"

text \<open>\<open>select\<close> with a send or a receive and an empty \<open>default\<close>, on a channel of capacity one.\<close>

definition trySend :: "'a option \<Rightarrow> 'a \<Rightarrow> bool \<times> 'a option" where
  "trySend ch x = (case ch of None \<Rightarrow> (True, Some x) | Some y \<Rightarrow> (False, ch))"

definition tryRecv :: "'a option \<Rightarrow> 'a option" where
  "tryRecv ch = (case ch of None \<Rightarrow> ch | Some y \<Rightarrow> None)"

definition offer :: "DdMessage option \<Rightarrow> DdMessage \<Rightarrow> DdMessage option" where
  "offer ch msg = (case trySend ch msg of
       (True, ch) \<Rightarrow> ch
     | (False, ch) \<Rightarrow> snd (trySend (tryRecv ch) msg))"

definition handleSyncResponse ::
  "(bytes \<Rightarrow> DdMessage \<Rightarrow> go_error + DdMessage) \<Rightarrow> (bytes \<Rightarrow> go_error + bytes) \<Rightarrow>
     DdDataService \<Rightarrow> bytes \<Rightarrow> DdDataService" where
  "handleSyncResponse unmarshal gunzip s payload =
    (case DecodeDdMessage unmarshal gunzip payload zeroMessage of
       Inl err \<Rightarrow> s
     | Inr msg \<Rightarrow>
         if replyId msg = [] then s
         else (case map_of (ds_pendingRequests s) (replyId msg) of
             None \<Rightarrow> s
           | Some ch \<Rightarrow> s\<lparr>ds_pendingRequests :=
               gm_set (replyId msg) (offer ch msg) (ds_pendingRequests s)\<rparr>))"

section \<open>The sweepers\<close>

text \<open>The scan for the entry that expires first, and the eviction loop.\<close>

fun oldestIdempotent :: "(string, idempotentEntry) gomap \<Rightarrow> string \<times> gotime \<Rightarrow> string" where
  "oldestIdempotent [] (oldestKey, oldestAt) = oldestKey"
| "oldestIdempotent ((key, entry) # m) (oldestKey, oldestAt) =
     (if ie_expireAt entry < oldestAt then oldestIdempotent m (key, ie_expireAt entry)
      else oldestIdempotent m (oldestKey, oldestAt))"

fun findOldest :: "(string, idempotentEntry) gomap \<Rightarrow> string" where
  "findOldest [] = []"
| "findOldest ((key, entry) # m) = oldestIdempotent m (key, ie_expireAt entry)"

lemma oldestIdempotent_mem: "oldestIdempotent m (k, t) \<in> insert k (fst ` set m)"
  by (induction m arbitrary: k t) fastforce+

lemma findOldest_mem: "m \<noteq> [] \<Longrightarrow> findOldest m \<in> fst ` set m"
  using oldestIdempotent_mem by (cases m rule: findOldest.cases) auto

lemma length_gm_del_less: "k \<in> fst ` set m \<Longrightarrow> length (gm_del k m) < length m"
  unfolding gm_del_def AList.delete_eq by (force intro: length_filter_less)

function evictOldest :: "nat \<Rightarrow> (string, idempotentEntry) gomap \<Rightarrow> (string, idempotentEntry) gomap" where
  "evictOldest limit m =
     (if length m > limit
      then (if findOldest m = [] then m else evictOldest limit (gm_del (findOldest m) m))
      else m)"
  by pat_completeness auto
termination
  by (relation "measure (\<lambda>(limit, m). length m)")
    (auto intro!: length_gm_del_less findOldest_mem)

definition sweepIdempotent :: "gotime \<Rightarrow> DdDataService \<Rightarrow> DdDataService" where
  "sweepIdempotent now s =
    (let m = filter (\<lambda>(key, entry). \<not> now > ie_expireAt entry) (ds_idempotentKeys s)
     in s\<lparr>ds_idempotentKeys := evictOldest maxIdempotentKeys m\<rparr>)"

definition sweepTransferStatuses :: "gotime \<Rightarrow> DdDataService \<Rightarrow> DdDataService" where
  "sweepTransferStatuses now s =
     s\<lparr>ds_transferStatuses := filter (\<lambda>(requestID, rec).
        \<not> time_sub now (tr_UpdatedAt rec) > ds_statusRetention s) (ds_transferStatuses s)\<rparr>"

section \<open>Interleaving\<close>

text \<open>
  The service with the calls that wait in their \<open>select\<close> (the message and the start
  of each) and the calls that have returned. A step is one operation of one goroutine at the time
  \<open>now\<close>: a call up to its \<open>select\<close>, a reply that arrives, a branch that the \<open>select\<close> of a waiting call is
  ready for, an asynchronous send, or a sweep.
\<close>

record DdSystem =
  sy_svc :: DdDataService
  sy_calls :: "(DdMessage \<times> gotime) list"
  sy_done :: "(DdMessage \<times> (go_error + DdMessage)) list"

inductive dd_step ::
  "DataEnv \<Rightarrow> (bytes \<Rightarrow> DdMessage \<Rightarrow> go_error + DdMessage) \<Rightarrow> (bytes \<Rightarrow> go_error + bytes) \<Rightarrow>
     gotime \<Rightarrow> DdSystem \<Rightarrow> DdSystem \<Rightarrow> bool" for env unmarshal gunzip now where
  wait: "SendSync_begin env now (sy_svc y) topic mo = (None, s', msg, out) \<Longrightarrow>
     dd_step env unmarshal gunzip now y (y\<lparr>sy_svc := s', sy_calls := sy_calls y @ [(msg, now)]\<rparr>)"
| return: "SendSync_begin env now (sy_svc y) topic mo = (Some r, s', msg, out) \<Longrightarrow>
     dd_step env unmarshal gunzip now y (y\<lparr>sy_svc := s', sy_done := sy_done y @ [(msg, r)]\<rparr>)"
| reply: "dd_step env unmarshal gunzip now y
     (y\<lparr>sy_svc := handleSyncResponse unmarshal gunzip (sy_svc y) payload\<rparr>)"
| ends: "(msg, start) \<in> set (sy_calls y) \<Longrightarrow> selectReady (sy_svc y) start now msg ev \<Longrightarrow>
     SendSync_finish start now (sy_svc y) msg ev = (r, s') \<Longrightarrow>
     dd_step env unmarshal gunzip now y (y\<lparr>sy_svc := s',
       sy_calls := remove1 (msg, start) (sy_calls y), sy_done := sy_done y @ [(msg, r)]\<rparr>)"
| async: "SendAsync env now (sy_svc y) topic mo = (err, s', out) \<Longrightarrow>
     dd_step env unmarshal gunzip now y (y\<lparr>sy_svc := s'\<rparr>)"
| sweep_keys: "dd_step env unmarshal gunzip now y (y\<lparr>sy_svc := sweepIdempotent now (sy_svc y)\<rparr>)"
| sweep_statuses:
    "dd_step env unmarshal gunzip now y (y\<lparr>sy_svc := sweepTransferStatuses now (sy_svc y)\<rparr>)"

definition initSystem :: "DdDataService \<Rightarrow> DdSystem" where
  "initSystem s = \<lparr>sy_svc = s, sy_calls = [], sy_done = []\<rparr>"

section \<open>What the operations leave alone\<close>

named_theorems ds_frame \<open>the fields an operation of the data service does not write\<close>

lemma inc_frame [ds_frame]:
  "ds_pendingRequests (inc m s) = ds_pendingRequests s"
  "ds_idempotentKeys (inc m s) = ds_idempotentKeys s"
  "ds_transferStatuses (inc m s) = ds_transferStatuses s"
  "ds_maxPendingRequests (inc m s) = ds_maxPendingRequests s"
  "ds_aclService (inc m s) = ds_aclService s"
  "ds_compressThreshold (inc m s) = ds_compressThreshold s"
  "ds_defaultTimeout (inc m s) = ds_defaultTimeout s"
  by (simp_all add: inc_def)

lemma recordStatus_frame [ds_frame]:
  "ds_pendingRequests (recordStatus now r m st l s) = ds_pendingRequests s"
  "ds_idempotentKeys (recordStatus now r m st l s) = ds_idempotentKeys s"
  "ds_maxPendingRequests (recordStatus now r m st l s) = ds_maxPendingRequests s"
  "ds_aclService (recordStatus now r m st l s) = ds_aclService s"
  "ds_compressThreshold (recordStatus now r m st l s) = ds_compressThreshold s"
  by (simp_all add: recordStatus_def Let_def)

lemma dropPending_frame [ds_frame]:
  "ds_pendingRequests (dropPending k s) = gm_del k (ds_pendingRequests s)"
  "ds_idempotentKeys (dropPending k s) = ds_idempotentKeys s"
  "ds_transferStatuses (dropPending k s) = ds_transferStatuses s"
  "ds_maxPendingRequests (dropPending k s) = ds_maxPendingRequests s"
  by (simp_all add: dropPending_def)

lemma storeIdempotent_frame [ds_frame]:
  "ds_pendingRequests (storeIdempotent now m r s) = ds_pendingRequests s"
  "ds_transferStatuses (storeIdempotent now m r s) = ds_transferStatuses s"
  "ds_maxPendingRequests (storeIdempotent now m r s) = ds_maxPendingRequests s"
  by (simp_all add: storeIdempotent_def)

lemma checkAcl_frame:
  "checkAcl s p a t = (e, s') \<Longrightarrow>
     ds_pendingRequests s' = ds_pendingRequests s \<and> ds_idempotentKeys s' = ds_idempotentKeys s \<and>
     ds_maxPendingRequests s' = ds_maxPendingRequests s \<and> ds_aclService s' = ds_aclService s \<and>
     ds_transferStatuses s' = ds_transferStatuses s"
  by (auto simp: checkAcl_def ds_frame split: option.splits if_splits)

lemma checkAcl_None:
  "checkAcl s p a t = (None, s') \<longleftrightarrow>
     s' = s \<and> (case ds_aclService s of None \<Rightarrow> True | Some acl \<Rightarrow> Authorize acl p a t)"
  by (auto simp: checkAcl_def split: option.splits if_splits)

lemma sweep_frame [ds_frame]:
  "ds_pendingRequests (sweepIdempotent now s) = ds_pendingRequests s"
  "ds_maxPendingRequests (sweepIdempotent now s) = ds_maxPendingRequests s"
  "ds_pendingRequests (sweepTransferStatuses now s) = ds_pendingRequests s"
  "ds_maxPendingRequests (sweepTransferStatuses now s) = ds_maxPendingRequests s"
  "ds_idempotentKeys (sweepTransferStatuses now s) = ds_idempotentKeys s"
  by (simp_all add: sweepIdempotent_def sweepTransferStatuses_def Let_def)

lemma offer_latest [simp]: "offer ch msg = Some msg"
  by (cases ch) (simp_all add: offer_def trySend_def tryRecv_def)

lemma handleSyncResponse_frame [ds_frame]:
  "ds_idempotentKeys (handleSyncResponse u g s p) = ds_idempotentKeys s"
  "ds_maxPendingRequests (handleSyncResponse u g s p) = ds_maxPendingRequests s"
  by (auto simp: handleSyncResponse_def split: sum.split option.split)

lemma SendAsync_frame:
  "SendAsync env now s topic mo = (e, s', out) \<Longrightarrow>
     ds_pendingRequests s' = ds_pendingRequests s \<and> ds_idempotentKeys s' = ds_idempotentKeys s \<and>
     ds_maxPendingRequests s' = ds_maxPendingRequests s"
  by (auto simp: SendAsync_def Let_def ds_frame dest!: checkAcl_frame
      split: option.splits prod.splits sum.splits)

section \<open>Synchronous calls up to the select\<close>

lemma EncodeDdMessage_msg: "EncodeDdMessage j z m c = (r, m') \<Longrightarrow> m' = Normalize m"
  by (auto simp: EncodeDdMessage_def Let_def split: sum.splits if_splits)

lemma syncAdmit_wait:
  assumes "syncAdmit env now s topic msg = (None, s', msg', out)" "Normalize msg = msg"
  shows "msg' = msg" "map_of (ds_pendingRequests s) (reqId msg) = None"
    "length (ds_pendingRequests s) < ds_maxPendingRequests s"
    "ds_pendingRequests s' = ds_pendingRequests s @ [(reqId msg, None)]"
    "\<exists>data. out = [(topic, data)] \<and> en_publish env topic data = None"
  using assms
  by (auto simp: syncAdmit_def Let_def ds_frame gm_set_new split: if_splits prod.splits sum.splits
      option.splits dest!: EncodeDdMessage_msg)

lemma syncAdmit_encodes:
  assumes "syncAdmit env now s topic msg = (None, s', msg', out)"
  shows "\<exists>data c. out = [(topic, data)] \<and> EncodeDdMessage (en_marshal env) (en_gzip env) msg c = (Inr data, msg')"
  using assms
  by (auto simp: syncAdmit_def Let_def split: if_splits prod.splits sum.splits option.splits)

lemma syncAdmit_return:
  assumes "syncAdmit env now s topic msg = (Some r, s', msg', out)" "Normalize msg = msg"
  shows "\<exists>err. r = Inl err" "ds_pendingRequests s' = ds_pendingRequests s" "msg' = msg"
  using assms
  by (auto simp: syncAdmit_def Let_def ds_frame gm_del_set_new split: if_splits prod.splits
      sum.splits option.splits dest!: EncodeDdMessage_msg)

lemma syncAdmit_frame:
  assumes "syncAdmit env now s topic msg = (r, s', msg', out)"
  shows "ds_idempotentKeys s' = ds_idempotentKeys s"
    "ds_maxPendingRequests s' = ds_maxPendingRequests s" "set out \<subseteq> {topic} \<times> UNIV"
  using assms
  by (auto simp: syncAdmit_def Let_def ds_frame split: if_splits prod.splits sum.splits option.splits)

text \<open>Every way through \<open>SendSync\<close> up to its \<open>select\<close>: refused before the pending
  table, answered from the cache, or handed to \<open>syncAdmit\<close>.\<close>

definition syncPrepare :: "DdDataService \<Rightarrow> gotime \<Rightarrow> DdMessage \<Rightarrow> DdMessage" where
  "syncPrepare s now msg = Normalize (setTrace (setTimeout s
     (setCreated now ((Normalize msg)\<lparr>m_Mode := DdTransferModeSync\<rparr>))))"

lemma syncPrepare_simps [simp]:
  "Normalize (syncPrepare s now msg) = syncPrepare s now msg"
  by (simp add: syncPrepare_def)

lemma validateMessage_pair: "validateMessage m = (e, m') \<Longrightarrow> m' = Normalize m"
  by (metis snd_conv validateMessage_msg)

lemma SendSync_begin_cases:
  assumes "SendSync_begin env now s topic mo = (r, s', msg', out)"
  obtains (refused) "\<exists>err. r = Some (Inl err)" "out = []"
      "ds_pendingRequests s' = ds_pendingRequests s" "ds_idempotentKeys s' = ds_idempotentKeys s"
      "ds_maxPendingRequests s' = ds_maxPendingRequests s"
    | (cached) msg c where "mo = Some msg" "checkAcl s (h_SourcePeerId (m_Header (Normalize msg))) ''pub'' topic = (None, s)"
      "lookupIdempotent s now (Normalize msg) = Some c" "r = Some (Inr c)"
      "s' = inc (SyncRequestsTotal (m_Resource msg) ''idempotent'') s"
      "msg' = Normalize msg" "out = []"
    | (admitted) msg where "mo = Some msg"
      "checkAcl s (h_SourcePeerId (m_Header (Normalize msg))) ''pub'' topic = (None, s)"
      "lookupIdempotent s now (Normalize msg) = None"
      "fst (validateMessage (setTrace (setTimeout s (setCreated now ((Normalize msg)\<lparr>m_Mode := DdTransferModeSync\<rparr>))))) = None"
      "syncAdmit env now (recordStatus now (reqId (syncPrepare s now msg)) (syncPrepare s now msg)
         TransferStatusAccepted 0 s) topic (syncPrepare s now msg) = (r, s', msg', out)"
proof (cases mo)
  case None
  with assms show ?thesis by (intro refused) (auto simp: SendSync_begin_def)
next
  case (Some msg)
  let ?n = "Normalize msg"
  obtain e s1 where acl: "checkAcl s (h_SourcePeerId (m_Header ?n)) ''pub'' topic = (e, s1)"
    by fastforce
  show ?thesis
  proof (cases e)
    case (Some err)
    with assms acl \<open>mo = Some msg\<close> show ?thesis
      by (intro refused) (auto simp: SendSync_begin_def Let_def ds_frame dest!: checkAcl_frame)
  next
    case None
    with acl have [simp]: "s1 = s" by (simp add: checkAcl_None)
    show ?thesis
    proof (cases "lookupIdempotent s now ?n")
      case (Some c)
      with assms acl None \<open>mo = Some msg\<close> show ?thesis
        by (intro cached [of msg c]) (auto simp: SendSync_begin_def Let_def)
    next
      case None': None
      let ?m = "setTimeout s (setCreated now (?n\<lparr>m_Mode := DdTransferModeSync\<rparr>))"
      obtain v m2 where val: "validateMessage (setTrace ?m) = (v, m2)" by fastforce
      with validateMessage_pair have m2: "m2 = syncPrepare s now msg"
        by (auto simp: syncPrepare_def)
      show ?thesis
      proof (cases "reqId ?m = [] \<or> v \<noteq> None")
        case True
        with assms acl None None' val \<open>mo = Some msg\<close> show ?thesis
          by (intro refused) (auto simp: SendSync_begin_def Let_def split: if_splits)
      next
        case False
        with assms acl None None' val m2 \<open>mo = Some msg\<close> show ?thesis
          by (intro admitted [of msg]) (auto simp: SendSync_begin_def Let_def)
      qed
    qed
  qed
qed

section \<open>The idempotency sweep\<close>

declare evictOldest.simps [simp del]

lemma evictOldest_subset: "set (evictOldest limit m) \<subseteq> set m"
proof (induction limit m rule: evictOldest.induct)
  case (1 limit m)
  show ?case
    by (subst evictOldest.simps)
      (use 1 in \<open>auto simp: gm_del_def AList.delete_eq split: if_splits\<close>)
qed

lemma oldestIdempotent_min:
  "\<exists>e. (oldestIdempotent m (k, ie_expireAt e0), e) \<in> set ((k, e0) # m) \<and>
     (\<forall>(k', e') \<in> set ((k, e0) # m). ie_expireAt e \<le> ie_expireAt e')"
proof (induction m arbitrary: k e0)
  case (Cons a m)
  obtain k1 e1 where a: "a = (k1, e1)" by fastforce
  show ?case
  proof (cases "ie_expireAt e1 < ie_expireAt e0")
    case True
    with Cons.IH [of k1 e1] show ?thesis by (fastforce simp: a)
  next
    case False
    with Cons.IH [of k e0] show ?thesis by (fastforce simp: a)
  qed
qed auto

lemma findOldest_min:
  assumes "m \<noteq> []"
  shows "\<exists>e. (findOldest m, e) \<in> set m \<and> (\<forall>(k', e') \<in> set m. ie_expireAt e \<le> ie_expireAt e')"
proof -
  obtain k e0 m' where m: "m = (k, e0) # m'" using assms by (cases m) auto
  show ?thesis
    using oldestIdempotent_min [of m' k e0] by (simp add: m)
qed

lemma wf_evictOldest: "wf_gomap m \<Longrightarrow> wf_gomap (evictOldest limit m)"
  by (induction limit m rule: evictOldest.induct) (subst evictOldest.simps, simp)

text \<open>The eviction loop, when no key is empty: it ends with exactly \<open>limit\<close> entries, and
  what it removed expires no later than what it kept.\<close>

lemma evictOldest_spec:
  assumes "wf_gomap m" "[] \<notin> fst ` set m"
  shows "length (evictOldest limit m) = min limit (length m) \<and>
    (\<forall>(k, e) \<in> set m - set (evictOldest limit m).
       \<forall>(k', e') \<in> set (evictOldest limit m). ie_expireAt e \<le> ie_expireAt e')"
  using assms
proof (induction limit m rule: evictOldest.induct)
  case (1 limit m)
  let ?d = "gm_del (findOldest m) m"
  show ?case
  proof (cases "length m > limit")
    case True
    then have "m \<noteq> []" by auto
    then obtain e0 where e0: "(findOldest m, e0) \<in> set m" "\<forall>(k', e') \<in> set m. ie_expireAt e0 \<le> ie_expireAt e'"
      using findOldest_min by blast
    have "findOldest m \<noteq> []"
      using "1.prems" e0(1) by (metis fst_conv image_eqI)
    then have ev: "evictOldest limit m = evictOldest limit ?d"
      using True by (subst evictOldest.simps) simp
    have "[] \<notin> fst ` set ?d" "wf_gomap ?d"
      using "1.prems" by (auto simp: gomap_simps)
    with "1.IH" True \<open>findOldest m \<noteq> []\<close> have IH:
      "length (evictOldest limit ?d) = min limit (length ?d)"
      "\<forall>(k, e) \<in> set ?d - set (evictOldest limit ?d).
         \<forall>(k', e') \<in> set (evictOldest limit ?d). ie_expireAt e \<le> ie_expireAt e'"
      by blast+
    have len: "length ?d = length m - 1"
      using "1.prems" e0(1) by (intro length_gm_del) (auto intro: rev_image_eqI)
    have m: "set m = insert (findOldest m, e0) (set ?d)"
      using "1.prems" e0(1) by (auto simp: gm_del_def AList.delete_eq in_gomap_iff)
    have "ie_expireAt e \<le> ie_expireAt e'"
      if "(k, e) \<in> set m" "(k, e) \<notin> set (evictOldest limit ?d)" "(k', e') \<in> set (evictOldest limit ?d)"
      for k e k' e'
    proof (cases "(k, e) \<in> set ?d")
      case True
      with that IH(2) show ?thesis by blast
    next
      case False
      with that(1) m have "e = e0" by simp
      moreover have "(k', e') \<in> set m"
        using that(3) evictOldest_subset [of limit ?d] m by blast
      ultimately show ?thesis using e0(2) by blast
    qed
    then show ?thesis
      unfolding ev using IH(1) len True by auto
  next
    case False
    then show ?thesis by (subst (1 2 3) evictOldest.simps) auto
  qed
qed

section \<open>Invariant\<close>

text \<open>A reply that a call may be given: it carries the call's request id, or it was given
  to a call with the same idempotency key whose request id it carries.\<close>

abbreviation idemKey :: "DdMessage \<Rightarrow> string" where
  "idemKey msg \<equiv> h_IdempotencyKey (m_Header msg)"

definition own_reply :: "(DdMessage \<times> (go_error + DdMessage)) list \<Rightarrow> string \<Rightarrow> DdMessage \<Rightarrow> bool" where
  "own_reply done key resp \<longleftrightarrow>
     (\<exists>msg. (msg, Inr resp) \<in> set done \<and> idemKey msg = key \<and> replyId resp = reqId msg)"

definition done_ok :: "(DdMessage \<times> (go_error + DdMessage)) list \<Rightarrow> bool" where
  "done_ok done \<longleftrightarrow> (\<forall>(msg, r) \<in> set done. \<forall>resp. r = Inr resp \<longrightarrow>
     replyId resp = reqId msg \<or> idemKey msg \<noteq> [] \<and> own_reply done (idemKey msg) resp)"

definition pending_inv :: "(string, DdMessage option) gomap \<Rightarrow> nat \<Rightarrow> (DdMessage \<times> gotime) list \<Rightarrow> bool" where
  "pending_inv p n calls \<longleftrightarrow> wf_gomap p \<and> length p \<le> n \<and>
     mset (map (\<lambda>c. reqId (fst c)) calls) = mset (map fst p) \<and>
     (\<forall>k m. (k, Some m) \<in> set p \<longrightarrow> replyId m = k)"

definition cache_inv :: "(string, idempotentEntry) gomap \<Rightarrow> (DdMessage \<times> (go_error + DdMessage)) list \<Rightarrow> bool" where
  "cache_inv cache done \<longleftrightarrow> wf_gomap cache \<and>
     (\<forall>(k, e) \<in> set cache. k \<noteq> [] \<and> own_reply done k (ie_response e))"

definition dd_inv :: "DdSystem \<Rightarrow> bool" where
  "dd_inv y \<longleftrightarrow>
     pending_inv (ds_pendingRequests (sy_svc y)) (ds_maxPendingRequests (sy_svc y)) (sy_calls y) \<and>
     cache_inv (ds_idempotentKeys (sy_svc y)) (sy_done y) \<and> done_ok (sy_done y)"

lemma own_reply_append [simp]:
  "own_reply (done @ [d]) k resp \<longleftrightarrow> own_reply done k resp \<or>
     snd d = Inr resp \<and> idemKey (fst d) = k \<and> replyId resp = reqId (fst d)"
  by (cases d) (auto simp: own_reply_def)

lemma cache_inv_append [simp]: "cache_inv cache done \<Longrightarrow> cache_inv cache (done @ [d])"
  by (auto simp: cache_inv_def)

lemma done_ok_append:
  "done_ok done \<Longrightarrow>
     (\<And>resp. r = Inr resp \<Longrightarrow> replyId resp = reqId msg \<or> idemKey msg \<noteq> [] \<and> own_reply done (idemKey msg) resp) \<Longrightarrow>
     done_ok (done @ [(msg, r)])"
  by (fastforce simp: done_ok_def)

lemma pending_inv_add:
  "pending_inv p n calls \<Longrightarrow> map_of p (reqId msg) = None \<Longrightarrow> length p < n \<Longrightarrow>
     pending_inv (p @ [(reqId msg, None)]) n (calls @ [(msg, now)])"
  by (auto simp: pending_inv_def wf_gomap_def map_of_eq_None_iff)

lemma mset_map_remove1: "x \<in> set xs \<Longrightarrow> mset (map f (remove1 x xs)) = mset (map f xs) - {#f x#}"
  by (induction xs) auto

lemma pending_inv_remove:
  assumes "pending_inv p n calls" "(msg, start) \<in> set calls"
  shows "pending_inv (gm_del (reqId msg) p) n (remove1 (msg, start) calls)"
proof -
  have "length (gm_del (reqId msg) p) \<le> n"
    using assms length_gm_del_le [of "reqId msg" p] by (simp add: pending_inv_def)
  moreover have "mset (map (\<lambda>c. reqId (fst c)) (remove1 (msg, start) calls)) = mset (map fst (gm_del (reqId msg) p))"
    using assms by (simp add: pending_inv_def mset_map_remove1 mset_keys_gm_del wf_gomap_def del: mset_map)
  ultimately show ?thesis
    using assms by (auto simp: pending_inv_def gm_del_def AList.delete_eq wf_gomap_def distinct_map_filter)
qed

lemma pending_inv_reply:
  assumes "pending_inv p n calls" "map_of p k = Some ch" "replyId m = k"
  shows "pending_inv (gm_set k (Some m) p) n calls"
proof -
  have "map fst (gm_set k (Some m) p) = map fst p"
    using assms(2) by (force simp: gm_set_def update_keys dest!: map_of_SomeD)
  moreover have "wf_gomap (gm_set k (Some m) p)"
    using assms(1) by (simp add: pending_inv_def)
  moreover from this have "\<forall>k' m'. (k', Some m') \<in> set (gm_set k (Some m) p) \<longrightarrow> replyId m' = k'"
    using assms by (auto simp: in_gomap_iff gomap_simps pending_inv_def split: if_splits)
  moreover have "length (gm_set k (Some m) p) = length p"
    using \<open>map fst (gm_set k (Some m) p) = map fst p\<close> by (metis length_map)
  ultimately show ?thesis
    using assms(1) by (simp add: pending_inv_def)
qed

lemma wf_sweepIdempotent:
  "wf_gomap (ds_idempotentKeys s) \<Longrightarrow> wf_gomap (ds_idempotentKeys (sweepIdempotent now s))"
  by (simp add: sweepIdempotent_def Let_def wf_evictOldest wf_gomap_filter)

lemma sweepIdempotent_subset:
  "set (ds_idempotentKeys (sweepIdempotent now s)) \<subseteq> set (ds_idempotentKeys s)"
  using evictOldest_subset by (fastforce simp: sweepIdempotent_def Let_def)

lemma cache_inv_store:
  assumes "cache_inv (ds_idempotentKeys s) done" "replyId resp = reqId msg"
  shows "cache_inv (ds_idempotentKeys (storeIdempotent now msg resp s)) (done @ [(msg, Inr resp)])"
proof (cases "idemKey msg = []")
  case True
  with assms(1) show ?thesis by (simp add: storeIdempotent_def)
next
  case False
  let ?c = "ds_idempotentKeys (storeIdempotent now msg resp s)"
  have wf: "wf_gomap ?c"
    using assms(1) by (simp add: storeIdempotent_def cache_inv_def)
  have "k \<noteq> [] \<and> own_reply (done @ [(msg, Inr resp)]) k (ie_response e)" if "(k, e) \<in> set ?c" for k e
  proof (cases "k = idemKey msg")
    case True
    with that wf assms(2) False show ?thesis
      by (auto simp: in_gomap_iff storeIdempotent_def gomap_simps)
  next
    case k: False
    with that wf False have "map_of (ds_idempotentKeys s) k = Some e"
      by (simp add: in_gomap_iff storeIdempotent_def gomap_simps)
    then have "(k, e) \<in> set (ds_idempotentKeys s)" by (rule map_of_SomeD)
    with assms(1) show ?thesis by (auto simp: cache_inv_def)
  qed
  with wf show ?thesis by (auto simp: cache_inv_def)
qed

lemma lookupIdempotent_own:
  assumes "cache_inv (ds_idempotentKeys s) done" "lookupIdempotent s now msg = Some c"
  shows "idemKey msg \<noteq> [] \<and> own_reply done (idemKey msg) c"
  using assms by (auto simp: lookupIdempotent_def cache_inv_def dest!: map_of_SomeD
      split: if_splits option.splits)

lemma SendSync_finish_pending:
  "ds_pendingRequests (snd (SendSync_finish start now s msg ev)) = gm_del (reqId msg) (ds_pendingRequests s)"
  "ds_maxPendingRequests (snd (SendSync_finish start now s msg ev)) = ds_maxPendingRequests s"
  by (auto simp: SendSync_finish_def Let_def ds_frame split: syncEvent.split)

lemma SendSync_finish_max:
  "SendSync_finish start now s msg ev = (r, s') \<Longrightarrow> ds_maxPendingRequests s' = ds_maxPendingRequests s"
  using SendSync_finish_pending(2) by (metis snd_conv)

lemma handleSyncResponse_pending:
  assumes "pending_inv (ds_pendingRequests s) n calls"
  shows "pending_inv (ds_pendingRequests (handleSyncResponse u g s payload)) n calls"
  using assms pending_inv_reply
  by (auto simp: handleSyncResponse_def split: sum.split option.split)

lemma SendSync_begin_wait:
  assumes "SendSync_begin env now s topic mo = (None, s', msg', out)"
  shows "map_of (ds_pendingRequests s) (reqId msg') = None \<and>
    length (ds_pendingRequests s) < ds_maxPendingRequests s \<and>
    ds_pendingRequests s' = ds_pendingRequests s @ [(reqId msg', None)] \<and>
    ds_idempotentKeys s' = ds_idempotentKeys s \<and>
    ds_maxPendingRequests s' = ds_maxPendingRequests s"
  using assms
proof (cases rule: SendSync_begin_cases)
  case (admitted msg)
  note w = syncAdmit_wait [OF admitted(5) syncPrepare_simps] and f = syncAdmit_frame [OF admitted(5)]
  from w f show ?thesis by (simp add: ds_frame)
qed auto

lemma SendSync_begin_return:
  assumes "SendSync_begin env now s topic mo = (Some r, s', msg', out)"
  shows "ds_pendingRequests s' = ds_pendingRequests s \<and>
    ds_idempotentKeys s' = ds_idempotentKeys s \<and>
    ds_maxPendingRequests s' = ds_maxPendingRequests s \<and>
    (\<forall>c. r = Inr c \<longrightarrow> lookupIdempotent s now msg' = Some c)"
  using assms
proof (cases rule: SendSync_begin_cases)
  case (admitted msg)
  note w = syncAdmit_return [OF admitted(5) syncPrepare_simps] and f = syncAdmit_frame [OF admitted(5)]
  from w f show ?thesis by (auto simp: ds_frame)
qed (auto simp: ds_frame)

lemma dd_step_inv: "dd_step env u g now y y' \<Longrightarrow> dd_inv y \<Longrightarrow> dd_inv y'"
proof (induction rule: dd_step.induct)
  case (wait y topic mo s' msg out)
  then show ?case
    using SendSync_begin_wait [OF wait(1)] pending_inv_add by (simp add: dd_inv_def)
next
  case (return y topic mo r s' msg out)
  then show ?case
    using SendSync_begin_return [OF return(1)]
    by (auto simp: dd_inv_def intro!: done_ok_append dest: lookupIdempotent_own)
next
  case (reply y payload)
  then show ?case by (simp add: dd_inv_def ds_frame handleSyncResponse_pending)
next
  case (ends msg start y ev r s')
  show ?case
  proof (cases "\<exists>resp. ev = Responded resp")
    case False
    then have "ds_idempotentKeys s' = ds_idempotentKeys (sy_svc y)" "\<exists>err. r = Inl err"
      using ends(3) by (cases ev; auto simp: SendSync_finish_def ds_frame)+
    with ends SendSync_finish_pending [of start now "sy_svc y" msg ev] show ?thesis
      by (auto simp: dd_inv_def pending_inv_remove intro!: done_ok_append)
  next
    case True
    then obtain resp where ev: "ev = Responded resp" by blast
    then have "(reqId msg, Some resp) \<in> set (ds_pendingRequests (sy_svc y))"
      using ends(2) by (auto simp: selectReady_def dest: map_of_SomeD)
    then have resp: "replyId resp = reqId msg"
      using ends(4) by (auto simp: dd_inv_def pending_inv_def)
    obtain s0 where s0: "ds_idempotentKeys s' = ds_idempotentKeys (storeIdempotent now msg resp s0)"
        "ds_idempotentKeys s0 = ds_idempotentKeys (sy_svc y)" "r = Inr resp"
      using ends(3) ev by (auto simp: SendSync_finish_def Let_def ds_frame)
    have "cache_inv (ds_idempotentKeys s') (sy_done y @ [(msg, r)])"
      unfolding s0 using ends(4) resp s0(2) by (intro cache_inv_store) (simp_all add: dd_inv_def)
    with ends ev resp s0(3) SendSync_finish_pending [of start now "sy_svc y" msg "Responded resp"]
    show ?thesis by (auto simp: dd_inv_def pending_inv_remove intro!: done_ok_append)
  qed
next
  case (async y topic mo err s' out)
  then show ?case by (auto simp: dd_inv_def dest!: SendAsync_frame)
next
  case (sweep_keys y)
  have "cache_inv (ds_idempotentKeys (sweepIdempotent now (sy_svc y))) (sy_done y)"
    using sweep_keys sweepIdempotent_subset wf_sweepIdempotent
    by (fastforce simp: dd_inv_def cache_inv_def)
  with sweep_keys show ?case by (simp add: dd_inv_def ds_frame)
next
  case (sweep_statuses y)
  then show ?case by (simp add: dd_inv_def ds_frame)
qed

definition dd_reachable ::
  "DataEnv \<Rightarrow> (bytes \<Rightarrow> DdMessage \<Rightarrow> go_error + DdMessage) \<Rightarrow> (bytes \<Rightarrow> go_error + bytes) \<Rightarrow>
     duration \<Rightarrow> TopicAclService option \<Rightarrow> DdSystem \<Rightarrow> bool" where
  "dd_reachable env unmarshal gunzip timeout acl y \<longleftrightarrow>
     (\<lambda>y y'. \<exists>now. dd_step env unmarshal gunzip now y y')\<^sup>*\<^sup>*
       (initSystem (NewDdDataService timeout (case acl of None \<Rightarrow> [] | Some a \<Rightarrow> [WithDataAclService a]))) y"

lemma NewDdDataService_fields:
  "ds_pendingRequests (NewDdDataService t (case acl of None \<Rightarrow> [] | Some a \<Rightarrow> [WithDataAclService a])) = []"
  "ds_idempotentKeys (NewDdDataService t (case acl of None \<Rightarrow> [] | Some a \<Rightarrow> [WithDataAclService a])) = []"
  "ds_maxPendingRequests (NewDdDataService t (case acl of None \<Rightarrow> [] | Some a \<Rightarrow> [WithDataAclService a])) = 1024"
  by (auto simp: NewDdDataService_def WithDataAclService_def split: option.split)

lemma dd_reachable_inv:
  assumes "dd_reachable env u g timeout acl y"
  shows "dd_inv y \<and> ds_maxPendingRequests (sy_svc y) = 1024"
  using assms unfolding dd_reachable_def
proof (induction rule: rtranclp_induct)
  case base
  show ?case
    by (simp add: dd_inv_def initSystem_def NewDdDataService_fields pending_inv_def cache_inv_def done_ok_def)
next
  case (step y z)
  obtain now where now: "dd_step env u g now y z" using step(2) by blast
  then have "ds_maxPendingRequests (sy_svc z) = ds_maxPendingRequests (sy_svc y)"
    by cases (use SendSync_begin_wait SendSync_begin_return SendAsync_frame SendSync_finish_max in
        \<open>(force simp: ds_frame)+\<close>)
  with step now dd_step_inv show ?case by metis
qed

lemma dd_reachable_pending:
  assumes "dd_reachable env u g timeout acl y"
  shows "pending_inv (ds_pendingRequests (sy_svc y)) 1024 (sy_calls y)"
  using dd_reachable_inv [OF assms] unfolding dd_inv_def by metis

text \<open>The channel \<open>SendSyncAsync\<close> hands out gets exactly one result, that of \<open>SendSync\<close>, with
  either a response or an error, and the service ends up as after \<open>SendSync\<close>.\<close>

lemma SendSyncAsync_one_result:
  assumes "SendSyncAsync_begin env now s topic mo = (ch, s1, msg, out)"
  shows "case SendSync_begin env now s topic mo of
      (Some r, s', m', out') \<Rightarrow> ch = \<lparr>rc_buffer = [syncResult r], rc_closed = True\<rparr> \<and> s1 = s' \<and> out = out'
    | (None, s', m', out') \<Rightarrow> \<not> rc_closed ch \<and> rc_buffer ch = [] \<and> s1 = s' \<and> out = out' \<and>
        (\<forall>start t s2 ev. SendSyncAsync_finish start t s2 msg ev ch =
          (\<lparr>rc_buffer = [syncResult (fst (SendSync_finish start t s2 m' ev))], rc_closed = True\<rparr>,
           snd (SendSync_finish start t s2 m' ev)))"
  using assms
  by (auto simp: SendSyncAsync_begin_def SendSyncAsync_finish_def sendClose_def case_prod_beta
      split: prod.splits option.splits)

lemma syncResult_either: "(sres_Response (syncResult r) = None) = (sres_Err (syncResult r) \<noteq> None)"
  by (simp add: syncResult_def split: sum.split)

section \<open>More on single calls\<close>

lemma setters_header [simp]:
  "reqId (setTrace m) = reqId m" "reqId (setCreated now m) = reqId m" "reqId (setTimeout s m) = reqId m"
  "m_Mode (setTrace m) = m_Mode m" "m_Mode (setCreated now m) = m_Mode m" "m_Mode (setTimeout s m) = m_Mode m"
  by (simp_all add: setTrace_def setCreated_def setTimeout_def)

lemma reqId_Normalize: "reqId m \<noteq> [] \<Longrightarrow> reqId (Normalize m) = reqId m"
  by (auto simp: Normalize_Header isHeaderZero_def zeroHeader_def)

lemma reqId_syncPrepare:
  "reqId (Normalize msg) \<noteq> [] \<Longrightarrow> reqId (syncPrepare s now msg) = reqId (Normalize msg)"
  unfolding syncPrepare_def by (subst reqId_Normalize) simp_all

lemma GetTransferStatus_recordStatus:
  "GetTransferStatus (recordStatus now k m st l s) j =
    (if j = k then Some ((case GetTransferStatus s k of Some rec \<Rightarrow> rec
        | None \<Rightarrow> \<lparr>tr_RequestId = k, tr_Resource = m_Resource m, tr_Protocol = m_Protocol m,
             tr_Mode = m_Mode m, tr_SourcePeerId = h_SourcePeerId (m_Header m),
             tr_TargetPeerId = h_TargetPeerId (m_Header m), tr_Status = [], tr_LatencyMs = 0,
             tr_CreatedAt = now, tr_UpdatedAt = 0\<rparr>)\<lparr>tr_Status := st, tr_LatencyMs := l, tr_UpdatedAt := now\<rparr>)
     else GetTransferStatus s j)"
  by (simp add: GetTransferStatus_def recordStatus_def Let_def gomap_simps)

lemma idempotentTtl_ge: "Minute \<le> idempotentTtl msg"
  by (simp add: idempotentTtl_def Let_def)

lemma pending_inv_iff_calls:
  "pending_inv p n calls \<Longrightarrow> length calls = length p \<and> distinct (map (\<lambda>c. reqId (fst c)) calls) \<and>
     (\<forall>c \<in> set calls. reqId (fst c) \<in> fst ` set p)"
  unfolding pending_inv_def wf_gomap_def
  by (metis (no_types, lifting) image_eqI length_map mset_eq_imp_distinct_iff mset_eq_length mset_eq_setD set_map)

text \<open>A concrete environment and request, for the witnesses.\<close>

definition okEnv :: DataEnv where
  "okEnv = \<lparr>en_marshal = \<lambda>m. Inr [1], en_gzip = Inr, en_publish = \<lambda>t d. None\<rparr>"

definition pingMsg :: DdMessage where
  "pingMsg = zeroMessage\<lparr>m_Protocol := DdProtocolMq, m_Resource := ''ping'', m_CreatedAt := 5,
     m_Header := zeroHeader\<lparr>h_RequestId := ''r1'', h_SourcePeerId := ''edge-1'', h_TimeoutMs := 100,
       h_IdempotencyKey := ''k1''\<rparr>\<rparr>"

definition pongMsg :: DdMessage where
  "pongMsg = zeroMessage\<lparr>m_Resource := ''ping'', m_Header := zeroHeader\<lparr>h_CorrelationId := ''r1''\<rparr>\<rparr>"

definition pingCall :: "(go_error + DdMessage) option \<times> DdDataService \<times> DdMessage \<times> outbox" where
  "pingCall = SendSync_begin okEnv 7 (NewDdDataService 1000 []) ''t'' (Some pingMsg)"

definition pingWaiting :: DdSystem where
  "pingWaiting = (case pingCall of (r, s, msg, out) \<Rightarrow>
     \<lparr>sy_svc = s, sy_calls = [(msg, 7)], sy_done = []\<rparr>)"

definition unmarshalPong :: "bytes \<Rightarrow> DdMessage \<Rightarrow> go_error + DdMessage" where
  "unmarshalPong d out = Inr pongMsg"

lemma pingCall_waits: "fst pingCall = None"
  by code_simp

lemma pingWaiting_calls:
  "sy_calls pingWaiting = [(fst (snd (snd pingCall)), 7)]" "sy_done pingWaiting = []"
  by (simp_all add: pingWaiting_def case_prod_unfold)

lemma pingWaiting_reachable: "dd_reachable okEnv unmarshalPong Inr 1000 None pingWaiting"
proof -
  let ?y = "initSystem (NewDdDataService 1000 [])"
  obtain s msg out where c: "pingCall = (None, s, msg, out)"
    using pingCall_waits by (metis prod.collapse)
  then have "dd_step okEnv unmarshalPong Inr 7 ?y (?y\<lparr>sy_svc := s, sy_calls := sy_calls ?y @ [(msg, 7)]\<rparr>)"
    by (intro dd_step.wait) (simp add: pingCall_def initSystem_def)
  then show ?thesis
    by (auto simp: dd_reachable_def c pingWaiting_def initSystem_def intro!: r_into_rtranclp)
qed

definition pingAnswered :: DdSystem where
  "pingAnswered = (let msg = fst (hd (sy_calls pingWaiting));
       s1 = handleSyncResponse unmarshalPong Inr (sy_svc pingWaiting) [];
       (r, s2) = SendSync_finish 7 9 s1 msg (Responded (Normalize pongMsg))
     in \<lparr>sy_svc = s2, sy_calls = [], sy_done = [(msg, r)]\<rparr>)"

definition pingReplied :: DdSystem where
  "pingReplied = pingWaiting\<lparr>sy_svc := handleSyncResponse unmarshalPong Inr (sy_svc pingWaiting) []\<rparr>"

lemma pingAnswered_steps:
  "dd_step okEnv unmarshalPong Inr now pingWaiting pingReplied"
  "dd_step okEnv unmarshalPong Inr 9 pingReplied pingAnswered"
proof -
  show "dd_step okEnv unmarshalPong Inr now pingWaiting pingReplied"
    unfolding pingReplied_def by (rule dd_step.reply)
  obtain msg where calls: "sy_calls pingReplied = [(msg, 7)]" "sy_done pingReplied = []"
    "sy_calls pingWaiting = [(msg, 7)]"
    by (simp add: pingWaiting_calls pingReplied_def)
  obtain r s2 where f: "SendSync_finish 7 9 (sy_svc pingReplied) msg (Responded (Normalize pongMsg)) = (r, s2)"
    by fastforce
  have "selectReady (sy_svc pingReplied) 7 9 (fst (hd (sy_calls pingWaiting))) (Responded (Normalize pongMsg))"
    by code_simp
  then have "dd_step okEnv unmarshalPong Inr 9 pingReplied (pingReplied\<lparr>sy_svc := s2,
      sy_calls := remove1 (msg, 7) (sy_calls pingReplied), sy_done := sy_done pingReplied @ [(msg, r)]\<rparr>)"
    using calls f by (intro dd_step.ends) simp_all
  moreover have "pingReplied\<lparr>sy_svc := s2,
      sy_calls := remove1 (msg, 7) (sy_calls pingReplied), sy_done := sy_done pingReplied @ [(msg, r)]\<rparr> = pingAnswered"
    using calls f by (simp add: pingAnswered_def pingReplied_def Let_def)
  ultimately show "dd_step okEnv unmarshalPong Inr 9 pingReplied pingAnswered" by simp
qed

lemma dd_reachable_step:
  "dd_reachable env u g timeout acl y \<Longrightarrow> dd_step env u g now y y' \<Longrightarrow> dd_reachable env u g timeout acl y'"
  unfolding dd_reachable_def by (rule rtranclp.rtrancl_into_rtrancl) blast+

lemma pingAnswered_reachable: "dd_reachable okEnv unmarshalPong Inr 1000 None pingAnswered"
  using pingWaiting_reachable pingAnswered_steps dd_reachable_step by metis

lemma send_refused:
  assumes "ds_aclService s = Some acl"
    "\<not> Authorize acl (h_SourcePeerId (m_Header (Normalize msg))) ''pub'' topic"
  shows "(\<exists>s' msg'. SendSync_begin env now s topic (Some msg) =
        (Some (Inl (ErrAclDeniedMsg (h_SourcePeerId (m_Header (Normalize msg))) ''pub'' topic)), s', msg', []) \<and>
      ds_pendingRequests s' = ds_pendingRequests s \<and> ds_idempotentKeys s' = ds_idempotentKeys s \<and>
      ds_transferStatuses s' = ds_transferStatuses s) \<and>
    (\<exists>s'. SendAsync env now s topic (Some msg) =
        (Some (ErrAclDeniedMsg (h_SourcePeerId (m_Header (Normalize msg))) ''pub'' topic), s', []) \<and>
      ds_pendingRequests s' = ds_pendingRequests s \<and> ds_idempotentKeys s' = ds_idempotentKeys s \<and>
      ds_transferStatuses s' = ds_transferStatuses s)"
  using assms
  by (auto simp: SendSync_begin_def SendAsync_def Let_def checkAcl_def ds_frame)

section \<open>Runs in time\<close>

text \<open>An endless run: at every position the system stays as it is or makes a step at the time of that
  position, and time does not go back.\<close>

definition dd_run ::
  "DataEnv \<Rightarrow> (bytes \<Rightarrow> DdMessage \<Rightarrow> go_error + DdMessage) \<Rightarrow> (bytes \<Rightarrow> go_error + bytes) \<Rightarrow>
     duration \<Rightarrow> TopicAclService option \<Rightarrow> (nat \<Rightarrow> DdSystem) \<Rightarrow> (nat \<Rightarrow> gotime) \<Rightarrow> bool" where
  "dd_run env unmarshal gunzip timeout acl \<sigma> \<tau> \<longleftrightarrow> dd_reachable env unmarshal gunzip timeout acl (\<sigma> 0) \<and>
     (\<forall>i. \<tau> i \<le> \<tau> (Suc i) \<and> (\<sigma> (Suc i) = \<sigma> i \<or> dd_step env unmarshal gunzip (\<tau> i) (\<sigma> i) (\<sigma> (Suc i))))"

lemma dd_run_reachable:
  "dd_run env u g timeout acl \<sigma> \<tau> \<Longrightarrow> dd_reachable env u g timeout acl (\<sigma> i)"
  unfolding dd_run_def by (induction i) (blast, metis dd_reachable_step)

lemma dd_run_step:
  "dd_run env u g timeout acl \<sigma> \<tau> \<Longrightarrow> \<sigma> (Suc i) = \<sigma> i \<or> dd_step env u g (\<tau> i) (\<sigma> i) (\<sigma> (Suc i))"
  by (simp add: dd_run_def)

lemma dd_run_mono: "dd_run env u g timeout acl \<sigma> \<tau> \<Longrightarrow> i \<le> j \<Longrightarrow> \<tau> i \<le> \<tau> j"
  by (rule lift_Suc_mono_le) (simp_all add: dd_run_def)

text \<open>A waiting call leaves the table of calls by a branch its \<open>select\<close> was ready for, and frees its slot.\<close>

definition call_ended :: "gotime \<Rightarrow> DdMessage \<times> gotime \<Rightarrow> syncEvent \<Rightarrow> DdSystem \<Rightarrow> DdSystem \<Rightarrow> bool" where
  "call_ended now c ev y y' \<longleftrightarrow> c \<in> set (sy_calls y) \<and> selectReady (sy_svc y) (snd c) now (fst c) ev \<and>
     y' = y\<lparr>sy_svc := snd (SendSync_finish (snd c) now (sy_svc y) (fst c) ev),
       sy_calls := remove1 c (sy_calls y),
       sy_done := sy_done y @ [(fst c, fst (SendSync_finish (snd c) now (sy_svc y) (fst c) ev))]\<rparr>"

lemma call_gone_ended:
  assumes "dd_step env u g now y y'" "c \<in> set (sy_calls y)" "c \<notin> set (sy_calls y')"
  shows "\<exists>ev. call_ended now c ev y y'"
  using assms
proof cases
  case (ends msg start ev r s')
  then have "c = (msg, start)"
    using assms(2,3) by (cases "c = (msg, start)") auto
  with ends show ?thesis
    by (intro exI [of _ ev]) (simp add: call_ended_def)
qed auto

lemma call_ended_gone:
  assumes "dd_reachable env u g timeout acl y" "call_ended now c ev y y'"
  shows "c \<notin> set (sy_calls y')" "map_of (ds_pendingRequests (sy_svc y')) (reqId (fst c)) = None"
proof -
  have "distinct (sy_calls y)"
    using pending_inv_iff_calls [OF dd_reachable_pending [OF assms(1)]] by (simp add: distinct_map)
  with assms(2) show "c \<notin> set (sy_calls y')"
    by (auto simp: call_ended_def)
  show "map_of (ds_pendingRequests (sy_svc y')) (reqId (fst c)) = None"
    using assms(2) by (auto simp: call_ended_def SendSync_finish_pending gomap_simps)
qed

lemma selectReady_reply:
  assumes "dd_reachable env u g timeout acl y" "selectReady (sy_svc y) start now msg (Responded resp)"
  shows "replyId resp = reqId msg"
  using assms dd_reachable_pending [OF assms(1)]
  by (auto simp: selectReady_def pending_inv_def dest: map_of_SomeD)

text \<open>The scheduler fires a timer that stays due for ever while its call waits, sooner or later.\<close>

definition fair_timers :: "(nat \<Rightarrow> DdSystem) \<Rightarrow> (nat \<Rightarrow> gotime) \<Rightarrow> bool" where
  "fair_timers \<sigma> \<tau> \<longleftrightarrow> (\<forall>i c. (\<forall>j\<ge>i. c \<in> set (sy_calls (\<sigma> j)) \<and> timerDue (snd c) (\<tau> j) (fst c)) \<longrightarrow>
     (\<exists>j\<ge>i. call_ended (\<tau> j) c TimerFired (\<sigma> j) (\<sigma> (Suc j))))"

lemma call_leaves:
  assumes run: "dd_run env u g timeout acl \<sigma> \<tau>" "fair_timers \<sigma> \<tau>" "\<forall>t. \<exists>i. t \<le> \<tau> i"
    and waits: "c \<in> set (sy_calls (\<sigma> i))"
  shows "\<exists>k>i. c \<notin> set (sy_calls (\<sigma> k))"
proof (rule ccontr)
  assume "\<not> (\<exists>k>i. c \<notin> set (sy_calls (\<sigma> k)))"
  with waits have stays: "c \<in> set (sy_calls (\<sigma> j))" if "j \<ge> i" for j
    using that by (cases "j = i") auto
  obtain i0 where "snd c + dur (h_TimeoutMs (m_Header (fst c))) Millisecond \<le> \<tau> i0"
    using run(3) by blast
  then have "timerDue (snd c) (\<tau> j) (fst c)" if "j \<ge> i0" for j
    using dd_run_mono [OF run(1) that] by (simp add: timerDue_def)
  then obtain j where "j \<ge> max i i0" "call_ended (\<tau> j) c TimerFired (\<sigma> j) (\<sigma> (Suc j))"
    using run(2) stays unfolding fair_timers_def by (metis max.boundedE)
  then show False
    using call_ended_gone(1) [OF dd_run_reachable [OF run(1)]] stays [of "Suc j"] by auto
qed

text \<open>The access rules of the service stay what they are.\<close>

lemma acl_frame [ds_frame]:
  "ds_aclService (dropPending k s) = ds_aclService s"
  "ds_aclService (storeIdempotent now m r s) = ds_aclService s"
  "ds_aclService (sweepIdempotent now s) = ds_aclService s"
  "ds_aclService (sweepTransferStatuses now s) = ds_aclService s"
  "ds_aclService (handleSyncResponse u g s p) = ds_aclService s"
  by (auto simp: dropPending_def storeIdempotent_def sweepIdempotent_def sweepTransferStatuses_def handleSyncResponse_def
      Let_def split: sum.split option.split)

lemma SendAsync_acl: "SendAsync env now s topic mo = (e, s', out) \<Longrightarrow> ds_aclService s' = ds_aclService s"
  by (auto simp: SendAsync_def Let_def ds_frame dest!: checkAcl_frame split: option.splits prod.splits sum.splits)

lemma SendSync_begin_acl: "SendSync_begin env now s topic mo = (r, s', msg, out) \<Longrightarrow> ds_aclService s' = ds_aclService s"
  by (auto simp: SendSync_begin_def syncAdmit_def Let_def ds_frame dest!: checkAcl_frame
      split: option.splits prod.splits sum.splits if_splits)

lemma SendSync_finish_acl: "ds_aclService (snd (SendSync_finish start now s msg ev)) = ds_aclService s"
  by (simp add: SendSync_finish_def Let_def ds_frame split: syncEvent.split)

lemma dd_reachable_acl:
  assumes "dd_reachable env u g timeout acl y"
  shows "ds_aclService (sy_svc y) = acl"
  using assms unfolding dd_reachable_def
proof (induction rule: rtranclp_induct)
  case base
  show ?case by (simp add: initSystem_def NewDdDataService_def WithDataAclService_def split: option.split)
next
  case (step y z)
  then obtain now where "dd_step env u g now y z" by blast
  then have "ds_aclService (sy_svc z) = ds_aclService (sy_svc y)"
    by cases (auto simp: ds_frame dest: SendSync_begin_acl SendAsync_acl, metis SendSync_finish_acl snd_conv)
  with step show ?case by simp
qed

text \<open>What the cache holds for a key once a call with it was answered, as long as the cache is not over its limit:
  an entry for at least a minute, with a reply that some call with the key was given since.\<close>

definition replyKept :: "string \<Rightarrow> gotime \<Rightarrow> nat \<Rightarrow> DdSystem \<Rightarrow> bool" where
  "replyKept k until n y \<longleftrightarrow> n \<le> length (sy_done y) \<and> (\<exists>e m. map_of (ds_idempotentKeys (sy_svc y)) k = Some e \<and>
     until \<le> ie_expireAt e \<and> idemKey m = k \<and> (m, Inr (ie_response e)) \<in> set (drop n (sy_done y)))"

lemma replyKept_answer:
  assumes "idemKey msg \<noteq> []" "n = length (sy_done y)" "until \<le> now + Minute"
    "ds_idempotentKeys s' = ds_idempotentKeys (storeIdempotent now msg resp s0)"
  shows "replyKept (idemKey msg) until n (y\<lparr>sy_svc := s', sy_calls := calls, sy_done := sy_done y @ [(msg, Inr resp)]\<rparr>)"
  using assms idempotentTtl_ge [of msg]
  by (auto simp: replyKept_def storeIdempotent_def gomap_simps)

lemma sweepIdempotent_keeps:
  assumes "map_of (ds_idempotentKeys s) k = Some e" "now \<le> ie_expireAt e" "length (ds_idempotentKeys s) \<le> maxIdempotentKeys"
  shows "map_of (ds_idempotentKeys (sweepIdempotent now s)) k = Some e"
proof -
  let ?m = "filter (\<lambda>(key, entry). \<not> now > ie_expireAt entry) (ds_idempotentKeys s)"
  have "length ?m \<le> maxIdempotentKeys"
    using assms(3) length_filter_le order_trans by blast
  then have "evictOldest maxIdempotentKeys ?m = ?m"
    by (subst evictOldest.simps) simp
  moreover have "map_of (filter P m) k = Some e" if "map_of m k = Some e" "P (k, e)" for P and m :: "(string, idempotentEntry) gomap"
    using that by (induction m) (auto split: if_splits)
  then have "map_of ?m k = Some e" using assms(1,2) by simp
  ultimately show ?thesis by (simp add: sweepIdempotent_def Let_def)
qed

lemma replyKept_step:
  assumes "replyKept k until n y" "dd_step env u g now y y'" "until \<le> now + Minute" "now < until"
    "length (ds_idempotentKeys (sy_svc y)) \<le> maxIdempotentKeys" "k \<noteq> []"
  shows "replyKept k until n y'"
proof -
  have same: "replyKept k until n (y\<lparr>sy_svc := s', sy_calls := calls, sy_done := sy_done y @ new\<rparr>)"
    if "ds_idempotentKeys s' = ds_idempotentKeys (sy_svc y)" for s' calls new
    using assms(1) that by (fastforce simp: replyKept_def)
  have same': "replyKept k until n (y\<lparr>sy_svc := s'\<rparr>)" if "ds_idempotentKeys s' = ds_idempotentKeys (sy_svc y)" for s'
    using same [OF that, where calls = "sy_calls y" and new = "[]"] by simp
  show ?thesis
    using assms(2)
  proof cases
    case (wait topic mo s' msg out)
    with same [of s', where new = "[]"] SendSync_begin_wait [OF wait(2)] show ?thesis by simp
  next
    case (return topic mo r s' msg out)
    with same [of s', where calls = "sy_calls y"] SendSync_begin_return [OF return(2)] show ?thesis by simp
  next
    case (ends msg start ev r s')
    show ?thesis
    proof (cases "\<exists>resp. ev = Responded resp")
      case False
      then have "ds_idempotentKeys s' = ds_idempotentKeys (sy_svc y)"
        using ends(4) by (cases ev) (auto simp: SendSync_finish_def ds_frame)
      with same ends(1) show ?thesis by simp
    next
      case True
      then obtain resp s0 where resp: "ds_idempotentKeys s' = ds_idempotentKeys (storeIdempotent now msg resp s0)"
        "ds_idempotentKeys s0 = ds_idempotentKeys (sy_svc y)" "r = Inr resp"
        using ends(4) by (auto simp: SendSync_finish_def Let_def ds_frame)
      show ?thesis
      proof (cases "idemKey msg = k")
        case True
        have "replyKept k until (length (sy_done y)) y'"
          unfolding ends(1) resp(3) True [symmetric] by (rule replyKept_answer) (use assms(3,6) True resp in auto)
        then show ?thesis
          using assms(1) ends(1) by (fastforce simp: replyKept_def)
      next
        case False
        then have "map_of (ds_idempotentKeys s') k = map_of (ds_idempotentKeys (sy_svc y)) k"
          using resp(1,2) by (simp add: storeIdempotent_def gomap_simps)
        with assms(1) ends(1) show ?thesis by (fastforce simp: replyKept_def)
      qed
    qed
  next
    case sweep_keys
    with assms sweepIdempotent_keeps [of "sy_svc y" k _ now] show ?thesis
      by (fastforce simp: replyKept_def)
  qed (use same' in \<open>auto simp: ds_frame dest!: SendAsync_frame\<close>)
qed

section \<open>Properties\<close>

text \<open>
  C1: whatever the interleaving, the table of pending requests holds exactly one entry
  for each call that waits, never more than 1024, and no two waiting calls share a
  request id: a call that has returned by any path has left the table.
\<close>

theorem pending_exact:
  assumes "dd_reachable env unmarshal gunzip timeout acl y"
  shows "PendingRequestCount (sy_svc y) = length (sy_calls y) \<and>
    PendingRequestCount (sy_svc y) \<le> 1024 \<and>
    distinct (map (\<lambda>c. reqId (fst c)) (sy_calls y))"
  using dd_reachable_pending [OF assms] pending_inv_iff_calls [OF dd_reachable_pending [OF assms]]
  by (simp add: PendingRequestCount_def pending_inv_def)

theorem pending_exact_witness:
  "PendingRequestCount (sy_svc pingWaiting) = length (sy_calls pingWaiting) \<and>
    PendingRequestCount (sy_svc pingWaiting) \<le> 1024 \<and>
    distinct (map (\<lambda>c. reqId (fst c)) (sy_calls pingWaiting)) \<and> length (sy_calls pingWaiting) = 1"
  using pending_exact [OF pingWaiting_reachable] by (simp add: pingWaiting_calls)

text \<open>
  C11: no call waits for ever. In a run in which time goes on and the scheduler fires, sooner or later, a
  timer that is due while its call still waits, every call that waits at some moment comes to its end
  at a later one, whatever the rest of the system does meanwhile: by the reply in its channel, which
  then names its request, by its context, or by its timer, and by that not before its start plus the timeout of
  its message. It then has returned the result of that branch, and its slot in the table of pending requests is free.
\<close>

theorem waiting_calls_end:
  assumes "dd_run env unmarshal gunzip timeout acl \<sigma> \<tau>" "fair_timers \<sigma> \<tau>" "\<forall>t. \<exists>i. t \<le> \<tau> i"
    "(msg, start) \<in> set (sy_calls (\<sigma> i))"
  shows "\<exists>j\<ge>i. \<exists>ev. (msg, start) \<in> set (sy_calls (\<sigma> j)) \<and> (msg, start) \<notin> set (sy_calls (\<sigma> (Suc j))) \<and>
    (case ev of
       CtxDone err \<Rightarrow> True
     | TimerFired \<Rightarrow> start + dur (h_TimeoutMs (m_Header msg)) Millisecond \<le> \<tau> j
     | Responded resp \<Rightarrow> replyId resp = reqId msg \<and>
         map_of (ds_pendingRequests (sy_svc (\<sigma> j))) (reqId msg) = Some (Some resp)) \<and>
    sy_done (\<sigma> (Suc j)) = sy_done (\<sigma> j) @ [(msg, fst (SendSync_finish start (\<tau> j) (sy_svc (\<sigma> j)) msg ev))] \<and>
    map_of (ds_pendingRequests (sy_svc (\<sigma> (Suc j)))) (reqId msg) = None"
proof -
  let ?gone = "\<lambda>k. k > i \<and> (msg, start) \<notin> set (sy_calls (\<sigma> k))"
  obtain k where k: "?gone k" "\<And>l. ?gone l \<Longrightarrow> k \<le> l"
    using call_leaves [OF assms] LeastI_ex [of ?gone] Least_le [of ?gone] by blast
  then obtain j where j: "k = Suc j" "j \<ge> i" by (cases k) auto
  with k(2) [of j] assms(4) have waits: "(msg, start) \<in> set (sy_calls (\<sigma> j))"
    by (cases "j = i") auto
  note reach = dd_run_reachable [OF assms(1), of j]
  obtain ev where "call_ended (\<tau> j) (msg, start) ev (\<sigma> j) (\<sigma> (Suc j))"
    using dd_run_step [OF assms(1), of j] waits k(1) j call_gone_ended by metis
  moreover note call_ended_gone [OF reach this]
  ultimately show ?thesis
    using j(2) waits selectReady_reply [OF reach]
    by (intro exI [of _ j] conjI exI [of _ ev])
      (auto simp: call_ended_def selectReady_def timerDue_def split: syncEvent.splits)
qed

text \<open>The waiting call of above, when no reply comes.\<close>

definition pingTimedOut :: DdSystem where
  "pingTimedOut = (let msg = fst (hd (sy_calls pingWaiting)); (r, s) = SendSync_finish 7 100000007 (sy_svc pingWaiting) msg TimerFired
     in \<lparr>sy_svc = s, sy_calls = [], sy_done = [(msg, r)]\<rparr>)"

lemma pingTimedOut_step: "dd_step okEnv unmarshalPong Inr 100000007 pingWaiting pingTimedOut"
proof -
  obtain msg where calls: "sy_calls pingWaiting = [(msg, 7)]" "sy_done pingWaiting = []"
    by (simp add: pingWaiting_calls)
  have "selectReady (sy_svc pingWaiting) 7 100000007 (fst (hd (sy_calls pingWaiting))) TimerFired"
    by code_simp
  then have "dd_step okEnv unmarshalPong Inr 100000007 pingWaiting (pingWaiting\<lparr>
      sy_svc := snd (SendSync_finish 7 100000007 (sy_svc pingWaiting) msg TimerFired),
      sy_calls := remove1 (msg, 7) (sy_calls pingWaiting),
      sy_done := sy_done pingWaiting @ [(msg, fst (SendSync_finish 7 100000007 (sy_svc pingWaiting) msg TimerFired))]\<rparr>)"
    using calls by (intro dd_step.ends) simp_all
  moreover have "pingWaiting\<lparr>sy_svc := s, sy_calls := c, sy_done := d\<rparr> = \<lparr>sy_svc = s, sy_calls = c, sy_done = d\<rparr>" for s c d
    by simp
  ultimately show ?thesis
    using calls by (simp add: pingTimedOut_def case_prod_unfold Let_def)
qed

definition pingRun :: "nat \<Rightarrow> DdSystem" where
  "pingRun j = (case j of 0 \<Rightarrow> pingWaiting | Suc k \<Rightarrow> pingTimedOut)"

lemma pingRun_run:
  "dd_run okEnv unmarshalPong Inr 1000 None pingRun (\<lambda>j. 100000007 + int j)" "fair_timers pingRun (\<lambda>j. 100000007 + int j)"
proof -
  show "dd_run okEnv unmarshalPong Inr 1000 None pingRun (\<lambda>j. 100000007 + int j)"
    using pingWaiting_reachable pingTimedOut_step by (auto simp: dd_run_def pingRun_def split: nat.split)
  show "fair_timers pingRun (\<lambda>j. 100000007 + int j)"
    unfolding fair_timers_def
  proof (intro allI impI)
    fix i c assume "\<forall>j\<ge>i. c \<in> set (sy_calls (pingRun j)) \<and> timerDue (snd c) (100000007 + int j) (fst c)"
    from spec [OF this, of "Suc i"] have "c \<in> set (sy_calls pingTimedOut)" by (simp add: pingRun_def)
    then show "\<exists>j\<ge>i. call_ended (100000007 + int j) c TimerFired (pingRun j) (pingRun (Suc j))"
      by (simp add: pingTimedOut_def case_prod_unfold Let_def)
  qed
qed

theorem waiting_calls_end_witness:
  "\<exists>j. (fst (snd (snd pingCall)), 7) \<in> set (sy_calls (pingRun j)) \<and> (fst (snd (snd pingCall)), 7) \<notin> set (sy_calls (pingRun (Suc j))) \<and>
    map_of (ds_pendingRequests (sy_svc (pingRun (Suc j)))) ''r1'' = None"
proof -
  have "\<forall>t. \<exists>i. t \<le> 100000007 + int i"
  proof
    fix t show "\<exists>i. t \<le> 100000007 + int i" by (rule exI [of _ "nat t"]) simp
  qed
  moreover have "(fst (snd (snd pingCall)), 7) \<in> set (sy_calls (pingRun 0))"
    by (simp add: pingRun_def pingWaiting_calls)
  ultimately obtain j where j: "(fst (snd (snd pingCall)), 7) \<in> set (sy_calls (pingRun j))"
    "(fst (snd (snd pingCall)), 7) \<notin> set (sy_calls (pingRun (Suc j)))"
    "map_of (ds_pendingRequests (sy_svc (pingRun (Suc j)))) (reqId (fst (snd (snd pingCall)))) = None"
    using waiting_calls_end [OF pingRun_run, of "fst (snd (snd pingCall))" 7 0] by blast
  moreover have "reqId (fst (snd (snd pingCall))) = ''r1''" by code_simp
  ultimately show ?thesis by auto
qed

text \<open>
  C2: a call is only ever given a reply that names its own request id, or, when it
  has an idempotency key, the reply that a call with the same key was given before and
  that names the request id of that call. Replies are never handed to another request.
\<close>

theorem reply_correlated:
  assumes "dd_reachable env unmarshal gunzip timeout acl y" "(msg, Inr resp) \<in> set (sy_done y)"
  shows "replyId resp = reqId msg \<or>
    idemKey msg \<noteq> [] \<and> (\<exists>msg0. (msg0, Inr resp) \<in> set (sy_done y) \<and>
      idemKey msg0 = idemKey msg \<and> replyId resp = reqId msg0)"
  using dd_reachable_inv [OF assms(1)] assms(2) by (fastforce simp: dd_inv_def done_ok_def own_reply_def)

theorem reply_correlated_witness:
  "\<exists>msg. (msg, Inr (Normalize pongMsg)) \<in> set (sy_done pingAnswered) \<and>
    (replyId (Normalize pongMsg) = reqId msg \<or> idemKey msg \<noteq> [] \<and>
      (\<exists>msg0. (msg0, Inr (Normalize pongMsg)) \<in> set (sy_done pingAnswered) \<and>
         idemKey msg0 = idemKey msg \<and> replyId (Normalize pongMsg) = reqId msg0))"
proof -
  have "sy_done pingAnswered = [(fst (hd (sy_calls pingWaiting)), Inr (Normalize pongMsg))]"
    by (simp add: pingAnswered_def SendSync_finish_def Let_def)
  then have "(fst (hd (sy_calls pingWaiting)), Inr (Normalize pongMsg)) \<in> set (sy_done pingAnswered)"
    by simp
  with reply_correlated [OF pingAnswered_reachable this] show ?thesis by blast
qed

text \<open>
  C9: a peer the access rules do not authorise to publish on a topic gets nothing out:
  both send operations return the ACL error, publish nothing, and leave the pending
  table, the cache and the transfer records as they were.
\<close>

theorem send_denied:
  assumes "ds_aclService s = Some acl"
    "\<not> Authorize acl (h_SourcePeerId (m_Header (Normalize msg))) ''pub'' topic"
  shows "(\<exists>s' msg'. SendSync_begin env now s topic (Some msg) =
        (Some (Inl (ErrAclDeniedMsg (h_SourcePeerId (m_Header (Normalize msg))) ''pub'' topic)), s', msg', []) \<and>
      ds_pendingRequests s' = ds_pendingRequests s \<and> ds_idempotentKeys s' = ds_idempotentKeys s \<and>
      ds_transferStatuses s' = ds_transferStatuses s) \<and>
    (\<exists>s'. SendAsync env now s topic (Some msg) =
        (Some (ErrAclDeniedMsg (h_SourcePeerId (m_Header (Normalize msg))) ''pub'' topic), s', []) \<and>
      ds_pendingRequests s' = ds_pendingRequests s \<and> ds_idempotentKeys s' = ds_idempotentKeys s \<and>
      ds_transferStatuses s' = ds_transferStatuses s)"
  using send_refused [OF assms] .

definition closedService :: DdDataService where
  "closedService = NewDdDataService 1000 [WithDataAclService NewTopicAclService]"

theorem send_denied_witness:
  "(\<exists>s' msg'. SendSync_begin okEnv 7 closedService ''t'' (Some pingMsg) =
        (Some (Inl (ErrAclDeniedMsg (h_SourcePeerId (m_Header (Normalize pingMsg))) ''pub'' ''t'')), s', msg', []) \<and>
      ds_pendingRequests s' = ds_pendingRequests closedService \<and>
      ds_idempotentKeys s' = ds_idempotentKeys closedService \<and>
      ds_transferStatuses s' = ds_transferStatuses closedService) \<and>
    (\<exists>s'. SendAsync okEnv 7 closedService ''t'' (Some pingMsg) =
        (Some (ErrAclDeniedMsg (h_SourcePeerId (m_Header (Normalize pingMsg))) ''pub'' ''t''), s', []) \<and>
      ds_pendingRequests s' = ds_pendingRequests closedService \<and>
      ds_idempotentKeys s' = ds_idempotentKeys closedService \<and>
      ds_transferStatuses s' = ds_transferStatuses closedService)"
  by (rule send_denied [where acl = NewTopicAclService]) code_simp+

text \<open>
  C10: replays of an answered call. Take a run and a call with an idempotency key that ends with a reply. For a
  minute from then (whatever timeout the message asked for, and even when the product of the timeout
  overflows) a call with the same key that the access rules let through is answered from the cache, with
  nothing published, whatever happened in between, provided that no sweep found the cache over its limit of 10000
  entries. The answer is a reply that a call with the key was given since; when all of these were given the same
  one, it is that.
\<close>

theorem idempotent_replay:
  assumes run: "dd_run env unmarshal gunzip timeout acl \<sigma> \<tau>"
    and answered: "call_ended (\<tau> i) (msg, start) (Responded resp) (\<sigma> i) (\<sigma> (Suc i))"
    and key: "idemKey msg \<noteq> []" "idemKey (Normalize msg2) = idemKey msg"
    and later: "i < j" "\<tau> j < \<tau> i + Minute"
    and room: "\<forall>k. i < k \<and> k < j \<longrightarrow> length (ds_idempotentKeys (sy_svc (\<sigma> k))) \<le> maxIdempotentKeys"
    and allowed: "pred_option (\<lambda>a. Authorize a (h_SourcePeerId (m_Header (Normalize msg2))) ''pub'' topic) acl"
  shows "\<exists>r s' msg'. SendSync_begin env (\<tau> j) (sy_svc (\<sigma> j)) topic (Some msg2) = (Some (Inr r), s', msg', []) \<and>
    (let given = {r. \<exists>m. idemKey m = idemKey msg \<and> (m, Inr r) \<in> set (drop (length (sy_done (\<sigma> i))) (sy_done (\<sigma> j)))} in
      resp \<in> given \<and> r \<in> given \<and> (given = {resp} \<longrightarrow> r = resp))"
proof -
  let ?n = "length (sy_done (\<sigma> i))" and ?until = "\<tau> i + Minute"
  obtain s' s0 where "\<sigma> (Suc i) = (\<sigma> i)\<lparr>sy_svc := s', sy_calls := remove1 (msg, start) (sy_calls (\<sigma> i)),
      sy_done := sy_done (\<sigma> i) @ [(msg, Inr resp)]\<rparr>"
    "ds_idempotentKeys s' = ds_idempotentKeys (storeIdempotent (\<tau> i) msg resp s0)"
    using answered by (auto simp: call_ended_def SendSync_finish_def Let_def ds_frame)
  then have start: "replyKept (idemKey msg) ?until ?n (\<sigma> (Suc i)) \<and> (msg, Inr resp) \<in> set (drop ?n (sy_done (\<sigma> (Suc i))))"
    using replyKept_answer [OF key(1) refl order.refl] by simp
  have "j \<ge> Suc i" using later(1) by simp
  then have "replyKept (idemKey msg) ?until ?n (\<sigma> j) \<and> (msg, Inr resp) \<in> set (drop ?n (sy_done (\<sigma> j)))"
    using later(2) room
  proof (induction j rule: dec_induct)
    case base
    show ?case by (rule start)
  next
    case (step k)
    have times: "\<tau> i \<le> \<tau> k" "\<tau> k \<le> \<tau> (Suc k)"
      using dd_run_mono [OF run] step(1) by simp_all
    with step have IH: "replyKept (idemKey msg) ?until ?n (\<sigma> k)" "(msg, Inr resp) \<in> set (drop ?n (sy_done (\<sigma> k)))" by auto
    have "replyKept (idemKey msg) ?until ?n (\<sigma> (Suc k))"
      using dd_run_step [OF run, of k] replyKept_step [OF IH(1), of env unmarshal gunzip "\<tau> k"] IH(1) times step key(1) by auto
    moreover have "\<exists>new. sy_done (\<sigma> (Suc k)) = sy_done (\<sigma> k) @ new"
      using dd_run_step [OF run, of k] by (auto elim: dd_step.cases)
    ultimately show ?case
      using IH by (auto simp: replyKept_def)
  qed
  then obtain e m where e: "map_of (ds_idempotentKeys (sy_svc (\<sigma> j))) (idemKey msg) = Some e" "?until \<le> ie_expireAt e"
    "idemKey m = idemKey msg" "(m, Inr (ie_response e)) \<in> set (drop ?n (sy_done (\<sigma> j)))" "(msg, Inr resp) \<in> set (drop ?n (sy_done (\<sigma> j)))"
    by (auto simp: replyKept_def)
  have "checkAcl (sy_svc (\<sigma> j)) (h_SourcePeerId (m_Header (Normalize msg2))) ''pub'' topic = (None, sy_svc (\<sigma> j))"
    using allowed dd_reachable_acl [OF dd_run_reachable [OF run, of j]] by (cases acl) (simp_all add: checkAcl_None)
  moreover have "lookupIdempotent (sy_svc (\<sigma> j)) (\<tau> j) (Normalize msg2) = Some (ie_response e)"
    using key later(2) e(1,2) by (simp add: lookupIdempotent_def)
  ultimately have "\<exists>s' msg'. SendSync_begin env (\<tau> j) (sy_svc (\<sigma> j)) topic (Some msg2) = (Some (Inr (ie_response e)), s', msg', [])"
    by (simp add: SendSync_begin_def Let_def)
  with e(3-5) show ?thesis
    unfolding Let_def by blast
qed

lemma pingAnswered_ended:
  "call_ended 9 (fst (snd (snd pingCall)), 7) (Responded (Normalize pongMsg)) pingReplied pingAnswered"
proof -
  have "selectReady (sy_svc pingReplied) 7 9 (fst (snd (snd pingCall))) (Responded (Normalize pongMsg))"
    by code_simp
  then show ?thesis
    by (simp add: call_ended_def pingReplied_def pingAnswered_def pingWaiting_calls Let_def case_prod_unfold)
qed

theorem idempotent_replay_witness:
  "\<exists>r s' msg'. SendSync_begin okEnv 59000000000 (sy_svc pingAnswered) ''t'' (Some pingMsg) = (Some (Inr r), s', msg', [])"
proof -
  let ?\<sigma> = "\<lambda>j :: nat. if j = 0 then pingReplied else pingAnswered" and ?\<tau> = "\<lambda>j :: nat. if j = 0 then 9 else 59000000000 :: gotime"
  have "dd_run okEnv unmarshalPong Inr 1000 None ?\<sigma> ?\<tau>"
    using pingAnswered_steps pingWaiting_reachable dd_reachable_step by (auto simp: dd_run_def)
  moreover have "call_ended (?\<tau> 0) (fst (snd (snd pingCall)), 7) (Responded (Normalize pongMsg)) (?\<sigma> 0) (?\<sigma> (Suc 0))"
    using pingAnswered_ended by simp
  moreover have "idemKey (fst (snd (snd pingCall))) \<noteq> []" "idemKey (Normalize pingMsg) = idemKey (fst (snd (snd pingCall)))"
    by code_simp+
  ultimately show ?thesis
    using idempotent_replay [of okEnv unmarshalPong Inr 1000 None ?\<sigma> ?\<tau> 0 "fst (snd (snd pingCall))" 7 "Normalize pongMsg" pingMsg 1 "''t''"]
    by (auto simp: Minute_def)
qed

text \<open>
  A waiting call that ends, by its context, its timer or a reply, frees exactly its own
  slot: the count drops by one, every other waiter keeps its channel, and a reply for
  the ended call that arrives later changes nothing.
\<close>

lemma wait_releases_slot:
  assumes "dd_reachable env unmarshal gunzip timeout acl y" "(msg, start) \<in> set (sy_calls y)"
  shows "(let s' = snd (SendSync_finish start now (sy_svc y) msg ev) in
     PendingRequestCount s' = PendingRequestCount (sy_svc y) - 1 \<and>
     map_of (ds_pendingRequests s') = (map_of (ds_pendingRequests (sy_svc y)))(reqId msg := None) \<and>
     (\<forall>payload reply. DecodeDdMessage unmarshal gunzip payload zeroMessage = Inr reply \<and>
        replyId reply = reqId msg \<longrightarrow> handleSyncResponse unmarshal gunzip s' payload = s'))"
proof -
  note p = dd_reachable_pending [OF assms(1)]
  have "reqId msg \<in> fst ` set (ds_pendingRequests (sy_svc y))"
    using assms(2) pending_inv_iff_calls [OF p] by (metis fst_conv)
  moreover have "wf_gomap (ds_pendingRequests (sy_svc y))"
    using p by (simp add: pending_inv_def)
  ultimately show ?thesis
    by (auto simp: Let_def PendingRequestCount_def SendSync_finish_pending gomap_simps length_gm_del
        handleSyncResponse_def)
qed

text \<open>
  C36: the sweep of the idempotency cache removes every expired entry; if more than 10000
  are left it removes the ones that expire first, down to exactly 10000, and it adds
  nothing. (No key is empty: \<open>storeIdempotent\<close> never files one.)
\<close>

theorem sweepIdempotent_keeps_newest:
  assumes "wf_gomap (ds_idempotentKeys s)" "[] \<notin> fst ` set (ds_idempotentKeys s)"
  shows "(let live = {(k, e). (k, e) \<in> set (ds_idempotentKeys s) \<and> now \<le> ie_expireAt e};
              kept = ds_idempotentKeys (sweepIdempotent now s) in
     wf_gomap kept \<and> set kept \<subseteq> live \<and> length kept = min maxIdempotentKeys (card live) \<and>
     (\<forall>(k, e) \<in> live - set kept. \<forall>(k', e') \<in> set kept. ie_expireAt e \<le> ie_expireAt e'))"
proof -
  let ?m = "filter (\<lambda>(key, entry). \<not> now > ie_expireAt entry) (ds_idempotentKeys s)"
  have live: "{(k, e). (k, e) \<in> set (ds_idempotentKeys s) \<and> now \<le> ie_expireAt e} = set ?m"
    by auto
  have wf: "wf_gomap ?m"
    using assms(1) by (rule wf_gomap_filter)
  then have card: "card (set ?m) = length ?m"
    by (intro distinct_card) (auto simp: wf_gomap_def distinct_map)
  have kept: "ds_idempotentKeys (sweepIdempotent now s) = evictOldest maxIdempotentKeys ?m"
    by (simp add: sweepIdempotent_def Let_def)
  have "[] \<notin> fst ` set ?m"
    using assms(2) by auto
  from evictOldest_spec [OF wf this] wf_evictOldest [OF wf] evictOldest_subset show ?thesis
    unfolding Let_def live card kept by blast
qed

definition cachedService :: DdDataService where
  "cachedService = (NewDdDataService 1000 [])\<lparr>ds_idempotentKeys :=
     [(''a'', \<lparr>ie_response = pongMsg, ie_expireAt = 5\<rparr>), (''b'', \<lparr>ie_response = pongMsg, ie_expireAt = 9\<rparr>)]\<rparr>"

theorem sweepIdempotent_keeps_newest_witness:
  "(let live = {(k, e). (k, e) \<in> set (ds_idempotentKeys cachedService) \<and> 7 \<le> ie_expireAt e};
              kept = ds_idempotentKeys (sweepIdempotent 7 cachedService) in
     wf_gomap kept \<and> set kept \<subseteq> live \<and> length kept = min maxIdempotentKeys (card live) \<and>
     (\<forall>(k, e) \<in> live - set kept. \<forall>(k', e') \<in> set kept. ie_expireAt e \<le> ie_expireAt e'))"
  by (rule sweepIdempotent_keeps_newest) (simp_all add: cachedService_def wf_gomap_def)

text \<open>
  A second request under an id that is still pending is refused with the duplicate
  error, nothing is published and the first waiter is untouched. The transfer record of
  the id, however, is reset: it reads accepted although the first request is in flight.
\<close>

lemma duplicate_request_rejected:
  assumes "ds_aclService s = None" "idemKey (Normalize msg) = []"
    "length (ds_pendingRequests s) < ds_maxPendingRequests s"
    "reqId (Normalize msg) \<noteq> []"
    "map_of (ds_pendingRequests s) (reqId (Normalize msg)) = Some ch"
    "fst (validateMessage (setTrace (setTimeout s (setCreated now
       ((Normalize msg)\<lparr>m_Mode := DdTransferModeSync\<rparr>))))) = None"
  shows "\<exists>s' msg' rec. SendSync_begin env now s topic (Some msg) =
      (Some (Inl (ErrDuplicateRequestMsg (reqId (Normalize msg)))), s', msg', []) \<and>
    ds_pendingRequests s' = ds_pendingRequests s \<and>
    GetTransferStatus s' (reqId (Normalize msg)) = Some rec \<and> tr_Status rec = TransferStatusAccepted"
proof -
  let ?m = "setTrace (setTimeout s (setCreated now ((Normalize msg)\<lparr>m_Mode := DdTransferModeSync\<rparr>)))"
  have v: "validateMessage ?m = (None, syncPrepare s now msg)"
    using assms(6) validateMessage_msg [of ?m] by (metis prod.collapse syncPrepare_def)
  have "SendSync_begin env now s topic (Some msg) =
      syncAdmit env now (recordStatus now (reqId (syncPrepare s now msg)) (syncPrepare s now msg)
         TransferStatusAccepted 0 s) topic (syncPrepare s now msg)"
    using assms(1,2,4) v by (simp add: SendSync_begin_def Let_def checkAcl_def lookupIdempotent_def)
  with assms(3-5) show ?thesis
    by (simp add: syncAdmit_def ds_frame reqId_syncPrepare GetTransferStatus_recordStatus)
qed

end
