(* ===== verification/Registry.thy ===== *)
theory Registry
  imports Dd_Model
begin

text \<open>
  Peer records (\<open>model/dd_peer_info.go\<close>) and the peer store: the interface
  \<open>registry.Store\<close> as the locale \<open>registry_store\<close>, and its in-memory implementation
  (\<open>registry/memory_store.go\<close>), interpreted as one.
\<close>

section \<open>Peers\<close>

definition PeerStatusRegistering :: string where [go_consts]: "PeerStatusRegistering = ''registering''"
definition PeerStatusActive :: string where [go_consts]: "PeerStatusActive = ''active''"
definition PeerStatusStale :: string where [go_consts]: "PeerStatusStale = ''stale''"
definition PeerStatusOffline :: string where [go_consts]: "PeerStatusOffline = ''offline''"

record ResourceMetaConstraint =
  c_Min :: "int option"
  c_Max :: "int option"
  c_Enum :: "string list"

record ResourceMetaSchema =
  s_Required :: "string list"
  s_Optional :: "string list"
  s_Constraints :: "(string, ResourceMetaConstraint) gomap"
  s_ProtocolMetaRequired :: "string list"

record DdPeerInfo =
  p_Id :: string
  p_Name :: string
  p_Role :: string
  p_Key :: string
  p_Secret :: string
  p_Status :: string
  p_Resources :: "string list"
  p_Capabilities :: "string list"
  p_ResourceSchemas :: "(string, ResourceMetaSchema) gomap"
  p_Tags :: "(string, string) gomap"
  p_LastHeartbeatAt :: gotime
  p_CreatedAt :: gotime
  p_UpdatedAt :: gotime

section \<open>The in-memory store\<close>

record MemoryStore =
  ms_peers :: "(string, DdPeerInfo) gomap"

definition NewMemoryStore :: MemoryStore where
  "NewMemoryStore = \<lparr>ms_peers = []\<rparr>"

definition Get :: "MemoryStore \<Rightarrow> string \<Rightarrow> DdPeerInfo option" where
  "Get s peerID = map_of (ms_peers s) peerID"

definition Set :: "MemoryStore \<Rightarrow> string \<Rightarrow> DdPeerInfo \<Rightarrow> MemoryStore" where
  "Set s peerID peer = s\<lparr>ms_peers := gm_set peerID peer (ms_peers s)\<rparr>"

definition Delete :: "MemoryStore \<Rightarrow> string \<Rightarrow> MemoryStore" where
  "Delete s peerID = s\<lparr>ms_peers := gm_del peerID (ms_peers s)\<rparr>"

definition List :: "MemoryStore \<Rightarrow> DdPeerInfo list" where
  "List s = map snd (ms_peers s)"

text \<open>The body of the sweep loop.\<close>

definition sweepPeer :: "gotime \<Rightarrow> duration \<Rightarrow> DdPeerInfo \<Rightarrow> DdPeerInfo" where
  "sweepPeer now leaseTTL peer =
     (if IsZero (p_LastHeartbeatAt peer) then peer
      else if time_sub now (p_LastHeartbeatAt peer) > leaseTTL
      then peer\<lparr>p_Status := ''stale'', p_UpdatedAt := now\<rparr>
      else peer)"

definition SweepStale :: "MemoryStore \<Rightarrow> gotime \<Rightarrow> duration \<Rightarrow> MemoryStore" where
  "SweepStale s now leaseTTL = s\<lparr>ms_peers := gm_map (sweepPeer now leaseTTL) (ms_peers s)\<rparr>"

section \<open>The contract of a store\<close>

locale registry_store =
  fixes get :: "'s \<Rightarrow> string \<Rightarrow> DdPeerInfo option"
    and put :: "'s \<Rightarrow> string \<Rightarrow> DdPeerInfo \<Rightarrow> 's"
    and del :: "'s \<Rightarrow> string \<Rightarrow> 's"
    and all :: "'s \<Rightarrow> DdPeerInfo list"
    and sweep :: "'s \<Rightarrow> gotime \<Rightarrow> duration \<Rightarrow> 's"
    and invar :: "'s \<Rightarrow> bool"
  assumes get_put: "get (put s k p) k' = (if k' = k then Some p else get s k')"
    and get_del: "get (del s k) k' = (if k' = k then None else get s k')"
    and get_sweep: "get (sweep s now ttl) k = map_option (sweepPeer now ttl) (get s k)"
    and finite_dom: "finite (dom (get s))"
    and all_get: "invar s \<Longrightarrow> mset (all s) = image_mset (\<lambda>k. the (get s k)) (mset_set (dom (get s)))"
    and invar_put: "invar s \<Longrightarrow> invar (put s k p)"
    and invar_del: "invar s \<Longrightarrow> invar (del s k)"
    and invar_sweep: "invar s \<Longrightarrow> invar (sweep s now ttl)"
begin

lemma in_all_iff: "invar s \<Longrightarrow> p \<in> set (all s) \<longleftrightarrow> (\<exists>k. get s k = Some p)"
proof -
  assume "invar s"
  then have "set (all s) = (\<lambda>k. the (get s k)) ` dom (get s)"
    using all_get [of s] finite_dom [of s] by (simp flip: set_mset_mset)
  then show ?thesis by force
qed

lemma length_all: "invar s \<Longrightarrow> length (all s) = card (dom (get s))"
  using all_get [of s] by (simp flip: size_mset)

text \<open>Entries filed under their own id stay so under every operation of a client that
  puts a peer under its id.\<close>

definition keyed :: "'s \<Rightarrow> bool" where
  "keyed s \<longleftrightarrow> (\<forall>k p. get s k = Some p \<longrightarrow> p_Id p = k)"

lemma keyed_put: "keyed s \<Longrightarrow> keyed (put s (p_Id p) p)"
  by (auto simp: keyed_def get_put)

lemma keyed_del: "keyed s \<Longrightarrow> keyed (del s k)"
  by (auto simp: keyed_def get_del)

lemma keyed_sweep: "keyed s \<Longrightarrow> keyed (sweep s now ttl)"
  by (auto simp: keyed_def get_sweep sweepPeer_def)

lemma del_put: "get (del (put s k p) k) = (get s)(k := None)"
  by (auto simp: get_put get_del)

end

definition wf_store :: "MemoryStore \<Rightarrow> bool" where
  "wf_store s \<longleftrightarrow> wf_gomap (ms_peers s)"

lemma gomap_values_mset:
  assumes "wf_gomap m"
  shows "mset (map snd m) = image_mset (\<lambda>k. the (map_of m k)) (mset_set (dom (map_of m)))"
proof -
  have "mset (map snd m) = mset (map (\<lambda>k. the (map_of m k)) (map fst m))"
    using assms by (intro arg_cong [of _ _ mset]) (auto simp: wf_gomap_def)
  also have "\<dots> = image_mset (\<lambda>k. the (map_of m k)) (mset (map fst m))"
    by (rule mset_map)
  also have "mset (map fst m) = mset_set (dom (map_of m))"
    using assms by (simp add: dom_map_of_conv_image_fst wf_gomap_def mset_set_set flip: set_map)
  finally show ?thesis .
qed

interpretation mem_store: registry_store Get Set Delete List SweepStale wf_store
proof
  fix s :: MemoryStore and k k' p now ttl
  show "Get (Set s k p) k' = (if k' = k then Some p else Get s k')"
    by (simp add: Get_def Set_def gomap_simps)
  show "Get (Delete s k) k' = (if k' = k then None else Get s k')"
    by (simp add: Get_def Delete_def gomap_simps)
  show "Get (SweepStale s now ttl) k = map_option (sweepPeer now ttl) (Get s k)"
    by (simp add: Get_def SweepStale_def gomap_simps)
  show "finite (dom (Get s))"
    by (simp add: Get_def [abs_def] finite_dom_map_of)
  show "wf_store s \<Longrightarrow> mset (List s) = image_mset (\<lambda>k. the (Get s k)) (mset_set (dom (Get s)))"
    unfolding wf_store_def List_def Get_def [abs_def] by (rule gomap_values_mset)
qed (simp_all add: wf_store_def Set_def Delete_def SweepStale_def)

end
