(* ===== verification/Peer_Registry.thy ===== *)
theory Peer_Registry
  imports Registry Acl Mq
begin

text \<open>
  The peer registry (\<open>service/peer_registry_service.go\<close>): the handlers of the five
  registry topics, the operations the HTTP API calls, the lease check of \<open>GetPeers\<close>
  and the merge of the providers' resource schemas.

  An operation takes the service state and the clock reading \<open>now\<close> (the readings of
  one operation are taken to be one instant) and returns the new state. \<open>json\<close> is a
  parameter: \<open>unmarshal\<close> gives \<open>None\<close> where \<open>json.Unmarshal\<close> fails, \<open>marshal\<close> gives
  the error or the bytes. \<open>publish\<close> is the client's \<open>Publish\<close>: its error, if any;
  what an operation publishes is returned as a list of topic and payload. The two
  Prometheus gauges the service sets are fields of its state.
\<close>

section \<open>State and events\<close>

record PeerRegistryService =
  pr_topics :: TopicSet
  pr_leaseTtl :: duration
  pr_store :: MemoryStore
  pr_aclService :: "TopicAclService option"
  pr_PeerActiveCount :: nat
  pr_PeerStaleCount :: nat

record DdPeerRegisterEvent =
  re_Peer :: DdPeerInfo

record DdPeerHeartbeatEvent =
  hb_PeerId :: string
  hb_Timestamp :: gotime

record DdPeerResourceReportEvent =
  rr_PeerId :: string
  rr_Role :: string
  rr_Timestamp :: gotime
  rr_Apis :: "(string, string) gomap list"
  rr_Topics :: "(string, string) gomap list"
  rr_Streams :: "(string, string) gomap list"
  rr_ResourceSchemas :: "(string, ResourceMetaSchema) gomap"

record DdPeerQueryRequest =
  q_RequestId :: string
  q_ReplyTo :: string
  q_Resource :: string

record DdPeerQueryResponse =
  qr_RequestId :: string
  qr_Peers :: "DdPeerInfo list"

definition NewPeerRegistryService ::
  "TopicSet \<Rightarrow> duration \<Rightarrow> (PeerRegistryService \<Rightarrow> PeerRegistryService) list \<Rightarrow> PeerRegistryService" where
  "NewPeerRegistryService topics leaseTtl opts =
     fold (\<lambda>opt s. opt s) opts
       \<lparr>pr_topics = topics, pr_leaseTtl = leaseTtl, pr_store = NewMemoryStore,
        pr_aclService = None, pr_PeerActiveCount = 0, pr_PeerStaleCount = 0\<rparr>"

definition WithAclService :: "TopicAclService \<Rightarrow> PeerRegistryService \<Rightarrow> PeerRegistryService" where
  "WithAclService acl s = s\<lparr>pr_aclService := Some acl\<rparr>"

definition WithRegistryStore :: "MemoryStore \<Rightarrow> PeerRegistryService \<Rightarrow> PeerRegistryService" where
  "WithRegistryStore store s = s\<lparr>pr_store := store\<rparr>"

fun containsString :: "string list \<Rightarrow> string \<Rightarrow> bool" where
  "containsString [] v = False"
| "containsString (s # arr) v = (if s = v then True else containsString arr v)"

definition syncPeerMetrics :: "PeerRegistryService \<Rightarrow> PeerRegistryService" where
  "syncPeerMetrics s =
    (let peers = List (pr_store s) in
     s\<lparr>pr_PeerActiveCount := length (filter (\<lambda>p. p_Status p = PeerStatusActive \<or>
          p_Status p = PeerStatusRegistering) peers),
       pr_PeerStaleCount := length (filter (\<lambda>p. p_Status p = PeerStatusStale) peers)\<rparr>)"

section \<open>The handlers\<close>

definition handleRegister ::
  "(bytes \<Rightarrow> DdPeerRegisterEvent option) \<Rightarrow> gotime \<Rightarrow> PeerRegistryService \<Rightarrow> bytes \<Rightarrow>
     PeerRegistryService" where
  "handleRegister unmarshal now s payload =
    (case unmarshal payload of
       None \<Rightarrow> s
     | Some evt \<Rightarrow>
         let peer = re_Peer evt;
             peer = peer\<lparr>p_Status := PeerStatusRegistering, p_LastHeartbeatAt := now,
               p_CreatedAt := (if IsZero (p_CreatedAt peer) then now else p_CreatedAt peer),
               p_UpdatedAt := now\<rparr>
         in syncPeerMetrics (s\<lparr>pr_store := Set (pr_store s) (p_Id peer) peer\<rparr>))"

definition handleHeartbeat ::
  "(bytes \<Rightarrow> DdPeerHeartbeatEvent option) \<Rightarrow> gotime \<Rightarrow> PeerRegistryService \<Rightarrow> bytes \<Rightarrow>
     PeerRegistryService" where
  "handleHeartbeat unmarshal now s payload =
    (case unmarshal payload of
       None \<Rightarrow> s
     | Some evt \<Rightarrow>
        (case Get (pr_store s) (hb_PeerId evt) of
           None \<Rightarrow> s
         | Some peer \<Rightarrow>
             let peer = peer\<lparr>p_LastHeartbeatAt :=
                   (if IsZero (hb_Timestamp evt) then now else hb_Timestamp evt),
                   p_Status := PeerStatusActive, p_UpdatedAt := now\<rparr>
             in s\<lparr>pr_store := Set (pr_store s) (hb_PeerId evt) peer\<rparr>))"

definition resourceNames :: "(string, string) gomap list \<Rightarrow> string list" where
  "resourceNames entries = filter (\<lambda>n. n \<noteq> []) (map (\<lambda>e. gm_str e ''name'') entries)"

definition handleResourceReport ::
  "(bytes \<Rightarrow> DdPeerResourceReportEvent option) \<Rightarrow> gotime \<Rightarrow> PeerRegistryService \<Rightarrow> bytes \<Rightarrow>
     PeerRegistryService" where
  "handleResourceReport unmarshal now s payload =
    (case unmarshal payload of
       None \<Rightarrow> s
     | Some evt \<Rightarrow>
        (case Get (pr_store s) (rr_PeerId evt) of
           None \<Rightarrow> s
         | Some peer \<Rightarrow>
             let resources = resourceNames (rr_Apis evt) @ resourceNames (rr_Topics evt)
                   @ resourceNames (rr_Streams evt);
                 peer = peer\<lparr>p_Resources := resources,
                   p_ResourceSchemas := (if length (rr_ResourceSchemas evt) > 0
                     then rr_ResourceSchemas evt else p_ResourceSchemas peer),
                   p_UpdatedAt := now\<rparr>
             in s\<lparr>pr_store := Set (pr_store s) (rr_PeerId evt) peer\<rparr>))"

definition leaseExpired :: "duration \<Rightarrow> gotime \<Rightarrow> DdPeerInfo \<Rightarrow> bool" where
  "leaseExpired leaseTtl now peer \<longleftrightarrow>
     \<not> IsZero (p_LastHeartbeatAt peer) \<and> time_sub now (p_LastHeartbeatAt peer) > leaseTtl"

definition GetPeers :: "PeerRegistryService \<Rightarrow> gotime \<Rightarrow> string \<Rightarrow> DdPeerInfo list" where
  "GetPeers s now resource =
     filter (\<lambda>peer.
         if p_Status peer = PeerStatusOffline \<or> p_Status peer = PeerStatusStale then False
         else if leaseExpired (pr_leaseTtl s) now peer then False
         else if resource \<noteq> [] \<and> \<not> containsString (p_Resources peer) resource then False
         else True)
       (List (pr_store s))"

definition handleQuery ::
  "(bytes \<Rightarrow> DdPeerQueryRequest option) \<Rightarrow> (DdPeerQueryResponse \<Rightarrow> go_error + bytes) \<Rightarrow> gotime \<Rightarrow>
     PeerRegistryService \<Rightarrow> bytes \<Rightarrow> outbox" where
  "handleQuery unmarshal marshal now s payload =
    (case unmarshal payload of
       None \<Rightarrow> []
     | Some req \<Rightarrow>
        (case marshal \<lparr>qr_RequestId = q_RequestId req, qr_Peers = GetPeers s now (q_Resource req)\<rparr> of
           Inl _ \<Rightarrow> []
         | Inr data \<Rightarrow> if q_ReplyTo req = [] then [] else [(q_ReplyTo req, data)]))"

definition handleUnregister ::
  "(bytes \<Rightarrow> DdPeerHeartbeatEvent option) \<Rightarrow> PeerRegistryService \<Rightarrow> bytes \<Rightarrow> PeerRegistryService" where
  "handleUnregister unmarshal s payload =
    (case unmarshal payload of
       None \<Rightarrow> s
     | Some evt \<Rightarrow> s\<lparr>pr_store := Delete (pr_store s) (hb_PeerId evt)\<rparr>)"

section \<open>The operations\<close>

definition sweepStale :: "PeerRegistryService \<Rightarrow> gotime \<Rightarrow> PeerRegistryService" where
  "sweepStale s now = s\<lparr>pr_store := SweepStale (pr_store s) now (pr_leaseTtl s)\<rparr>"

definition RegisterPeer ::
  "(DdPeerRegisterEvent \<Rightarrow> go_error + bytes) \<Rightarrow> publisher \<Rightarrow> gotime \<Rightarrow> PeerRegistryService \<Rightarrow>
     DdPeerInfo \<Rightarrow> go_error option \<times> PeerRegistryService \<times> outbox" where
  "RegisterPeer marshal publish now s peer =
    (let peer = peer\<lparr>p_CreatedAt := (if IsZero (p_CreatedAt peer) then now else p_CreatedAt peer),
           p_Status := PeerStatusRegistering, p_LastHeartbeatAt := now, p_UpdatedAt := now\<rparr>;
         s = s\<lparr>pr_store := Set (pr_store s) (p_Id peer) peer\<rparr>
     in case marshal \<lparr>re_Peer = peer\<rparr> of
          Inl err \<Rightarrow> (Some err, s, [])
        | Inr data \<Rightarrow> (publish (ts_PeerRegister (pr_topics s)) data, s,
                       [(ts_PeerRegister (pr_topics s), data)]))"

definition HeartbeatPeer ::
  "(DdPeerHeartbeatEvent \<Rightarrow> go_error + bytes) \<Rightarrow> publisher \<Rightarrow> gotime \<Rightarrow> PeerRegistryService \<Rightarrow>
     string \<Rightarrow> go_error option \<times> outbox" where
  "HeartbeatPeer marshal publish now s peerId =
    (case marshal \<lparr>hb_PeerId = peerId, hb_Timestamp = now\<rparr> of
       Inl err \<Rightarrow> (Some err, [])
     | Inr data \<Rightarrow> (publish (ts_PeerHeartbeat (pr_topics s)) data,
                    [(ts_PeerHeartbeat (pr_topics s), data)]))"

definition UnregisterPeer ::
  "(DdPeerHeartbeatEvent \<Rightarrow> go_error + bytes) \<Rightarrow> publisher \<Rightarrow> gotime \<Rightarrow> PeerRegistryService \<Rightarrow>
     string \<Rightarrow> go_error option \<times> PeerRegistryService \<times> outbox" where
  "UnregisterPeer marshal publish now s peerId =
    (let s = s\<lparr>pr_store := Delete (pr_store s) peerId\<rparr>
     in case marshal \<lparr>hb_PeerId = peerId, hb_Timestamp = now\<rparr> of
          Inl err \<Rightarrow> (Some err, s, [])
        | Inr data \<Rightarrow> (publish (ts_PeerUnregister (pr_topics s)) data, s,
                       [(ts_PeerUnregister (pr_topics s), data)]))"

text \<open>\<open>stamp\<close> is the time formatted to the second.\<close>

definition QueryPeers ::
  "(DdPeerQueryRequest \<Rightarrow> go_error + bytes) \<Rightarrow> publisher \<Rightarrow> string \<Rightarrow> PeerRegistryService \<Rightarrow>
     string \<Rightarrow> string \<Rightarrow> go_error option \<times> outbox" where
  "QueryPeers marshal publish stamp s resource replyTo =
    (case marshal \<lparr>q_RequestId = ''q-'' @ stamp, q_ReplyTo = replyTo, q_Resource = resource\<rparr> of
       Inl err \<Rightarrow> (Some err, [])
     | Inr data \<Rightarrow> (publish (ts_PeerQuery (pr_topics s)) data,
                    [(ts_PeerQuery (pr_topics s), data)]))"

section \<open>The merged schema of a resource\<close>

definition mergeConstraint ::
  "ResourceMetaConstraint \<Rightarrow> ResourceMetaConstraint \<Rightarrow> ResourceMetaConstraint" where
  "mergeConstraint a b =
    \<lparr>c_Min = (case c_Min b of None \<Rightarrow> c_Min a
       | Some y \<Rightarrow> (case c_Min a of None \<Rightarrow> Some y | Some x \<Rightarrow> if y > x then Some y else Some x)),
     c_Max = (case c_Max b of None \<Rightarrow> c_Max a
       | Some y \<Rightarrow> (case c_Max a of None \<Rightarrow> Some y | Some x \<Rightarrow> if y < x then Some y else Some x)),
     c_Enum = (if length (c_Enum a) > 0 \<and> length (c_Enum b) > 0
       then filter (\<lambda>v. v \<in> set (c_Enum b)) (c_Enum a)
       else if length (c_Enum a) = 0 \<and> length (c_Enum b) > 0 then c_Enum b
       else c_Enum a)\<rparr>"

text \<open>The maps \<open>seenRequired\<close>, \<open>seenOptional\<close> and \<open>seenProto\<close> hold exactly what has
  been appended to the list beside them.\<close>

definition appendNew :: "string list \<Rightarrow> string list \<Rightarrow> string list" where
  "appendNew merged fs = foldl (\<lambda>out f. if f \<in> set out then out else out @ [f]) merged fs"

definition mergeConstraints ::
  "(string, ResourceMetaConstraint) gomap \<Rightarrow> (string, ResourceMetaConstraint) gomap \<Rightarrow>
     (string, ResourceMetaConstraint) gomap" where
  "mergeConstraints merged cs =
     foldl (\<lambda>out (field, c). case map_of out field of
         None \<Rightarrow> gm_set field c out
       | Some existing \<Rightarrow> gm_set field (mergeConstraint existing c) out) merged cs"

definition mergeSchema :: "ResourceMetaSchema \<Rightarrow> ResourceMetaSchema \<Rightarrow> ResourceMetaSchema" where
  "mergeSchema merged schema =
     \<lparr>s_Required = appendNew (s_Required merged) (s_Required schema),
      s_Optional = appendNew (s_Optional merged) (s_Optional schema),
      s_Constraints = mergeConstraints (s_Constraints merged) (s_Constraints schema),
      s_ProtocolMetaRequired =
        appendNew (s_ProtocolMetaRequired merged) (s_ProtocolMetaRequired schema)\<rparr>"

definition emptySchema :: ResourceMetaSchema where
  "emptySchema = \<lparr>s_Required = [], s_Optional = [], s_Constraints = [],
     s_ProtocolMetaRequired = []\<rparr>"

definition schemaStep ::
  "string \<Rightarrow> bool \<times> ResourceMetaSchema \<Rightarrow> DdPeerInfo \<Rightarrow> bool \<times> ResourceMetaSchema" where
  "schemaStep resource st p =
    (case st of (found, merged) \<Rightarrow>
      if \<not> containsString (p_Capabilities p) ''resource_meta_schema_v1'' then (found, merged)
      else (case map_of (p_ResourceSchemas p) resource of
          None \<Rightarrow> (found, merged)
        | Some schema \<Rightarrow> (True, mergeSchema merged schema)))"

definition GetResourceMetaSchema ::
  "PeerRegistryService \<Rightarrow> gotime \<Rightarrow> string \<Rightarrow> ResourceMetaSchema option" where
  "GetResourceMetaSchema s now resource =
    (case foldl (schemaStep resource) (False, emptySchema) (GetPeers s now resource) of
       (found, merged) \<Rightarrow> if \<not> found then None else Some merged)"

datatype registryHandler = HRegister | HHeartbeat | HQuery | HResourceReport | HUnregister

definition registryStart ::
  "(string \<Rightarrow> go_error option) \<Rightarrow> PeerRegistryService \<Rightarrow>
     go_error option \<times> (string \<times> registryHandler) list" where
  "registryStart subscribe s =
     subscribeAll subscribe
       [(ts_PeerRegister (pr_topics s), HRegister),
        (ts_PeerHeartbeat (pr_topics s), HHeartbeat),
        (ts_PeerQuery (pr_topics s), HQuery),
        (ts_PeerResourceReport (pr_topics s), HResourceReport),
        (ts_PeerUnregister (pr_topics s), HUnregister)]"

section \<open>Lemmas\<close>

lemma containsString_iff [simp]: "containsString arr v \<longleftrightarrow> v \<in> set arr"
  by (induction arr) auto

lemma syncPeerMetrics_fields [simp]:
  "pr_store (syncPeerMetrics s) = pr_store s" "pr_leaseTtl (syncPeerMetrics s) = pr_leaseTtl s"
  "pr_topics (syncPeerMetrics s) = pr_topics s"
  by (simp_all add: syncPeerMetrics_def Let_def)

text \<open>What makes a peer visible to a query.\<close>

definition visible :: "duration \<Rightarrow> gotime \<Rightarrow> string \<Rightarrow> DdPeerInfo \<Rightarrow> bool" where
  "visible ttl now resource peer \<longleftrightarrow>
     p_Status peer \<noteq> PeerStatusOffline \<and> p_Status peer \<noteq> PeerStatusStale \<and>
     \<not> leaseExpired ttl now peer \<and> (resource = [] \<or> resource \<in> set (p_Resources peer))"

lemma GetPeers_filter: "GetPeers s now resource = filter (visible (pr_leaseTtl s) now resource) (List (pr_store s))"
  unfolding GetPeers_def by (rule filter_cong) (auto simp: visible_def)

lemma in_GetPeers_iff:
  "wf_store (pr_store s) \<Longrightarrow> p \<in> set (GetPeers s now resource) \<longleftrightarrow>
     visible (pr_leaseTtl s) now resource p \<and> (\<exists>k. Get (pr_store s) k = Some p)"
  by (auto simp: GetPeers_filter mem_store.in_all_iff)

text \<open>A step of the service: one handled message, one API call or one sweep.\<close>

inductive registry_step :: "PeerRegistryService \<Rightarrow> PeerRegistryService \<Rightarrow> bool" where
  st_register: "registry_step s (handleRegister um now s payload)"
| st_heartbeat: "registry_step s (handleHeartbeat uh now s payload)"
| st_report: "registry_step s (handleResourceReport ur now s payload)"
| st_unregister: "registry_step s (handleUnregister uh s payload)"
| st_sweep: "registry_step s (sweepStale s now)"
| st_RegisterPeer: "registry_step s (fst (snd (RegisterPeer mr publish now s peer)))"
| st_UnregisterPeer: "registry_step s (fst (snd (UnregisterPeer mh publish now s peerId)))"

definition registry_inv :: "PeerRegistryService \<Rightarrow> bool" where
  "registry_inv s \<longleftrightarrow> wf_store (pr_store s) \<and> mem_store.keyed (pr_store s)"

lemma registry_inv_Set:
  "registry_inv s \<Longrightarrow> p_Id p = k \<Longrightarrow> registry_inv (s\<lparr>pr_store := Set (pr_store s) k p\<rparr>)"
  by (auto simp: registry_inv_def mem_store.invar_put mem_store.keyed_put)

lemma registry_inv_Get: "registry_inv s \<Longrightarrow> Get (pr_store s) k = Some p \<Longrightarrow> p_Id p = k"
  by (simp add: registry_inv_def mem_store.keyed_def)

lemma registry_inv_store: "pr_store t = pr_store s \<Longrightarrow> registry_inv t = registry_inv s"
  by (simp add: registry_inv_def)

lemma registry_step_inv: "registry_step s t \<Longrightarrow> registry_inv s \<Longrightarrow> registry_inv t"
proof (induction rule: registry_step.induct)
  case (st_register s um now payload)
  then show ?case
    by (auto simp: handleRegister_def Let_def registry_inv_def mem_store.invar_put
        mem_store.keyed_def mem_store.get_put split: option.split)
next
  case (st_heartbeat s uh now payload)
  then show ?case
    by (auto simp: handleHeartbeat_def Let_def registry_inv_Get intro!: registry_inv_Set
        split: option.split)
next
  case (st_report s ur now payload)
  then show ?case
    by (auto simp: handleResourceReport_def Let_def registry_inv_Get intro!: registry_inv_Set
        split: option.split)
next
  case (st_unregister s uh payload)
  then show ?case
    by (auto simp: handleUnregister_def registry_inv_def mem_store.invar_del mem_store.keyed_del
        split: option.split)
next
  case (st_sweep s now)
  then show ?case
    by (simp add: sweepStale_def registry_inv_def mem_store.invar_sweep mem_store.keyed_sweep)
next
  case (st_RegisterPeer s mr publish now peer)
  then show ?case
    by (auto simp: RegisterPeer_def Let_def intro!: registry_inv_Set split: sum.split)
next
  case (st_UnregisterPeer s mh publish now peerId)
  then show ?case
    by (auto simp: UnregisterPeer_def Let_def registry_inv_def mem_store.invar_del
        mem_store.keyed_del split: sum.split)
qed

lemma registry_inv_init: "registry_inv (NewPeerRegistryService topics ttl [WithAclService acl])"
  by (simp add: registry_inv_def NewPeerRegistryService_def WithAclService_def NewMemoryStore_def
      wf_store_def mem_store.keyed_def Get_def)

lemma map_fst_List:
  assumes "registry_inv s"
  shows "map p_Id (List (pr_store s)) = map fst (ms_peers (pr_store s))"
proof -
  have "p_Id (snd e) = fst e" if "e \<in> set (ms_peers (pr_store s))" for e
  proof -
    have "Get (pr_store s) (fst e) = Some (snd e)"
      using that assms by (simp add: registry_inv_def wf_store_def wf_gomap_def Get_def)
    then show ?thesis by (rule registry_inv_Get [OF assms])
  qed
  then show ?thesis by (simp add: List_def)
qed

lemma distinct_GetPeers:
  assumes "registry_inv s"
  shows "distinct (map p_Id (GetPeers s now resource))"
proof -
  have "distinct (map p_Id (List (pr_store s)))"
    using assms by (simp add: map_fst_List) (simp add: registry_inv_def wf_store_def wf_gomap_def)
  then show ?thesis by (simp add: GetPeers_filter distinct_map_filter)
qed

lemma in_GetPeers_inv:
  "registry_inv s \<Longrightarrow> p \<in> set (GetPeers s now resource) \<longleftrightarrow>
     visible (pr_leaseTtl s) now resource p \<and> Get (pr_store s) (p_Id p) = Some p"
  using registry_inv_Get by (auto simp: registry_inv_def in_GetPeers_iff)

lemma List_Delete:
  assumes "registry_inv s"
  shows "List (Delete (pr_store s) k) = filter (\<lambda>p. p_Id p \<noteq> k) (List (pr_store s))"
proof -
  let ?m = "ms_peers (pr_store s)"
  have "\<forall>e \<in> set ?m. p_Id (snd e) = fst e"
    using map_fst_List [OF assms] by (simp add: List_def)
  then have "filter (\<lambda>p. p_Id p \<noteq> k) (map snd ?m) = map snd (filter (\<lambda>e. k \<noteq> fst e) ?m)"
    by (auto simp: filter_map comp_def intro!: arg_cong [of _ _ "map snd"] filter_cong)
  then show ?thesis
    by (simp add: List_def Delete_def gm_del_def AList.delete_eq case_prod_beta')
qed

lemma registry_reachable_inv:
  "registry_step\<^sup>*\<^sup>* (NewPeerRegistryService topics ttl [WithAclService acl]) s \<Longrightarrow> registry_inv s"
  by (induction rule: rtranclp_induct) (auto intro: registry_inv_init registry_step_inv)

section \<open>Schemas\<close>

text \<open>The numeric bounds and the enumeration of a constraint, as \<open>validateConstraint\<close> of
  the API reads them.\<close>

definition within :: "ResourceMetaConstraint \<Rightarrow> int \<Rightarrow> bool" where
  "within c v \<longleftrightarrow> (case c_Min c of None \<Rightarrow> True | Some m \<Rightarrow> m \<le> v) \<and>
     (case c_Max c of None \<Rightarrow> True | Some m \<Rightarrow> v \<le> m)"

definition enum_ok :: "ResourceMetaConstraint \<Rightarrow> string \<Rightarrow> bool" where
  "enum_ok c v \<longleftrightarrow> c_Enum c = [] \<or> v \<in> set (c_Enum c)"

lemma within_mergeConstraint: "within (mergeConstraint a b) v \<longleftrightarrow> within a v \<and> within b v"
  by (auto simp: within_def mergeConstraint_def split: option.split)

lemma set_appendNew [simp]: "set (appendNew xs ys) = set xs \<union> set ys"
  unfolding appendNew_def by (induction ys arbitrary: xs) auto

lemma distinct_appendNew: "distinct xs \<Longrightarrow> distinct (appendNew xs ys)"
  unfolding appendNew_def by (induction ys arbitrary: xs) auto

definition merge_opt ::
  "ResourceMetaConstraint option \<Rightarrow> ResourceMetaConstraint option \<Rightarrow> ResourceMetaConstraint option" where
  "merge_opt x y = (case x of None \<Rightarrow> y
     | Some a \<Rightarrow> (case y of None \<Rightarrow> Some a | Some b \<Rightarrow> Some (mergeConstraint a b)))"

lemma merge_opt_None [simp]: "merge_opt x None = x"
  by (cases x) (simp_all add: merge_opt_def)

lemma map_of_mergeConstraints:
  "wf_gomap cs \<Longrightarrow> map_of (mergeConstraints m cs) f = merge_opt (map_of m f) (map_of cs f)"
proof (induction cs arbitrary: m)
  case Nil
  then show ?case by (simp add: mergeConstraints_def)
next
  case (Cons fc cs)
  obtain g c where fc: "fc = (g, c)" by fastforce
  let ?m = "case map_of m g of None \<Rightarrow> gm_set g c m | Some e \<Rightarrow> gm_set g (mergeConstraint e c) m"
  have "map_of cs g = None" "wf_gomap cs"
    using Cons.prems fc by (simp_all add: wf_gomap_def map_of_eq_None_iff)
  moreover have "mergeConstraints m (fc # cs) = mergeConstraints ?m cs"
    by (simp add: mergeConstraints_def fc)
  moreover have "map_of ?m f = (if f = g then merge_opt (map_of m g) (Some c) else map_of m f)"
    by (simp add: merge_opt_def gomap_simps split: option.split)
  ultimately show ?case
    using Cons.IH [of ?m] by (cases "f = g") (simp_all add: fc)
qed

definition bound_ok :: "ResourceMetaSchema \<Rightarrow> string \<Rightarrow> int \<Rightarrow> bool" where
  "bound_ok sch f v \<longleftrightarrow> (case map_of (s_Constraints sch) f of None \<Rightarrow> True | Some c \<Rightarrow> within c v)"

lemma bound_ok_mergeSchema:
  "wf_gomap (s_Constraints sch) \<Longrightarrow>
     bound_ok (mergeSchema m sch) f v \<longleftrightarrow> bound_ok m f v \<and> bound_ok sch f v"
  by (auto simp: bound_ok_def mergeSchema_def map_of_mergeConstraints merge_opt_def
      within_mergeConstraint split: option.split)

text \<open>The schemas that go into the merge, in the order of the loop.\<close>

definition providerSchema :: "string \<Rightarrow> DdPeerInfo \<Rightarrow> ResourceMetaSchema option" where
  "providerSchema resource p =
     (if ''resource_meta_schema_v1'' \<in> set (p_Capabilities p)
      then map_of (p_ResourceSchemas p) resource else None)"

definition providerSchemas :: "PeerRegistryService \<Rightarrow> gotime \<Rightarrow> string \<Rightarrow> ResourceMetaSchema list" where
  "providerSchemas s now resource =
     List.map_filter (providerSchema resource) (GetPeers s now resource)"

lemma foldl_schemaStep:
  "foldl (schemaStep resource) (found, m) ps =
     (found \<or> List.map_filter (providerSchema resource) ps \<noteq> [],
      foldl mergeSchema m (List.map_filter (providerSchema resource) ps))"
  by (induction ps arbitrary: found m)
    (auto simp: schemaStep_def providerSchema_def map_filter_simps split: option.split)

lemma GetResourceMetaSchema_eq:
  "GetResourceMetaSchema s now resource =
     (if providerSchemas s now resource = [] then None
      else Some (foldl mergeSchema emptySchema (providerSchemas s now resource)))"
  by (simp add: GetResourceMetaSchema_def foldl_schemaStep providerSchemas_def)

lemma foldl_mergeSchema_sets:
  "set (s_Required (foldl mergeSchema m ss)) = set (s_Required m) \<union> (\<Union>x \<in> set ss. set (s_Required x))"
  "set (s_ProtocolMetaRequired (foldl mergeSchema m ss)) =
     set (s_ProtocolMetaRequired m) \<union> (\<Union>x \<in> set ss. set (s_ProtocolMetaRequired x))"
  by (induction ss arbitrary: m) (auto simp: mergeSchema_def)

lemma foldl_mergeSchema_distinct:
  "distinct (s_Required m) \<Longrightarrow> distinct (s_Required (foldl mergeSchema m ss))"
  by (induction ss arbitrary: m) (auto simp: mergeSchema_def distinct_appendNew)

lemma foldl_mergeSchema_bound:
  "\<forall>x \<in> set ss. wf_gomap (s_Constraints x) \<Longrightarrow>
     bound_ok (foldl mergeSchema m ss) f v \<longleftrightarrow> bound_ok m f v \<and> (\<forall>x \<in> set ss. bound_ok x f v)"
  by (induction ss arbitrary: m) (auto simp: bound_ok_mergeSchema)

lemma emptySchema_sel [simp]:
  "s_Required emptySchema = []" "s_ProtocolMetaRequired emptySchema = []"
  "s_Constraints emptySchema = []"
  by (simp_all add: emptySchema_def)

lemma bound_ok_empty [simp]: "bound_ok emptySchema f v"
  by (simp add: bound_ok_def emptySchema_def)

section \<open>Properties\<close>

text \<open>
  C19: in every state the registry can reach from a fresh one, through any sequence of
  handled messages, API calls and sweeps, a query returns each peer at most once, and
  returns exactly the peers on file under their own id that are neither stale nor
  offline, whose lease has not run out and that offer the resource asked for.
\<close>

theorem registry_query_exact:
  assumes "registry_step\<^sup>*\<^sup>* (NewPeerRegistryService topics ttl [WithAclService acl]) s"
  shows "distinct (map p_Id (GetPeers s now resource)) \<and>
    (p \<in> set (GetPeers s now resource) \<longleftrightarrow>
       Get (pr_store s) (p_Id p) = Some p \<and>
       p_Status p \<noteq> PeerStatusOffline \<and> p_Status p \<noteq> PeerStatusStale \<and>
       (IsZero (p_LastHeartbeatAt p) \<or> time_sub now (p_LastHeartbeatAt p) \<le> pr_leaseTtl s) \<and>
       (resource = [] \<or> resource \<in> set (p_Resources p)))"
  using registry_reachable_inv [OF assms]
  by (auto simp: distinct_GetPeers in_GetPeers_inv visible_def leaseExpired_def)

definition demoPeer :: "string \<Rightarrow> DdPeerInfo" where
  "demoPeer i = \<lparr>p_Id = i, p_Name = [], p_Role = ''edge'', p_Key = [], p_Secret = [],
     p_Status = PeerStatusStale, p_Resources = [''r''], p_Capabilities = [''resource_meta_schema_v1''],
     p_ResourceSchemas = [], p_Tags = [], p_LastHeartbeatAt = 1, p_CreatedAt = 1, p_UpdatedAt = 1\<rparr>"

definition demoInit :: PeerRegistryService where
  "demoInit = NewPeerRegistryService (NewDefaultTopicSet ''t'') 30 [WithAclService NewTopicAclService]"

theorem registry_query_exact_witness:
  "\<exists>p \<in> set (GetPeers (handleRegister (\<lambda>_. Some \<lparr>re_Peer = demoPeer ''a''\<rparr>) 100 demoInit []) 120 ''r'').
     p_Id p = ''a''"
proof -
  let ?s = "handleRegister (\<lambda>_. Some \<lparr>re_Peer = demoPeer ''a''\<rparr>) 100 demoInit []"
  let ?p = "(demoPeer ''a'')\<lparr>p_Status := PeerStatusRegistering, p_LastHeartbeatAt := 100, p_UpdatedAt := 100\<rparr>"
  have "registry_step\<^sup>*\<^sup>* demoInit ?s" by (rule r_into_rtranclp) (rule st_register)
  then have "?p \<in> set (GetPeers ?s 120 ''r'')"
    using registry_query_exact [of "NewDefaultTopicSet ''t''" 30 NewTopicAclService ?s 120 "''r''" ?p]
    unfolding demoInit_def [symmetric]
    by (simp add: handleRegister_def Let_def mem_store.get_put demoPeer_def time_sub_def go_consts)
      (simp add: demoInit_def NewPeerRegistryService_def WithAclService_def)
  then show ?thesis by (force simp: demoPeer_def)
qed

text \<open>
  A heartbeat brings a known peer back whatever its status was, stale and offline
  included: from then on a query returns it exactly as long as its lease runs from the
  heartbeat's own timestamp (or from the time of arrival when the event carries none)
  and only for resources it offers.
\<close>

lemma heartbeat_renews_lease:
  assumes "registry_inv s" "unmarshal payload = Some evt"
    "Get (pr_store s) (hb_PeerId evt) = Some peer"
  shows "let beat = (if IsZero (hb_Timestamp evt) then now else hb_Timestamp evt);
             s' = handleHeartbeat unmarshal now s payload
         in (hb_PeerId evt \<in> p_Id ` set (GetPeers s' later resource)) \<longleftrightarrow>
            (IsZero beat \<or> time_sub later beat \<le> pr_leaseTtl s) \<and>
            (resource = [] \<or> resource \<in> set (p_Resources peer))"
proof -
  define beat where "beat = (if IsZero (hb_Timestamp evt) then now else hb_Timestamp evt)"
  define peer' where "peer' = peer\<lparr>p_LastHeartbeatAt := beat, p_Status := PeerStatusActive, p_UpdatedAt := now\<rparr>"
  have s': "handleHeartbeat unmarshal now s payload = s\<lparr>pr_store := Set (pr_store s) (hb_PeerId evt) peer'\<rparr>"
    using assms(2,3) by (simp add: handleHeartbeat_def peer'_def beat_def Let_def)
  have id: "p_Id peer' = hb_PeerId evt"
    using registry_inv_Get [OF assms(1,3)] by (simp add: peer'_def)
  have inv: "registry_inv (handleHeartbeat unmarshal now s payload)"
    using assms(1) by (auto intro: registry_step_inv st_heartbeat)
  have "hb_PeerId evt \<in> p_Id ` set (GetPeers (handleHeartbeat unmarshal now s payload) later resource)
      \<longleftrightarrow> visible (pr_leaseTtl s) later resource peer'"
    using in_GetPeers_inv [OF inv] id
    by (auto simp: s' mem_store.get_put split: if_splits intro!: rev_image_eqI [of peer'])
  also have "\<dots> \<longleftrightarrow> (IsZero beat \<or> time_sub later beat \<le> pr_leaseTtl s) \<and>
      (resource = [] \<or> resource \<in> set (p_Resources peer))"
    by (auto simp: visible_def leaseExpired_def peer'_def go_consts)
  finally show ?thesis
    unfolding Let_def beat_def .
qed

text \<open>
  Unregistering takes exactly that peer out of every later query, and the local
  call and the handler of the broadcast event have the same effect on the registry.
\<close>

lemma unregister_removes:
  assumes "registry_inv s" "unmarshal payload = Some evt"
  shows "let s1 = fst (snd (UnregisterPeer marshal publish now s (hb_PeerId evt)));
             s2 = handleUnregister unmarshal s payload
         in s1 = s2 \<and> GetPeers s2 later resource =
              filter (\<lambda>p. p_Id p \<noteq> hb_PeerId evt) (GetPeers s later resource)"
proof -
  have "s\<lparr>pr_store := Delete (pr_store s) (hb_PeerId evt)\<rparr> = handleUnregister unmarshal s payload"
    using assms(2) by (simp add: handleUnregister_def)
  moreover have "fst (snd (UnregisterPeer marshal publish now s (hb_PeerId evt))) =
      s\<lparr>pr_store := Delete (pr_store s) (hb_PeerId evt)\<rparr>"
    by (simp add: UnregisterPeer_def Let_def split: sum.split)
  moreover have "GetPeers (s\<lparr>pr_store := Delete (pr_store s) (hb_PeerId evt)\<rparr>) later resource =
      filter (\<lambda>p. p_Id p \<noteq> hb_PeerId evt) (GetPeers s later resource)"
    by (simp add: GetPeers_filter List_Delete [OF assms(1)] conj_commute)
  ultimately show ?thesis by (simp add: Let_def)
qed

text \<open>
  C28: the merged schema of a resource demands what any visible provider demands: it
  exists when one capable provider has a schema, its required fields are the union of
  theirs without repetition, and a value is within its bounds for a field exactly when
  it is within the bounds of every provider, whatever the order of the merge.
\<close>

theorem merged_schema_strictest:
  assumes "\<forall>x \<in> set (providerSchemas s now resource). wf_gomap (s_Constraints x)"
  shows "case GetResourceMetaSchema s now resource of
      None \<Rightarrow> providerSchemas s now resource = []
    | Some sch \<Rightarrow> providerSchemas s now resource \<noteq> [] \<and> distinct (s_Required sch) \<and>
        set (s_Required sch) = (\<Union>x \<in> set (providerSchemas s now resource). set (s_Required x)) \<and>
        set (s_ProtocolMetaRequired sch) =
          (\<Union>x \<in> set (providerSchemas s now resource). set (s_ProtocolMetaRequired x)) \<and>
        (\<forall>f v. bound_ok sch f v \<longleftrightarrow>
           (\<forall>x \<in> set (providerSchemas s now resource). bound_ok x f v))"
  using assms foldl_mergeSchema_distinct [of emptySchema "providerSchemas s now resource"]
  by (auto simp: GetResourceMetaSchema_eq foldl_mergeSchema_sets foldl_mergeSchema_bound)

definition demoSchema :: "int \<Rightarrow> ResourceMetaSchema" where
  "demoSchema mn = \<lparr>s_Required = [''trace_id''], s_Optional = [],
     s_Constraints = [(''timeout_ms'', \<lparr>c_Min = Some mn, c_Max = None, c_Enum = []\<rparr>)],
     s_ProtocolMetaRequired = []\<rparr>"

definition schemaRegistry :: PeerRegistryService where
  "schemaRegistry = demoInit\<lparr>pr_store := \<lparr>ms_peers =
     [(''a'', (demoPeer ''a'')\<lparr>p_Status := ''active'', p_ResourceSchemas := [(''r'', demoSchema 5)]\<rparr>),
      (''b'', (demoPeer ''b'')\<lparr>p_Status := ''active'', p_ResourceSchemas := [(''r'', demoSchema 9)]\<rparr>)]\<rparr>\<rparr>"

lemma schemaRegistry_schemas: "providerSchemas schemaRegistry 10 ''r'' = [demoSchema 5, demoSchema 9]"
  by (simp add: providerSchemas_def GetPeers_filter schemaRegistry_def List_def demoPeer_def
      visible_def leaseExpired_def time_sub_def providerSchema_def map_filter_simps go_consts demoInit_def
      NewPeerRegistryService_def WithAclService_def)

theorem merged_schema_strictest_witness:
  "case GetResourceMetaSchema schemaRegistry 10 ''r'' of None \<Rightarrow> False
   | Some sch \<Rightarrow> bound_ok sch ''timeout_ms'' 9 \<and> \<not> bound_ok sch ''timeout_ms'' 8"
proof -
  have wf: "\<forall>x \<in> set (providerSchemas schemaRegistry 10 ''r''). wf_gomap (s_Constraints x)"
    by (simp add: schemaRegistry_schemas demoSchema_def wf_gomap_def)
  show ?thesis
    using merged_schema_strictest [OF wf]
    by (simp add: schemaRegistry_schemas split: option.splits)
      (simp add: bound_ok_def [of "\<lparr>s_Required = _, s_Optional = _, s_Constraints = _,
        s_ProtocolMetaRequired = _\<rparr>"] demoSchema_def within_def)
qed

text \<open>
  Two enumerations are intersected only as long as they overlap: a merged
  constraint accepts exactly the values both accept when the lists share a value or
  one is empty; when they are disjoint the merged list is empty, which the validator
  reads as no restriction at all, so every value is accepted.
\<close>

lemma merged_enum:
  "enum_ok (mergeConstraint a b) v \<longleftrightarrow>
     enum_ok a v \<and> enum_ok b v \<or>
     c_Enum a \<noteq> [] \<and> c_Enum b \<noteq> [] \<and> set (c_Enum a) \<inter> set (c_Enum b) = {}"
  by (auto simp: enum_ok_def mergeConstraint_def filter_empty_conv)

end
