(* ===== verification/Resource_Catalog.thy ===== *)
theory Resource_Catalog
  imports Registry
begin

text \<open>
  The resource catalog (\<open>service/resource_catalog.go\<close>): an index from a resource to the
  peers that provide it, kept without duplicates. It refines a set of pairs: the
  locale \<open>provider_relation\<close> states what its clients rely on.
\<close>

record ResourceCatalog =
  rc_index :: "(string, string list) gomap"

definition NewResourceCatalog :: ResourceCatalog where
  "NewResourceCatalog = \<lparr>rc_index = []\<rparr>"

text \<open>\<open>c.index[resource]\<close>: nil when the key is absent.\<close>

definition indexAt :: "ResourceCatalog \<Rightarrow> string \<Rightarrow> string list" where
  "indexAt c resource = (case map_of (rc_index c) resource of Some ps \<Rightarrow> ps | None \<Rightarrow> [])"

fun hasProvider :: "string list \<Rightarrow> string \<Rightarrow> bool" where
  "hasProvider [] peerId = False"
| "hasProvider (pid # providers) peerId = (if pid = peerId then True else hasProvider providers peerId)"

definition addProvider :: "string \<Rightarrow> string \<Rightarrow> ResourceCatalog \<Rightarrow> ResourceCatalog" where
  "addProvider resource peerId c =
    (let providers = indexAt c resource in
     if hasProvider providers peerId then c
     else c\<lparr>rc_index := gm_set resource (providers @ [peerId]) (rc_index c)\<rparr>)"

definition OnPeerRegistered :: "ResourceCatalog \<Rightarrow> DdPeerInfo \<Rightarrow> ResourceCatalog" where
  "OnPeerRegistered c peer = fold (\<lambda>resource. addProvider resource (p_Id peer)) (p_Resources peer) c"

definition dropProvider :: "string \<Rightarrow> ResourceCatalog \<Rightarrow> ResourceCatalog" where
  "dropProvider peerId c = c\<lparr>rc_index := gm_map (filter (\<lambda>pid. pid \<noteq> peerId)) (rc_index c)\<rparr>"

definition OnPeerUnregistered :: "ResourceCatalog \<Rightarrow> string \<Rightarrow> ResourceCatalog" where
  "OnPeerUnregistered c peerId = dropProvider peerId c"

definition OnResourceReport :: "ResourceCatalog \<Rightarrow> string \<Rightarrow> string list \<Rightarrow> ResourceCatalog" where
  "OnResourceReport c peerId resources =
     fold (\<lambda>resource. addProvider resource peerId) resources (dropProvider peerId c)"

definition GetProviders :: "ResourceCatalog \<Rightarrow> string \<Rightarrow> string list" where
  "GetProviders c resource = [] @ indexAt c resource"

definition ListResources :: "ResourceCatalog \<Rightarrow> string list" where
  "ListResources c = map fst (rc_index c)"

section \<open>The contract\<close>

locale provider_relation =
  fixes empty :: 'c
    and reg :: "'c \<Rightarrow> DdPeerInfo \<Rightarrow> 'c"
    and unreg :: "'c \<Rightarrow> string \<Rightarrow> 'c"
    and report :: "'c \<Rightarrow> string \<Rightarrow> string list \<Rightarrow> 'c"
    and providers :: "'c \<Rightarrow> string \<Rightarrow> string list"
    and invar :: "'c \<Rightarrow> bool"
  assumes providers_empty: "providers empty r = []"
    and providers_reg: "invar c \<Longrightarrow> set (providers (reg c p) r) =
          set (providers c r) \<union> (if r \<in> set (p_Resources p) then {p_Id p} else {})"
    and providers_unreg: "invar c \<Longrightarrow> set (providers (unreg c i) r) = set (providers c r) - {i}"
    and providers_report: "invar c \<Longrightarrow> set (providers (report c i rs) r) =
          set (providers c r) - {i} \<union> (if r \<in> set rs then {i} else {})"
    and distinct_providers: "invar c \<Longrightarrow> distinct (providers c r)"
    and invar_empty: "invar empty"
    and invar_reg: "invar c \<Longrightarrow> invar (reg c p)"
    and invar_unreg: "invar c \<Longrightarrow> invar (unreg c i)"
    and invar_report: "invar c \<Longrightarrow> invar (report c i rs)"
begin

definition rel :: "'c \<Rightarrow> (string \<times> string) set" where
  "rel c = {(r, i). i \<in> set (providers c r)}"

lemma rel_empty: "rel empty = {}"
  by (simp add: rel_def providers_empty)

lemma rel_reg: "invar c \<Longrightarrow> rel (reg c p) = rel c \<union> {(r, p_Id p) |r. r \<in> set (p_Resources p)}"
  by (auto simp: rel_def providers_reg split: if_splits)

lemma rel_unreg: "invar c \<Longrightarrow> rel (unreg c i) = rel c - {(r, i) |r. True}"
  by (auto simp: rel_def providers_unreg)

lemma rel_report: "invar c \<Longrightarrow> rel (report c i rs) = rel c - {(r, i) |r. True} \<union> {(r, i) |r. r \<in> set rs}"
  by (auto simp: rel_def providers_report split: if_splits)

text \<open>The last report of a peer decides what it provides.\<close>

lemma report_idem:
  "invar c \<Longrightarrow> rel (report (report c i rs) i rs') = rel (report c i rs')"
  by (auto simp: rel_report invar_report)

lemma unreg_forgets: "invar c \<Longrightarrow> rel (unreg (report c i rs) i) = rel (unreg c i)"
  by (auto simp: rel_report rel_unreg invar_report)

end

section \<open>The catalog keeps it\<close>

definition wf_catalog :: "ResourceCatalog \<Rightarrow> bool" where
  "wf_catalog c \<longleftrightarrow> wf_gomap (rc_index c) \<and> (\<forall>r. distinct (indexAt c r))"

lemma hasProvider_iff [simp]: "hasProvider ps i \<longleftrightarrow> i \<in> set ps"
  by (induction ps) auto

lemma indexAt_addProvider:
  "indexAt (addProvider r i c) r' =
    (if r' = r \<and> i \<notin> set (indexAt c r) then indexAt c r @ [i] else indexAt c r')"
  by (auto simp: addProvider_def indexAt_def Let_def gomap_simps)

lemma wf_addProvider: "wf_catalog c \<Longrightarrow> wf_catalog (addProvider r i c)"
  by (auto simp: wf_catalog_def indexAt_addProvider) (simp add: addProvider_def Let_def)

lemma fold_addProvider:
  "set (indexAt (fold (\<lambda>r. addProvider r i) rs c) r') =
     set (indexAt c r') \<union> (if r' \<in> set rs then {i} else {})"
  by (induction rs arbitrary: c) (auto simp: indexAt_addProvider)

lemma wf_fold_addProvider: "wf_catalog c \<Longrightarrow> wf_catalog (fold (\<lambda>r. addProvider r i) rs c)"
  by (induction rs arbitrary: c) (auto intro: wf_addProvider)

lemma indexAt_dropProvider: "indexAt (dropProvider i c) r = filter (\<lambda>pid. pid \<noteq> i) (indexAt c r)"
  by (simp add: dropProvider_def indexAt_def gomap_simps split: option.split)

lemma wf_dropProvider: "wf_catalog c \<Longrightarrow> wf_catalog (dropProvider i c)"
  by (simp add: wf_catalog_def indexAt_dropProvider) (simp add: dropProvider_def)

interpretation catalog: provider_relation NewResourceCatalog OnPeerRegistered OnPeerUnregistered
  OnResourceReport GetProviders wf_catalog
proof
  fix c p r i rs
  show "GetProviders NewResourceCatalog r = []"
    by (simp add: GetProviders_def NewResourceCatalog_def indexAt_def)
  show "set (GetProviders (OnPeerRegistered c p) r) =
      set (GetProviders c r) \<union> (if r \<in> set (p_Resources p) then {p_Id p} else {})"
    by (simp add: GetProviders_def OnPeerRegistered_def fold_addProvider)
  show "set (GetProviders (OnPeerUnregistered c i) r) = set (GetProviders c r) - {i}"
    by (auto simp: GetProviders_def OnPeerUnregistered_def indexAt_dropProvider)
  show "set (GetProviders (OnResourceReport c i rs) r) =
      set (GetProviders c r) - {i} \<union> (if r \<in> set rs then {i} else {})"
    by (auto simp: GetProviders_def OnResourceReport_def fold_addProvider indexAt_dropProvider)
  show "wf_catalog c \<Longrightarrow> distinct (GetProviders c r)"
    by (simp add: GetProviders_def wf_catalog_def)
  show "wf_catalog NewResourceCatalog"
    by (simp add: wf_catalog_def NewResourceCatalog_def indexAt_def)
qed (simp_all add: OnPeerRegistered_def OnPeerUnregistered_def OnResourceReport_def
    wf_fold_addProvider wf_dropProvider)

section \<open>Properties\<close>

text \<open>The operations in any order, as a sequence.\<close>

datatype catalogOp = Registered DdPeerInfo | Unregistered string | Reported string "string list"

fun runOp :: "ResourceCatalog \<Rightarrow> catalogOp \<Rightarrow> ResourceCatalog" where
  "runOp c (Registered p) = OnPeerRegistered c p"
| "runOp c (Unregistered i) = OnPeerUnregistered c i"
| "runOp c (Reported i rs) = OnResourceReport c i rs"

fun specOp :: "(string \<times> string) set \<Rightarrow> catalogOp \<Rightarrow> (string \<times> string) set" where
  "specOp R (Registered p) = R \<union> {(r, p_Id p) |r. r \<in> set (p_Resources p)}"
| "specOp R (Unregistered i) = R - {(r, i) |r. True}"
| "specOp R (Reported i rs) = R - {(r, i) |r. True} \<union> {(r, i) |r. r \<in> set rs}"

lemma runOp_refines:
  "wf_catalog c \<Longrightarrow> wf_catalog (runOp c x) \<and> catalog.rel (runOp c x) = specOp (catalog.rel c) x"
  by (cases x) (simp_all add: catalog.rel_reg catalog.rel_unreg catalog.rel_report
      catalog.invar_reg catalog.invar_unreg catalog.invar_report)

lemma runOps_refine:
  "wf_catalog c \<Longrightarrow> wf_catalog (foldl runOp c ops) \<and>
     catalog.rel (foldl runOp c ops) = foldl specOp (catalog.rel c) ops"
  using runOp_refines by (induction ops arbitrary: c) auto

text \<open>
  C27: after any sequence of registrations, reports and departures the catalog lists for
  each resource exactly the peers the sequence leaves as its providers, each once: the
  index refines the relation that a registration adds to, a departure deletes from, and
  a report replaces.
\<close>

theorem catalog_refines:
  "set (GetProviders (foldl runOp NewResourceCatalog ops) r) = {i. (r, i) \<in> foldl specOp {} ops} \<and>
   distinct (GetProviders (foldl runOp NewResourceCatalog ops) r)"
proof -
  note run = runOps_refine [OF catalog.invar_empty, of ops]
  then have "catalog.rel (foldl runOp NewResourceCatalog ops) = foldl specOp {} ops"
    by (simp add: catalog.rel_empty)
  then have "set (GetProviders (foldl runOp NewResourceCatalog ops) r) = {i. (r, i) \<in> foldl specOp {} ops}"
    by (auto simp: catalog.rel_def)
  with run show ?thesis by (simp add: catalog.distinct_providers)
qed

end
