(* ===== verification/Stream_Service.thy ===== *)
theory Stream_Service
  imports Topics Mq
begin

text \<open>
  Stream sessions (\<open>service/stream_service.go\<close> on \<open>model/dd_stream.go\<close>): the open and
  close handlers, the two publishing operations, the queries and the idle sweep.
  \<open>stamp\<close> is the text \<open>time.Now().Format(...)\<close> gives for the current instant.
\<close>

section \<open>State\<close>

type_synonym StreamProfile = string
type_synonym StreamStatus = string

definition StreamProfileFull :: StreamProfile where [go_consts]: "StreamProfileFull = ''full''"
definition StreamStatusActive :: StreamStatus where [go_consts]: "StreamStatusActive = ''active''"
definition StreamStatusClosed :: StreamStatus where [go_consts]: "StreamStatusClosed = ''closed''"
definition StreamStatusTimeout :: StreamStatus where [go_consts]: "StreamStatusTimeout = ''timeout''"

record StreamSession =
  ss_StreamId :: string
  ss_Resource :: string
  ss_Profile :: StreamProfile
  ss_SourcePeerId :: string
  ss_TargetPeerIds :: "string list"
  ss_Status :: StreamStatus
  ss_IdleTimeoutMs :: int
  ss_OpenedAt :: gotime
  ss_ClosedAt :: gotime
  ss_LastActiveAt :: gotime

record StreamOpenEvent =
  so_StreamId :: string
  so_Resource :: string
  so_Profile :: StreamProfile
  so_SourcePeerId :: string
  so_TargetPeerIds :: "string list"
  so_IdleTimeoutMs :: int

record StreamCloseEvent =
  sc_StreamId :: string
  sc_Reason :: string

record StreamService =
  st_topics :: TopicSet
  st_sessions :: "(string, StreamSession) gomap"

definition NewStreamService :: "TopicSet \<Rightarrow> StreamService" where
  "NewStreamService topics = \<lparr>st_topics = topics, st_sessions = []\<rparr>"

section \<open>Operations\<close>

datatype streamHandler = HStreamOpen | HStreamClose

definition streamStart ::
  "(string \<Rightarrow> go_error option) \<Rightarrow> StreamService \<Rightarrow> go_error option \<times> (string \<times> streamHandler) list" where
  "streamStart subscribe s = subscribeAll subscribe
     [(StreamOpen (st_topics s) ''*'', HStreamOpen), (StreamClose (st_topics s) ''*'', HStreamClose)]"

definition openSession :: "gotime \<Rightarrow> StreamOpenEvent \<Rightarrow> StreamSession" where
  "openSession now evt =
    (let session = \<lparr>ss_StreamId = so_StreamId evt, ss_Resource = so_Resource evt,
        ss_Profile = so_Profile evt, ss_SourcePeerId = so_SourcePeerId evt,
        ss_TargetPeerIds = so_TargetPeerIds evt, ss_Status = StreamStatusActive,
        ss_IdleTimeoutMs = so_IdleTimeoutMs evt, ss_OpenedAt = now, ss_ClosedAt = 0,
        ss_LastActiveAt = now\<rparr>;
      session = (if ss_Profile session = [] then session\<lparr>ss_Profile := StreamProfileFull\<rparr> else session)
     in if ss_IdleTimeoutMs session \<le> 0 then session\<lparr>ss_IdleTimeoutMs := 15000\<rparr> else session)"

definition handleStreamOpen ::
  "(bytes \<Rightarrow> StreamOpenEvent option) \<Rightarrow> gotime \<Rightarrow> StreamService \<Rightarrow> bytes \<Rightarrow> StreamService" where
  "handleStreamOpen unmarshal now s payload =
    (case unmarshal payload of
       None \<Rightarrow> s
     | Some evt \<Rightarrow> s\<lparr>st_sessions := gm_set (so_StreamId evt) (openSession now evt) (st_sessions s)\<rparr>)"

definition handleStreamClose ::
  "(bytes \<Rightarrow> StreamCloseEvent option) \<Rightarrow> gotime \<Rightarrow> StreamService \<Rightarrow> bytes \<Rightarrow> StreamService" where
  "handleStreamClose unmarshal now s payload =
    (case unmarshal payload of
       None \<Rightarrow> s
     | Some evt \<Rightarrow>
        (case map_of (st_sessions s) (sc_StreamId evt) of
           Some session \<Rightarrow> s\<lparr>st_sessions := gm_set (sc_StreamId evt)
             (session\<lparr>ss_Status := StreamStatusClosed, ss_ClosedAt := now\<rparr>) (st_sessions s)\<rparr>
         | None \<Rightarrow> s))"

definition OpenStream ::
  "(StreamOpenEvent \<Rightarrow> go_error + bytes) \<Rightarrow> publisher \<Rightarrow> string \<Rightarrow> StreamService \<Rightarrow> StreamOpenEvent \<Rightarrow>
     go_error option \<times> outbox" where
  "OpenStream marshal publish stamp s evt =
    (let evt = evt\<lparr>so_StreamId := ''strm-'' @ stamp\<rparr>
     in case marshal evt of
          Inl err \<Rightarrow> (Some err, [])
        | Inr data \<Rightarrow> (publish (StreamOpen (st_topics s) (so_Resource evt)) data,
            [(StreamOpen (st_topics s) (so_Resource evt), data)]))"

definition CloseStream ::
  "(StreamCloseEvent \<Rightarrow> go_error + bytes) \<Rightarrow> publisher \<Rightarrow> StreamService \<Rightarrow> string \<Rightarrow> string \<Rightarrow>
     go_error option \<times> outbox" where
  "CloseStream marshal publish s streamId reason =
    (case marshal \<lparr>sc_StreamId = streamId, sc_Reason = reason\<rparr> of
       Inl err \<Rightarrow> (Some err, [])
     | Inr data \<Rightarrow> (publish (StreamClose (st_topics s) ''*'') data, [(StreamClose (st_topics s) ''*'', data)]))"

definition GetSession :: "StreamService \<Rightarrow> string \<Rightarrow> StreamSession option" where
  "GetSession s streamId = map_of (st_sessions s) streamId"

definition ListSessions :: "StreamService \<Rightarrow> StreamSession list" where
  "ListSessions s = map snd (st_sessions s)"

definition sweepSession :: "gotime \<Rightarrow> duration \<Rightarrow> StreamSession \<Rightarrow> StreamSession" where
  "sweepSession now idleTimeout session =
    (if ss_Status session \<noteq> StreamStatusActive then session
     else let timeout = dur (ss_IdleTimeoutMs session) Millisecond;
              timeout = (if timeout \<le> 0 then idleTimeout else timeout)
          in if time_sub now (ss_LastActiveAt session) > timeout
             then session\<lparr>ss_Status := StreamStatusTimeout\<rparr> else session)"

definition SweepIdle :: "gotime \<Rightarrow> duration \<Rightarrow> StreamService \<Rightarrow> StreamService" where
  "SweepIdle now idleTimeout s = s\<lparr>st_sessions := gm_map (sweepSession now idleTimeout) (st_sessions s)\<rparr>"

section \<open>Runs\<close>

text \<open>One event of the service: a message on either topic, or a sweep.\<close>

inductive stream_step ::
  "(bytes \<Rightarrow> StreamOpenEvent option) \<Rightarrow> (bytes \<Rightarrow> StreamCloseEvent option) \<Rightarrow>
     StreamService \<Rightarrow> StreamService \<Rightarrow> bool" for unopen unclose where
  opened: "stream_step unopen unclose s (handleStreamOpen unopen now s payload)"
| closed: "stream_step unopen unclose s (handleStreamClose unclose now s payload)"
| swept: "stream_step unopen unclose s (SweepIdle now idle s)"

text \<open>Filed under its id, with a positive idle timeout and a profile, in one of the three
  statuses the service sets.\<close>

definition session_ok :: "string \<Rightarrow> StreamSession \<Rightarrow> bool" where
  "session_ok k ss \<longleftrightarrow> ss_StreamId ss = k \<and> 0 < ss_IdleTimeoutMs ss \<and> ss_Profile ss \<noteq> [] \<and>
     ss_Status ss \<in> {StreamStatusActive, StreamStatusClosed, StreamStatusTimeout} \<and>
     ss_LastActiveAt ss = ss_OpenedAt ss"

definition stream_inv :: "StreamService \<Rightarrow> bool" where
  "stream_inv s \<longleftrightarrow> wf_gomap (st_sessions s) \<and> (\<forall>k ss. GetSession s k = Some ss \<longrightarrow> session_ok k ss)"

named_theorems stream_get \<open>what a lookup gives after each operation\<close>

lemma GetSession_open [stream_get]:
  "GetSession (handleStreamOpen u now s payload) k =
    (case u payload of Some evt \<Rightarrow> if k = so_StreamId evt then Some (openSession now evt) else GetSession s k
      | None \<Rightarrow> GetSession s k)"
  by (simp add: handleStreamOpen_def GetSession_def gomap_simps split: option.split)

lemma GetSession_close [stream_get]:
  "GetSession (handleStreamClose u now s payload) k =
    (case u payload of Some evt \<Rightarrow> if k = sc_StreamId evt
        then map_option (\<lambda>ss. ss\<lparr>ss_Status := StreamStatusClosed, ss_ClosedAt := now\<rparr>) (GetSession s k)
        else GetSession s k
      | None \<Rightarrow> GetSession s k)"
  by (simp add: handleStreamClose_def GetSession_def gomap_simps split: option.split)

lemma GetSession_sweep [stream_get]:
  "GetSession (SweepIdle now idle s) k = map_option (sweepSession now idle) (GetSession s k)"
  by (simp add: SweepIdle_def GetSession_def gomap_simps)

lemma openSession_ok: "session_ok (so_StreamId evt) (openSession now evt)"
  by (simp add: session_ok_def openSession_def Let_def StreamProfileFull_def)

lemma sweepSession_ok: "session_ok k ss \<Longrightarrow> session_ok k (sweepSession now idle ss)"
  by (simp add: session_ok_def sweepSession_def Let_def) blast

lemma stream_step_inv:
  assumes "stream_step u v s s'" "stream_inv s"
  shows "stream_inv s'"
  using assms(1)
proof cases
  case (opened now payload)
  have "wf_gomap (st_sessions s')"
    using assms(2) by (simp add: opened stream_inv_def handleStreamOpen_def split: option.split)
  with assms(2) openSession_ok show ?thesis
    by (auto simp: opened stream_inv_def stream_get split: option.splits if_splits)
next
  case (closed now payload)
  have "wf_gomap (st_sessions s')"
    using assms(2) by (simp add: closed stream_inv_def handleStreamClose_def split: option.split)
  with assms(2) show ?thesis
    by (auto simp: closed stream_inv_def stream_get session_ok_def split: option.splits if_splits)
next
  case (swept now idle)
  have "wf_gomap (st_sessions s')"
    using assms(2) by (simp add: swept stream_inv_def SweepIdle_def)
  with assms(2) sweepSession_ok show ?thesis
    by (auto simp: swept stream_inv_def stream_get)
qed

lemma stream_reachable_inv:
  "(stream_step u v)\<^sup>*\<^sup>* (NewStreamService topics) s \<Longrightarrow> stream_inv s"
proof (induction rule: rtranclp_induct)
  case base
  show ?case by (simp add: stream_inv_def NewStreamService_def GetSession_def)
next
  case (step y z)
  then show ?case by (blast intro: stream_step_inv)
qed

section \<open>Properties\<close>

text \<open>
  C37: in every state the service can reach, a sweep at time \<open>now\<close> puts in the timeout status exactly
  the active sessions whose own idle timeout has passed since they were opened (nothing
  ever refreshes a session), whatever default the sweep is given, and leaves every other
  session, closed ones included, as it is. The timeout is the one of the open event, or
  15 seconds, as long as it is below the 64-bit range in nanoseconds.
\<close>

theorem sweep_times_out_idle:
  assumes "(stream_step unopen unclose)\<^sup>*\<^sup>* (NewStreamService topics) s"
    "GetSession s k = Some ss" "ss_IdleTimeoutMs ss * Millisecond < 2 ^ 63 - 1"
  shows "GetSession (SweepIdle now idle s) k =
    Some (if ss_Status ss = StreamStatusActive \<and> now - ss_OpenedAt ss > ss_IdleTimeoutMs ss * Millisecond
          then ss\<lparr>ss_Status := StreamStatusTimeout\<rparr> else ss)"
proof -
  have ok: "session_ok k ss"
    using stream_reachable_inv [OF assms(1)] assms(2) by (simp add: stream_inv_def)
  let ?t = "ss_IdleTimeoutMs ss * Millisecond"
  have "in_i64 ?t" "0 < ?t"
    using ok assms(3) by (simp_all add: in_i64_def session_ok_def Millisecond_def)
  then have "dur (ss_IdleTimeoutMs ss) Millisecond = ?t"
    "?t < time_sub now (ss_OpenedAt ss) \<longleftrightarrow> ?t < now - ss_OpenedAt ss"
    using assms(3) by (simp_all only: dur_def wrap64_id time_sub_gt_iff)
  with ok \<open>0 < ?t\<close> show ?thesis
    by (simp add: stream_get assms(2) sweepSession_def Let_def session_ok_def)
qed

definition demoOpen :: StreamOpenEvent where
  "demoOpen = \<lparr>so_StreamId = ''s1'', so_Resource = ''cam'', so_Profile = [], so_SourcePeerId = ''p'',
     so_TargetPeerIds = [], so_IdleTimeoutMs = 0\<rparr>"

definition demoStream :: StreamService where
  "demoStream = handleStreamOpen (\<lambda>p. Some demoOpen) 3 (NewStreamService (NewDefaultTopicSet ''t'')) []"

theorem sweep_times_out_idle_witness:
  "GetSession (SweepIdle 20000000000 0 demoStream) ''s1'' =
    Some (if ss_Status (openSession 3 demoOpen) = StreamStatusActive \<and>
            20000000000 - ss_OpenedAt (openSession 3 demoOpen) > ss_IdleTimeoutMs (openSession 3 demoOpen) * Millisecond
          then (openSession 3 demoOpen)\<lparr>ss_Status := StreamStatusTimeout\<rparr> else openSession 3 demoOpen)"
proof (rule sweep_times_out_idle)
  show "(stream_step (\<lambda>p. Some demoOpen) (\<lambda>p. None))\<^sup>*\<^sup>* (NewStreamService (NewDefaultTopicSet ''t'')) demoStream"
    unfolding demoStream_def by (rule r_into_rtranclp) (rule stream_step.opened)
qed code_simp+

end
