(* ===== verification/Coap.thy ===== *)
theory Coap
  imports Go_Prelude
begin

text \<open>
  The CoAP packets. The repository has two copies of the encoder and the parser: one in
  \<open>adapter/coap_bridge.go\<close> (\<open>buildCoapRequest\<close>, \<open>parseCoapPayload\<close>) and one in
  \<open>api/handler.go\<close> (\<open>buildCoapPacket\<close>, \<open>parseCoapPayloadBytes\<close>). Both are modelled as
  they stand. The locale \<open>coap_codec\<close> states what a copy has to be, over a parser
  \<open>scanOptions\<close> on the remaining bytes, and is interpreted for each copy.

  A parser that reads outside the data would panic: an indexing is \<open>idx\<close>, and \<open>None\<close> is
  the panic. Lengths and positions are natural numbers; the conversions \<open>byte(n)\<close>
  truncate. A nil and an empty result are the same.
\<close>

section \<open>The language\<close>

definition idx :: "'a list \<Rightarrow> nat \<Rightarrow> 'a option" where
  "idx xs i = (if i < length xs then Some (xs ! i) else None)"

definition str_bytes :: "string \<Rightarrow> bytes" where
  "str_bytes s = map of_char s"

definition to_byte :: "nat \<Rightarrow> byte" where
  "to_byte n = word_of_nat n"

section \<open>The bridge's codec\<close>

definition encodeCoapOptionNibble :: "nat \<Rightarrow> nat \<times> bytes" where
  "encodeCoapOptionNibble v =
    (if v < 13 then (v, [])
     else if v < 269 then (13, [to_byte (v - 13)])
     else let n = v - 269 in (14, [to_byte (drop_bit 8 n), to_byte (n AND 0xff)]))"

definition encodeCoapOption :: "nat \<Rightarrow> string \<Rightarrow> bytes" where
  "encodeCoapOption num val =
    (case encodeCoapOptionNibble num of (deltaNibble, deltaExt) \<Rightarrow>
       let valBytes = str_bytes val
       in case encodeCoapOptionNibble (length valBytes) of (lengthNibble, lengthExt) \<Rightarrow>
            [to_byte (push_bit 4 deltaNibble OR lengthNibble)] @ deltaExt @ lengthExt @ valBytes)"

definition coapCode :: "string \<Rightarrow> byte" where
  "coapCode method =
    (if method = ''GET'' then 0x01 else if method = ''POST'' then 0x02
     else if method = ''PUT'' then 0x03 else if method = ''DELETE'' then 0x04 else 0x01)"

text \<open>The packet, and the counter of message ids after it.\<close>

definition buildCoapRequest :: "32 word \<Rightarrow> string \<Rightarrow> string \<Rightarrow> bytes \<Rightarrow> bytes \<times> 32 word" where
  "buildCoapRequest counter method path payload =
    (let code = coapCode method;
         counter = counter + 1;
         msgId = (ucast (counter AND 0xffff) :: 16 word);
         pkt = [0x40, code, ucast (drop_bit 8 msgId), ucast (msgId AND 0xff)]
           @ encodeCoapOption 11 path
     in (if length payload > 0 then pkt @ [0xff] @ payload else pkt, counter))"

text \<open>An extended option delta or length: the value and the new position.\<close>

definition readExt :: "bytes \<Rightarrow> nat \<Rightarrow> nat \<Rightarrow> (nat \<times> nat) option" where
  "readExt data v pos =
    (if v = 13 \<and> pos < length data
     then (case idx data pos of None \<Rightarrow> None | Some b \<Rightarrow> Some (unat b + 13, pos + 1))
     else if v = 14 \<and> pos + 1 < length data
     then (case (idx data pos, idx data (pos + 1)) of
             (Some b, Some c) \<Rightarrow> Some ((push_bit 8 (unat b) OR unat c) + 269, pos + 2)
           | _ \<Rightarrow> None)
     else Some (v, pos))"

lemma readExt_pos: "readExt data v pos = Some (v', pos') \<Longrightarrow> pos \<le> pos'"
  by (auto simp: readExt_def split: if_splits option.splits)

function (sequential) parseLoop :: "bytes \<Rightarrow> nat \<Rightarrow> bytes option" where
  "parseLoop data pos =
    (if pos < length data
     then (case idx data pos of
         None \<Rightarrow> None
       | Some b \<Rightarrow>
          if b = 0xff
          then (if pos + 1 < length data then Some (drop (pos + 1) data) else Some [])
          else (case readExt data (unat (drop_bit 4 b)) (pos + 1) of
              None \<Rightarrow> None
            | Some (delta, pos1) \<Rightarrow>
               (case readExt data (unat (b AND 0x0f)) pos1 of
                  None \<Rightarrow> None
                | Some (len, pos2) \<Rightarrow>
                    if int len > int (length data) - int pos2 then Some []
                    else parseLoop data (pos2 + len))))
     else Some [])"
  by pat_completeness auto
termination
  by (relation "measure (\<lambda>(data, pos). length data - pos)") (auto dest!: readExt_pos)

declare parseLoop.simps [simp del]

definition parseCoapPayload :: "bytes \<Rightarrow> bytes option" where
  "parseCoapPayload data =
    (if length data < 4 then Some []
     else (case idx data 0 of None \<Rightarrow> None | Some b0 \<Rightarrow>
        let tkl = b0 AND 0x0f; pos = 4 + unat tkl
        in (case idx data 1 of None \<Rightarrow> None | Some code \<Rightarrow>
             if pos \<ge> length data then Some [] else parseLoop data pos)))"

section \<open>The API's codec\<close>

definition encodeCoapNibble :: "nat \<Rightarrow> nat \<times> bytes" where
  "encodeCoapNibble v =
    (if v < 13 then (v, [])
     else if v < 269 then (13, [to_byte (v - 13)])
     else let n = v - 269 in (14, [to_byte (drop_bit 8 n), to_byte n]))"

definition encodeCoapOptionPath :: "string \<Rightarrow> bytes" where
  "encodeCoapOptionPath path =
    (case encodeCoapNibble 11 of (deltaNibble, deltaExt) \<Rightarrow>
       let val = str_bytes path
       in case encodeCoapNibble (length val) of (lengthNibble, lengthExt) \<Rightarrow>
            [to_byte (push_bit 4 deltaNibble OR lengthNibble)] @ deltaExt @ lengthExt @ val)"

definition coapCodeOf :: "string \<Rightarrow> byte" where
  "coapCodeOf method = (if method = ''POST'' then 0x02 else if method = ''PUT'' then 0x03
     else if method = ''DELETE'' then 0x04 else 0x01)"

text \<open>\<open>nanos\<close> is \<open>time.Now().UnixNano()\<close>.\<close>

definition buildCoapPacket :: "64 word \<Rightarrow> string \<Rightarrow> string \<Rightarrow> bytes \<Rightarrow> bytes" where
  "buildCoapPacket nanos method path payload =
    (let code = coapCodeOf method;
         msgID = (ucast (nanos AND 0xffff) :: 16 word);
         pkt = [0x40, code, ucast (drop_bit 8 msgID), ucast msgID] @ encodeCoapOptionPath path
     in if length payload > 0 then pkt @ [0xff] @ payload else pkt)"

text \<open>The skip over an extended delta: only the position changes.\<close>

definition skipExt :: "bytes \<Rightarrow> nat \<Rightarrow> nat \<Rightarrow> nat" where
  "skipExt data delta pos =
    (if delta = 13 \<and> pos < length data then pos + 1
     else if delta = 14 \<and> pos + 1 < length data then pos + 2 else pos)"

function (sequential) parseBytesLoop :: "bytes \<Rightarrow> nat \<Rightarrow> bytes option" where
  "parseBytesLoop data pos =
    (if pos < length data
     then (case idx data pos of
         None \<Rightarrow> None
       | Some b \<Rightarrow>
          if b = 0xff
          then (if pos + 1 < length data then Some (drop (pos + 1) data) else Some [])
          else (case readExt data (unat (b AND 0x0f)) (skipExt data (unat (drop_bit 4 b)) (pos + 1)) of
                  None \<Rightarrow> None
                | Some (len, pos2) \<Rightarrow>
                    if int len > int (length data) - int pos2 then Some []
                    else parseBytesLoop data (pos2 + len)))
     else Some [])"
  by pat_completeness auto
termination
  by (relation "measure (\<lambda>(data, pos). length data - pos)")
    (auto simp: skipExt_def dest!: readExt_pos split: if_splits)

declare parseBytesLoop.simps [simp del]

definition parseCoapPayloadBytes :: "bytes \<Rightarrow> bytes option" where
  "parseCoapPayloadBytes data =
    (if length data < 4 then Some []
     else (case idx data 0 of None \<Rightarrow> None
       | Some b0 \<Rightarrow> parseBytesLoop data (4 + unat (b0 AND 0x0f))))"

section \<open>A parser on the remaining bytes\<close>

fun extOf :: "nat \<Rightarrow> bytes \<Rightarrow> nat \<times> bytes" where
  "extOf v rest =
    (if v = 13 then (case rest of b # rest' \<Rightarrow> (unat b + 13, rest') | [] \<Rightarrow> (v, rest))
     else if v = 14 then (case rest of b # c # rest' \<Rightarrow> ((push_bit 8 (unat b) OR unat c) + 269, rest') | _ \<Rightarrow> (v, rest))
     else (v, rest))"

declare extOf.simps [simp del]

lemma extOf_length: "length (snd (extOf v rest)) \<le> length rest"
  by (auto simp: extOf.simps split: list.split)

function scanOptions :: "bytes \<Rightarrow> bytes" where
  "scanOptions [] = []"
| "scanOptions (b # rest) =
    (if b = 0xff then rest
     else let rest1 = snd (extOf (unat (drop_bit 4 b)) rest);
              (len, rest2) = extOf (unat (b AND 0x0f)) rest1
          in if len > length rest2 then [] else scanOptions (drop len rest2))"
  by pat_completeness auto
termination
proof (relation "measure length")
  fix b :: byte and rest rest1 rest2 len x
  assume "rest1 = snd (extOf (unat (drop_bit 4 b)) rest)" "x = extOf (unat (b AND 0x0f)) rest1" "(len, rest2) = x"
  then have "length rest2 \<le> length rest"
    by (metis extOf_length order_trans snd_conv)
  then show "(drop len rest2, b # rest) \<in> measure length" by simp
qed simp

declare scanOptions.simps(2) [simp del]

text \<open>The payload is what follows a marker: never invented bytes.\<close>

lemma extOf_suffix: "suffix (snd (extOf v rest)) rest"
  by (auto simp: extOf.simps suffix_ConsI split: list.split)

lemma scanOptions_suffix: "scanOptions rest = [] \<or> (\<exists>pre. rest = pre @ 0xff # scanOptions rest)"
proof (induction rest rule: scanOptions.induct)
  case (2 b rest)
  show ?case
  proof (cases "b = 0xff")
    case True
    then show ?thesis by (auto simp: scanOptions.simps)
  next
    case False
    obtain len rest2 where e: "extOf (unat (b AND 0x0f)) (snd (extOf (unat (drop_bit 4 b)) rest)) = (len, rest2)"
      by fastforce
    have "suffix (drop len rest2) (b # rest)"
      by (metis e extOf_suffix snd_conv suffix_ConsI suffix_drop suffix_order.trans)
    then obtain p where p: "b # rest = p @ drop len rest2" by (auto simp: suffix_def)
    show ?thesis
    proof (cases "len > length rest2")
      case True
      with False e show ?thesis by (simp add: scanOptions.simps)
    next
      case small: False
      with False e have s: "scanOptions (b # rest) = scanOptions (drop len rest2)"
        by (simp add: scanOptions.simps)
      from "2.IH" [OF False refl _ refl small] e
      consider "scanOptions (drop len rest2) = []"
        | pre where "drop len rest2 = pre @ 0xff # scanOptions (drop len rest2)"
        by auto
      then show ?thesis
      proof cases
        case (2 pre)
        then have "b # rest = (p @ pre) @ 0xff # scanOptions (b # rest)"
          using p s by simp
        then show ?thesis by blast
      qed (simp add: s)
    qed
  qed
qed simp

section \<open>Both parsers are it\<close>

lemma drop_idx: "pos < length data \<Longrightarrow> drop pos data = data ! pos # drop (pos + 1) data"
  by (simp add: Cons_nth_drop_Suc)

lemma readExt_extOf:
  assumes "pos \<le> length data"
  shows "\<exists>pos'. readExt data v pos = Some (fst (extOf v (drop pos data)), pos') \<and>
    snd (extOf v (drop pos data)) = drop pos' data \<and> pos' \<le> length data"
proof -
  consider "v = 13" "pos < length data" | "v = 14" "pos + 1 < length data"
    | "v = 13" "pos = length data" | "v = 14" "pos + 1 \<ge> length data" | "v \<noteq> 13" "v \<noteq> 14"
    using assms by linarith
  then show ?thesis
  proof cases
    case 2
    then have "drop pos data = data ! pos # data ! (pos + 1) # drop (pos + 2) data"
      using drop_idx [of pos data] drop_idx [of "pos + 1" data] by simp
    with 2 show ?thesis by (simp add: readExt_def extOf.simps idx_def)
  next
    case 4
    then have "length (drop pos data) \<le> 1" by simp
    then have "extOf v (drop pos data) = (v, drop pos data)"
      using 4 by (cases "drop pos data") (auto simp: extOf.simps split: list.split)
    with 4 assms show ?thesis by (simp add: readExt_def)
  qed (use assms in \<open>auto simp: readExt_def extOf.simps idx_def drop_idx\<close>)
qed

lemma skipExt_extOf:
  "pos \<le> length data \<Longrightarrow> snd (extOf v (drop pos data)) = drop (skipExt data v pos) data \<and>
     skipExt data v pos \<le> length data"
  using readExt_extOf [of pos data v] by (auto simp: readExt_def skipExt_def idx_def split: if_splits)

lemma parseLoop_scan: "parseLoop data pos = Some (scanOptions (drop pos data))"
proof (induction data pos rule: parseLoop.induct)
  case (1 data pos)
  show ?case
  proof (cases "pos < length data")
    case True
    let ?b = "data ! pos"
    obtain pos1 where 1: "readExt data (unat (drop_bit 4 ?b)) (pos + 1) =
          Some (fst (extOf (unat (drop_bit 4 ?b)) (drop (pos + 1) data)), pos1)"
        "snd (extOf (unat (drop_bit 4 ?b)) (drop (pos + 1) data)) = drop pos1 data" "pos1 \<le> length data"
      using readExt_extOf [of "pos + 1" data] True by force
    obtain len pos2 where 2: "readExt data (unat (?b AND 0x0f)) pos1 = Some (len, pos2)"
        "extOf (unat (?b AND 0x0f)) (drop pos1 data) = (len, drop pos2 data)" "pos2 \<le> length data"
      using readExt_extOf [OF 1(3)] by (metis prod.collapse)
    have "int len > int (length data) - int pos2 \<longleftrightarrow> len > length (drop pos2 data)"
      using 2(3) by auto
    with True 1 2 "1.IH" [OF True, of ?b _ _ pos1 _ len pos2] show ?thesis
      by (subst parseLoop.simps) (auto simp: idx_def drop_idx scanOptions.simps add.commute)
  qed (simp add: parseLoop.simps)
qed

lemma parseBytesLoop_scan: "parseBytesLoop data pos = Some (scanOptions (drop pos data))"
proof (induction data pos rule: parseBytesLoop.induct)
  case (1 data pos)
  show ?case
  proof (cases "pos < length data")
    case True
    let ?b = "data ! pos"
    let ?p = "skipExt data (unat (drop_bit 4 ?b)) (pos + 1)"
    have 1: "snd (extOf (unat (drop_bit 4 ?b)) (drop (pos + 1) data)) = drop ?p data" "?p \<le> length data"
      using skipExt_extOf [of "pos + 1" data] True by auto
    obtain len pos2 where 2: "readExt data (unat (?b AND 0x0f)) ?p = Some (len, pos2)"
        "extOf (unat (?b AND 0x0f)) (drop ?p data) = (len, drop pos2 data)" "pos2 \<le> length data"
      using readExt_extOf [OF 1(2)] by (metis prod.collapse)
    have "int len > int (length data) - int pos2 \<longleftrightarrow> len > length (drop pos2 data)"
      using 2(3) by auto
    with True 1 2 "1.IH" [OF True, of ?b _ len pos2] show ?thesis
      by (subst parseBytesLoop.simps) (auto simp: idx_def drop_idx scanOptions.simps add.commute)
  qed (simp add: parseBytesLoop.simps)
qed

section \<open>Encoding an option and reading it back\<close>

lemma nibble_le: "fst (encodeCoapOptionNibble v) \<le> 14"
  by (simp add: encodeCoapOptionNibble_def Let_def)

lemma option_head:
  assumes "l \<le> 14"
  shows "to_byte (push_bit 4 11 OR l) \<noteq> 0xff \<and> unat (drop_bit 4 (to_byte (push_bit 4 11 OR l))) = 11 \<and>
    unat (to_byte (push_bit 4 11 OR l) AND 0x0f) = l"
proof -
  have "\<forall>l \<in> set [0..<15]. to_byte (push_bit 4 11 OR l) \<noteq> 0xff \<and>
      unat (drop_bit 4 (to_byte (push_bit 4 11 OR l))) = 11 \<and>
      unat (to_byte (push_bit 4 11 OR l) AND 0x0f) = l"
    by code_simp
  moreover have "l \<in> set [0..<15]" using assms by simp
  ultimately show ?thesis by blast
qed

lemma unat_to_byte: "unat (to_byte n) = n mod 256"
  by (simp add: to_byte_def unat_of_nat take_bit_eq_mod)

lemma two_bytes: "n < 65536 \<Longrightarrow> push_bit 8 (n div 256) OR (n mod 256) = (n :: nat)"
proof -
  have "push_bit 8 (drop_bit 8 n) OR take_bit 8 n = n"
    by (rule bit_eqI) (auto simp: bit_simps)
  then show ?thesis by (simp add: drop_bit_eq_div take_bit_eq_mod)
qed

lemma and_255: "n AND 255 = n mod 256" for n :: nat
  using take_bit_eq_mask [of 8 n] by (simp add: take_bit_eq_mod mask_eq_exp_minus_1)

lemma extOf_nibble:
  assumes "v < 65805"
  shows "extOf (fst (encodeCoapOptionNibble v)) (snd (encodeCoapOptionNibble v) @ rest) = (v, rest)"
  using assms two_bytes [of "v - 269"]
  by (auto simp: encodeCoapOptionNibble_def extOf.simps Let_def unat_to_byte drop_bit_eq_div and_255)

lemma encodeCoapOption_eq:
  "encodeCoapOption 11 p = to_byte (push_bit 4 11 OR fst (encodeCoapOptionNibble (length p)))
     # snd (encodeCoapOptionNibble (length p)) @ str_bytes p"
  by (simp add: encodeCoapOption_def encodeCoapOptionNibble_def [of 11] str_bytes_def Let_def split: prod.split)

lemma scan_option:
  assumes "length p < 65805"
  shows "scanOptions (encodeCoapOption 11 p @ rest) = scanOptions rest"
proof -
  let ?l = "fst (encodeCoapOptionNibble (length p))"
  have "extOf 11 r = (11, r)" for r by (simp add: extOf.simps)
  then show ?thesis
    using option_head [OF nibble_le [of "length p"]]
      extOf_nibble [OF assms, of "str_bytes p @ rest"]
    by (simp add: encodeCoapOption_eq scanOptions.simps) (simp add: str_bytes_def)
qed

text \<open>What a codec is: a header of four bytes without a token, the path as one Uri-Path
  option, the payload behind the marker; and a parser that skips the token and the
  options of any packet.\<close>

locale coap_codec =
  fixes build :: "'i \<Rightarrow> string \<Rightarrow> string \<Rightarrow> bytes \<Rightarrow> bytes"
    and parse :: "bytes \<Rightarrow> bytes option"
  assumes build_shape: "\<exists>hi lo. build i method path payload =
      [0x40, coapCode method, hi, lo] @ encodeCoapOption 11 path @
      (if payload = [] then [] else 0xff # payload)"
    and parse_scan: "parse data = Some (if length data < 4 then []
      else scanOptions (drop (4 + unat (data ! 0 AND 0x0f)) data))"
begin

lemma roundtrip:
  assumes "length path < 65805"
  shows "parse (build i method path payload) = Some payload"
proof -
  obtain hi lo where b: "build i method path payload =
      [0x40, coapCode method, hi, lo] @ encodeCoapOption 11 path @ (if payload = [] then [] else 0xff # payload)"
    using build_shape by blast
  have "unat ((0x40 :: byte) AND 0x0f) = 0" by code_simp
  then have "parse (build i method path payload) =
      Some (scanOptions (encodeCoapOption 11 path @ (if payload = [] then [] else 0xff # payload)))"
    unfolding parse_scan b by simp
  with scan_option [OF assms] show ?thesis
    by (simp add: scanOptions.simps)
qed

lemma no_panic_suffix:
  "\<exists>payload. parse data = Some payload \<and> (payload = [] \<or> (\<exists>pre. data = pre @ 0xff # payload))"
proof (cases "length data < 4")
  case False
  let ?n = "4 + unat (data ! 0 AND 0x0f)"
  have "scanOptions (drop ?n data) = [] \<or> (\<exists>pre. data = pre @ 0xff # scanOptions (drop ?n data))"
    using scanOptions_suffix [of "drop ?n data"] append_take_drop_id [of ?n data]
    by (metis append.assoc)
  with False show ?thesis by (simp add: parse_scan)
qed (simp add: parse_scan)

end

lemma encodeCoapNibble_eq: "encodeCoapNibble v = encodeCoapOptionNibble v"
proof -
  have "to_byte (n AND 255) = to_byte n" for n
    by (simp add: word_unat_eq_iff unat_to_byte and_255)
  then show ?thesis by (simp add: encodeCoapNibble_def encodeCoapOptionNibble_def Let_def)
qed

lemma encodeCoapOptionPath_eq: "encodeCoapOptionPath p = encodeCoapOption 11 p"
  by (simp add: encodeCoapOptionPath_def encodeCoapOption_def encodeCoapNibble_eq)

lemma coapCodeOf_eq: "coapCodeOf m = coapCode m"
  by (simp add: coapCodeOf_def coapCode_def)

interpretation bridge: coap_codec "\<lambda>counter m p d. fst (buildCoapRequest counter m p d)" parseCoapPayload
proof
  fix i m p d
  show "\<exists>hi lo. fst (buildCoapRequest i m p d) =
      [0x40, coapCode m, hi, lo] @ encodeCoapOption 11 p @ (if d = [] then [] else 0xff # d)"
    by (simp add: buildCoapRequest_def Let_def)
  show "parseCoapPayload d = Some (if length d < 4 then []
      else scanOptions (drop (4 + unat (d ! 0 AND 0x0f)) d))"
    by (simp add: parseCoapPayload_def idx_def Let_def parseLoop_scan)
qed

interpretation api: coap_codec buildCoapPacket parseCoapPayloadBytes
proof
  fix i m p d
  show "\<exists>hi lo. buildCoapPacket i m p d =
      [0x40, coapCode m, hi, lo] @ encodeCoapOption 11 p @ (if d = [] then [] else 0xff # d)"
    by (simp add: buildCoapPacket_def Let_def encodeCoapOptionPath_eq coapCodeOf_eq)
  show "parseCoapPayloadBytes d = Some (if length d < 4 then []
      else scanOptions (drop (4 + unat (d ! 0 AND 0x0f)) d))"
    by (simp add: parseCoapPayloadBytes_def idx_def parseBytesLoop_scan)
qed

section \<open>Properties\<close>

text \<open>
  C23: a payload put in a packet by either encoder comes back from either parser, for every
  method, message id and payload, the empty one included, and every path that the
  two-byte option length can hold.
\<close>

theorem coap_roundtrip:
  assumes "length path < 65805"
  shows "parseCoapPayload (fst (buildCoapRequest counter method path payload)) = Some payload \<and>
    parseCoapPayloadBytes (buildCoapPacket nanos method path payload) = Some payload"
  using assms by (simp add: bridge.roundtrip api.roundtrip)

theorem coap_roundtrip_witness:
  "parseCoapPayload (fst (buildCoapRequest 0xffffffff ''PUT'' ''/a/rather/long/path'' [0xff, 0x00])) =
     Some [0xff, 0x00] \<and>
   parseCoapPayloadBytes (buildCoapPacket 7 ''PUT'' ''/a/rather/long/path'' [0xff, 0x00]) = Some [0xff, 0x00]"
  by (rule coap_roundtrip) simp

text \<open>
  C22: on every sequence of bytes that a device may send, the two parsers end, never read
  outside the data, give the same payload, and that payload is empty or the bytes that
  follow a payload marker of the packet. The two encoders differ in the message id only.
\<close>

theorem coap_copies_agree:
  "parseCoapPayload data = parseCoapPayloadBytes data \<and>
   (\<exists>payload. parseCoapPayload data = Some payload \<and>
      (payload = [] \<or> (\<exists>pre. data = pre @ 0xff # payload))) \<and>
   take 2 (fst (buildCoapRequest counter method path body)) = take 2 (buildCoapPacket nanos method path body) \<and>
   drop 4 (fst (buildCoapRequest counter method path body)) = drop 4 (buildCoapPacket nanos method path body)"
proof (intro conjI)
  show "parseCoapPayload data = parseCoapPayloadBytes data"
    unfolding bridge.parse_scan api.parse_scan ..
  show "\<exists>payload. parseCoapPayload data = Some payload \<and>
      (payload = [] \<or> (\<exists>pre. data = pre @ 0xff # payload))"
    by (rule bridge.no_panic_suffix)
qed (simp_all add: buildCoapRequest_def buildCoapPacket_def Let_def encodeCoapOptionPath_eq coapCodeOf_eq)

end
