(* ===== verification/Bridges.thy ===== *)
theory Bridges
  imports Coap Topics Mq
begin

text \<open>
  The protocol bridges (\<open>adapter/http_bridge.go\<close>, \<open>adapter/coap_bridge.go\<close>,
  \<open>adapter/mqtt_bridge.go\<close>): the circuit breaker, the retry loops, the handlers of
  requests and events, the dead-letter queue, and the worker queue of the CoAP bridge.

  The outside world is a parameter: \<open>env\<close> holds the codec and the MQ client, \<open>call\<close> gives the
  outcome of the n-th attempt at an HTTP or UDP exchange and \<open>clock\<close> the time read
  after it. An operation returns the bridge, what it published and, for HTTP, the
  requests it made. The breaker contract is the locale \<open>circuit_breaker\<close>, interpreted
  for both bridges.
\<close>

section \<open>Shared parts\<close>

fun nat_str :: "nat \<Rightarrow> string" where
  "nat_str n = (if n < 10 then [char_of (48 + n)] else nat_str (n div 10) @ [char_of (48 + n mod 10)])"

declare nat_str.simps [simp del]

text \<open>\<open>strconv.Itoa\<close>\<close>

definition itoa :: "int \<Rightarrow> string" where
  "itoa i = (if i < 0 then ''-'' @ nat_str (nat (- i)) else nat_str (nat i))"

definition errBody :: "string \<Rightarrow> bytes" where
  "errBody code = str_bytes (''{\"error\":\"'' @ code @ ''\"}'')"

datatype bridgeMetric =
    BridgeRequestsTotal string string string
  | BridgeLatencyMs string string int
  | BridgeRetriesTotal string

record DlqEvent =
  dl_protocol :: string
  dl_peer_id :: string
  dl_reason :: string
  dl_topic :: string
  dl_payload :: string
  dl_ts :: gotime

record BridgeEnv =
  be_marshal :: "DdMessage \<Rightarrow> go_error + bytes"
  be_unmarshal :: "bytes \<Rightarrow> DdMessage \<Rightarrow> go_error + DdMessage"
  be_gzip :: "bytes \<Rightarrow> go_error + bytes"
  be_gunzip :: "bytes \<Rightarrow> go_error + bytes"
  be_publish :: publisher
  be_marshalDLQ :: "DlqEvent \<Rightarrow> go_error + bytes"
  be_b64 :: "bytes \<Rightarrow> string"

section \<open>The HTTP bridge\<close>

record HttpBridge =
  hbr_topics :: TopicSet
  hbr_peerId :: string
  hbr_targetUrl :: string
  hbr_retries :: nat
  hbr_cbFails :: nat
  hbr_cbOpenUntil :: gotime
  hbr_metrics :: "bridgeMetric list"

definition NewHttpBridge :: "TopicSet \<Rightarrow> string \<Rightarrow> string \<Rightarrow> HttpBridge" where
  "NewHttpBridge topics peerId targetUrl =
     \<lparr>hbr_topics = topics, hbr_peerId = peerId, hbr_targetUrl = targetUrl, hbr_retries = 2,
      hbr_cbFails = 0, hbr_cbOpenUntil = 0, hbr_metrics = []\<rparr>"

datatype bridgeHandler = HSyncRequest | HAsyncEvent

text \<open>The bridges wrap the error of a subscription: \<open>fmt.Errorf("<what> <topic>: %w", err)\<close>.\<close>

fun subscribeLabelled :: "(string \<Rightarrow> go_error option) \<Rightarrow> (string \<times> string \<times> 'h) list \<Rightarrow>
    go_error option \<times> (string \<times> 'h) list" where
  "subscribeLabelled subscribe [] = (None, [])"
| "subscribeLabelled subscribe ((what, t, h) # subs) =
     (case subscribe t of
        Some err \<Rightarrow> (Some (PlainErr (what @ '' '' @ t @ '': '' @ error_text err)), [])
      | None \<Rightarrow> (case subscribeLabelled subscribe subs of (r, done) \<Rightarrow> (r, (t, h) # done)))"

lemma subscribeLabelled_all:
  "snd (subscribeLabelled subscribe subs) = snd (subscribeAll subscribe (map snd subs))"
  "fst (subscribeLabelled subscribe subs) = None \<longleftrightarrow> fst (subscribeAll subscribe (map snd subs)) = None"
  by (induction subscribe subs rule: subscribeLabelled.induct) (auto split: option.split prod.split)

definition httpStart ::
  "(string \<Rightarrow> go_error option) \<Rightarrow> HttpBridge \<Rightarrow> go_error option \<times> (string \<times> bridgeHandler) list" where
  "httpStart subscribe b = subscribeLabelled subscribe
     [(''subscribe request topic'', TransferRequest (hbr_topics b) (hbr_peerId b), HSyncRequest),
      (''subscribe event topic'', EventPublish (hbr_topics b) (hbr_peerId b), HAsyncEvent)]"

definition httpCount :: "bridgeMetric \<Rightarrow> HttpBridge \<Rightarrow> HttpBridge" where
  "httpCount m b = b\<lparr>hbr_metrics := hbr_metrics b @ [m]\<rparr>"

definition http_markFailure :: "gotime \<Rightarrow> HttpBridge \<Rightarrow> HttpBridge" where
  "http_markFailure now b =
    (let b = b\<lparr>hbr_cbFails := hbr_cbFails b + 1\<rparr>
     in if hbr_cbFails b \<ge> 3 then b\<lparr>hbr_cbOpenUntil := now + dur 5 Second\<rparr> else b)"

definition http_markSuccess :: "HttpBridge \<Rightarrow> HttpBridge" where
  "http_markSuccess b = b\<lparr>hbr_cbFails := 0, hbr_cbOpenUntil := 0\<rparr>"

definition http_isCircuitOpen :: "gotime \<Rightarrow> HttpBridge \<Rightarrow> bool" where
  "http_isCircuitOpen now b \<longleftrightarrow> now < hbr_cbOpenUntil b"

definition http_publishDLQ ::
  "BridgeEnv \<Rightarrow> gotime \<Rightarrow> HttpBridge \<Rightarrow> string \<Rightarrow> string \<Rightarrow> bytes \<Rightarrow> outbox" where
  "http_publishDLQ env now b reason topic payload =
    (case be_marshalDLQ env \<lparr>dl_protocol = ''http'', dl_peer_id = hbr_peerId b, dl_reason = reason,
        dl_topic = topic, dl_payload = be_b64 env payload, dl_ts = now\<rparr> of
       Inl err \<Rightarrow> []
     | Inr raw \<Rightarrow> [(DlqBridge (hbr_topics b), raw)])"

record httpRequest =
  rq_method :: string
  rq_url :: string
  rq_headers :: "(string \<times> string) list"
  rq_body :: bytes

text \<open>One attempt: \<open>http.NewRequest\<close> fails, \<open>Do\<close> fails, reading the body fails, or there is
  an answer.\<close>

datatype httpOutcome = BuildFailed | CallFailed | BodyFailed | Answered bytes int

function (sequential) httpLoop ::
  "(nat \<Rightarrow> httpRequest \<Rightarrow> httpOutcome) \<Rightarrow> (nat \<Rightarrow> gotime) \<Rightarrow> httpRequest \<Rightarrow> nat \<Rightarrow> HttpBridge \<Rightarrow>
     bytes \<times> int \<times> HttpBridge \<times> httpRequest list" where
  "httpLoop call clock req attempt b =
    (if attempt \<le> hbr_retries b
     then (case call attempt req of
         BuildFailed \<Rightarrow> (errBody ''build_request_failed'', 400, b, [])
       | CallFailed \<Rightarrow>
          let b = http_markFailure (clock attempt) b in
          if attempt < hbr_retries b
          then (case httpLoop call clock req (attempt + 1) (httpCount (BridgeRetriesTotal ''http'') b) of
                  (body, status, b, rs) \<Rightarrow> (body, status, b, req # rs))
          else (errBody ''http_call_failed'', 502, b, [req])
       | BodyFailed \<Rightarrow>
          let b = http_markFailure (clock attempt) b in
          if attempt < hbr_retries b
          then (case httpLoop call clock req (attempt + 1) (httpCount (BridgeRetriesTotal ''http'') b) of
                  (body, status, b, rs) \<Rightarrow> (body, status, b, req # rs))
          else (errBody ''read_response_failed'', 502, b, [req])
       | Answered body status \<Rightarrow>
          if status \<ge> 500 \<and> attempt < hbr_retries b
          then (case httpLoop call clock req (attempt + 1)
                  (httpCount (BridgeRetriesTotal ''http'') (http_markFailure (clock attempt) b)) of
                  (body, status, b, rs) \<Rightarrow> (body, status, b, req # rs))
          else (body, status,
                if status \<ge> 500 then http_markFailure (clock attempt) b else http_markSuccess b, [req]))
     else (errBody ''http_retry_exhausted'', 502, b, []))"
  by pat_completeness auto
termination
  by (relation "measure (\<lambda>(call, clock, req, attempt, b). hbr_retries b + 1 - attempt)")
    (auto simp: httpCount_def http_markFailure_def Let_def)

declare httpLoop.simps [simp del]

definition orDefault :: "string \<Rightarrow> string \<Rightarrow> string" where
  "orDefault s d = (if s = [] then d else s)"

definition doHttp ::
  "(nat \<Rightarrow> httpRequest \<Rightarrow> httpOutcome) \<Rightarrow> (nat \<Rightarrow> gotime) \<Rightarrow> HttpBridge \<Rightarrow> DdMessage \<Rightarrow>
     bytes \<times> int \<times> HttpBridge \<times> httpRequest list" where
  "doHttp call clock b msg =
    (if http_isCircuitOpen (clock 0) b then (errBody ''http_circuit_open'', 503, b, [])
     else case ProtocolFields msg of (flds, msg) \<Rightarrow>
       let method = orDefault (gm_str flds ''method'') ''GET'';
           path = orDefault (gm_str flds ''path'') ''/'';
           contentType = gm_str flds ''content-type'';
           req = \<lparr>rq_method = method, rq_url = hbr_targetUrl b @ path,
             rq_headers = (if contentType \<noteq> [] then [(''Content-Type'', contentType)] else []) @
               filter (\<lambda>(k, v). k \<noteq> ''method'' \<and> k \<noteq> ''path'' \<and> k \<noteq> ''content-type'') flds,
             rq_body = m_Payload msg\<rparr>
       in httpLoop call clock req 1 b)"

definition bridgeReply ::
  "DdProtocol \<Rightarrow> string \<Rightarrow> (string, string) gomap \<Rightarrow> gotime \<Rightarrow> DdMessage \<Rightarrow> bytes \<Rightarrow> DdMessage" where
  "bridgeReply protocol peerId headers now msg respBody =
     Normalize (zeroMessage\<lparr>m_Mode := DdTransferModeSync, m_Protocol := protocol,
       m_Resource := m_Resource msg,
       m_Header := zeroHeader\<lparr>h_RequestId := ''resp-'' @ h_RequestId (m_Header msg),
         h_CorrelationId := h_RequestId (m_Header msg), h_SourcePeerId := peerId,
         h_TargetPeerId := h_SourcePeerId (m_Header msg), h_TraceId := h_TraceId (m_Header msg)\<rparr>,
       m_Headers := headers, m_Payload := respBody, m_CreatedAt := now\<rparr>)"

text \<open>The steps both handlers take before they call out.\<close>

definition prepareSync :: "DdMessage \<Rightarrow> DdMessage" where
  "prepareSync msg =
    (let msg = (Normalize msg)\<lparr>m_Mode := DdTransferModeSync\<rparr>
     in if h_TimeoutMs (m_Header msg) \<le> 0
        then msg\<lparr>m_Header := (m_Header msg)\<lparr>h_TimeoutMs := 5000\<rparr>\<rparr> else msg)"

definition prepareAsync :: "DdMessage \<Rightarrow> DdMessage" where
  "prepareAsync msg = (Normalize msg)\<lparr>m_Mode := DdTransferModeAsync\<rparr>"

definition http_handleSyncRequest ::
  "BridgeEnv \<Rightarrow> (nat \<Rightarrow> httpRequest \<Rightarrow> httpOutcome) \<Rightarrow> (nat \<Rightarrow> gotime) \<Rightarrow> gotime \<Rightarrow> gotime \<Rightarrow> HttpBridge \<Rightarrow>
     string \<Rightarrow> bytes \<Rightarrow> HttpBridge \<times> outbox" where
  "http_handleSyncRequest env call clock start now b topic payload =
    (case DecodeDdMessage (be_unmarshal env) (be_gunzip env) payload zeroMessage of
       Inl err \<Rightarrow> (httpCount (BridgeRequestsTotal ''http'' ''sync'' ''invalid'') b,
         http_publishDLQ env now b ''sync_unmarshal_failed'' topic payload)
     | Inr msg \<Rightarrow>
        (case validateMessage (prepareSync msg) of
           (Some err, msg) \<Rightarrow> (httpCount (BridgeRequestsTotal ''http'' ''sync'' ''invalid'') b,
             http_publishDLQ env now b ''sync_validate_failed'' topic payload)
         | (None, msg) \<Rightarrow>
            (case doHttp call clock b msg of (respBody, statusCode, b, reqs) \<Rightarrow>
              let b = httpCount (BridgeLatencyMs ''http'' ''sync'' (Milliseconds (time_sub now start))) b;
                  b = httpCount (BridgeRequestsTotal ''http'' ''sync'' (if statusCode \<ge> 500 then ''error'' else ''ok'')) b;
                  replyTopic = (if h_ReplyTo (m_Header msg) = []
                    then TransferResponse (hbr_topics b) (h_SourcePeerId (m_Header msg))
                    else h_ReplyTo (m_Header msg));
                  resp = bridgeReply DdProtocolHttp (hbr_peerId b) [(''http-status'', itoa statusCode)] now msg respBody
              in case EncodeDdMessage (be_marshal env) (be_gzip env) resp (length (m_Payload resp) \<ge> 128) of
                   (Inl err, _) \<Rightarrow> (b, [])
                 | (Inr raw, _) \<Rightarrow>
                    (case be_publish env replyTopic raw of
                       None \<Rightarrow> (b, [(replyTopic, raw)])
                     | Some err \<Rightarrow> (httpCount (BridgeRequestsTotal ''http'' ''sync'' ''publish_error'') b,
                         (replyTopic, raw) # http_publishDLQ env now b ''sync_reply_publish_failed'' replyTopic raw)))))"

definition http_handleAsyncEvent ::
  "BridgeEnv \<Rightarrow> (nat \<Rightarrow> httpRequest \<Rightarrow> httpOutcome) \<Rightarrow> (nat \<Rightarrow> gotime) \<Rightarrow> gotime \<Rightarrow> gotime \<Rightarrow> HttpBridge \<Rightarrow>
     string \<Rightarrow> bytes \<Rightarrow> HttpBridge \<times> outbox" where
  "http_handleAsyncEvent env call clock start now b topic payload =
    (case DecodeDdMessage (be_unmarshal env) (be_gunzip env) payload zeroMessage of
       Inl err \<Rightarrow> (httpCount (BridgeRequestsTotal ''http'' ''async'' ''invalid'') b,
         http_publishDLQ env now b ''async_unmarshal_failed'' topic payload)
     | Inr msg \<Rightarrow>
        (case validateMessage (prepareAsync msg) of
           (Some err, msg) \<Rightarrow> (httpCount (BridgeRequestsTotal ''http'' ''async'' ''invalid'') b,
             http_publishDLQ env now b ''async_validate_failed'' topic payload)
         | (None, msg) \<Rightarrow>
            (case doHttp call clock b msg of (respBody, status, b, reqs) \<Rightarrow>
              let b = httpCount (BridgeLatencyMs ''http'' ''async'' (Milliseconds (time_sub now start))) b
              in (httpCount (BridgeRequestsTotal ''http'' ''async'' (if status \<ge> 500 then ''error'' else ''ok'')) b, []))))"

section \<open>The CoAP bridge\<close>

record coapTask =
  ct_topic :: string
  ct_payload :: bytes
  ct_isSync :: bool

text \<open>The counter of message ids, a package variable, is a field of the bridge.\<close>

record CoapBridge =
  cbr_topics :: TopicSet
  cbr_peerId :: string
  cbr_targetUrl :: string
  cbr_retries :: nat
  cbr_queueSize :: nat
  cbr_reqCh :: "coapTask list"
  cbr_stopped :: bool
  cbr_cbFails :: nat
  cbr_cbOpenUntil :: gotime
  cbr_msgIDCounter :: "32 word"
  cbr_metrics :: "bridgeMetric list"

definition maxCoapPayloadBytes :: nat where [go_consts]: "maxCoapPayloadBytes = 1024"

definition NewCoapBridge :: "TopicSet \<Rightarrow> string \<Rightarrow> string \<Rightarrow> CoapBridge" where
  "NewCoapBridge topics peerId targetUrl =
     \<lparr>cbr_topics = topics, cbr_peerId = peerId, cbr_targetUrl = targetUrl, cbr_retries = 2,
      cbr_queueSize = 256, cbr_reqCh = [], cbr_stopped = False, cbr_cbFails = 0,
      cbr_cbOpenUntil = 0, cbr_msgIDCounter = 0, cbr_metrics = []\<rparr>"

definition coapStart ::
  "(string \<Rightarrow> go_error option) \<Rightarrow> CoapBridge \<Rightarrow> go_error option \<times> (string \<times> bridgeHandler) list" where
  "coapStart subscribe b = subscribeLabelled subscribe
     [(''subscribe request topic'', TransferRequest (cbr_topics b) (cbr_peerId b), HSyncRequest),
      (''subscribe event topic'', EventPublish (cbr_topics b) (cbr_peerId b), HAsyncEvent)]"

definition coapCount :: "bridgeMetric \<Rightarrow> CoapBridge \<Rightarrow> CoapBridge" where
  "coapCount m b = b\<lparr>cbr_metrics := cbr_metrics b @ [m]\<rparr>"

definition coap_markFailure :: "gotime \<Rightarrow> CoapBridge \<Rightarrow> CoapBridge" where
  "coap_markFailure now b =
    (let b = b\<lparr>cbr_cbFails := cbr_cbFails b + 1\<rparr>
     in if cbr_cbFails b \<ge> 3 then b\<lparr>cbr_cbOpenUntil := now + dur 5 Second\<rparr> else b)"

definition coap_markSuccess :: "CoapBridge \<Rightarrow> CoapBridge" where
  "coap_markSuccess b = b\<lparr>cbr_cbFails := 0, cbr_cbOpenUntil := 0\<rparr>"

definition coap_isCircuitOpen :: "gotime \<Rightarrow> CoapBridge \<Rightarrow> bool" where
  "coap_isCircuitOpen now b \<longleftrightarrow> now < cbr_cbOpenUntil b"

definition coap_publishDLQ ::
  "BridgeEnv \<Rightarrow> gotime \<Rightarrow> CoapBridge \<Rightarrow> string \<Rightarrow> string \<Rightarrow> bytes \<Rightarrow> outbox" where
  "coap_publishDLQ env now b reason topic payload =
    (case be_marshalDLQ env \<lparr>dl_protocol = ''coap'', dl_peer_id = cbr_peerId b, dl_reason = reason,
        dl_topic = topic, dl_payload = be_b64 env payload, dl_ts = now\<rparr> of
       Inl err \<Rightarrow> []
     | Inr raw \<Rightarrow> [(DlqBridge (cbr_topics b), raw)])"

definition isCoapFailureResponse :: "bytes \<Rightarrow> bool" where
  "isCoapFailureResponse resp \<longleftrightarrow> resp \<in> set (map errBody
     [''coap_dial_failed'', ''coap_write_failed'', ''coap_read_failed'', ''coap_retry_exhausted'',
      ''coap_payload_too_large'', ''coap_circuit_open'', ''coap_conn_closed''])"

text \<open>One attempt: \<open>DialUDP\<close>, \<open>SetDeadline\<close>, \<open>Write\<close> or \<open>Read\<close> fails, or a datagram is read.\<close>

datatype coapOutcome = DialFailed | DeadlineFailed | WriteFailed | ReadClosed | ReadFailed | Datagram bytes

text \<open>A failed attempt: count it, and try again or give up.\<close>

function (sequential) coapLoop ::
  "(nat \<Rightarrow> bytes \<Rightarrow> coapOutcome) \<Rightarrow> (nat \<Rightarrow> gotime) \<Rightarrow> bytes \<Rightarrow> nat \<Rightarrow> CoapBridge \<Rightarrow>
     (bytes \<times> CoapBridge) option" where
  "coapLoop call clock reqPkt attempt b =
    (let retry = (\<lambda>code. let b = coap_markFailure (clock attempt) b in
           if attempt < cbr_retries b
           then coapLoop call clock reqPkt (attempt + 1) (coapCount (BridgeRetriesTotal ''coap'') b)
           else Some (errBody code, b))
     in if attempt \<le> cbr_retries b
        then (case call attempt reqPkt of
            DialFailed \<Rightarrow> retry ''coap_dial_failed''
          | DeadlineFailed \<Rightarrow> Some (errBody ''coap_deadline_failed'', b)
          | WriteFailed \<Rightarrow> retry ''coap_write_failed''
          | ReadClosed \<Rightarrow> Some (errBody ''coap_conn_closed'', b)
          | ReadFailed \<Rightarrow> retry ''coap_read_failed''
          | Datagram data \<Rightarrow>
             (case parseCoapPayload data of
                None \<Rightarrow> None | Some payload \<Rightarrow> Some (payload, coap_markSuccess b)))
        else Some (errBody ''coap_retry_exhausted'', coap_markFailure (clock attempt) b))"
  by pat_completeness auto
termination
  by (relation "measure (\<lambda>(call, clock, reqPkt, attempt, b). cbr_retries b + 1 - attempt)")
    (auto simp: coapCount_def coap_markFailure_def Let_def split: if_splits)

declare coapLoop.simps [simp del]

text \<open>\<open>resolves\<close> tells whether \<open>net.ResolveUDPAddr\<close> accepts the target.\<close>

definition doCoap ::
  "(string \<Rightarrow> bool) \<Rightarrow> (nat \<Rightarrow> bytes \<Rightarrow> coapOutcome) \<Rightarrow> (nat \<Rightarrow> gotime) \<Rightarrow> CoapBridge \<Rightarrow> DdMessage \<Rightarrow>
     (bytes \<times> CoapBridge) option" where
  "doCoap resolves call clock b msg =
    (if coap_isCircuitOpen (clock 0) b then Some (errBody ''coap_circuit_open'', b)
     else if length (m_Payload msg) > maxCoapPayloadBytes
     then Some (errBody ''coap_payload_too_large'', b)
     else case ProtocolFields msg of (flds, msg) \<Rightarrow>
       let method = orDefault (gm_str flds ''method'') ''GET'';
           path = orDefault (gm_str flds ''path'') ''/''
       in case buildCoapRequest (cbr_msgIDCounter b) method path (m_Payload msg) of (reqPkt, counter) \<Rightarrow>
          let b = b\<lparr>cbr_msgIDCounter := counter\<rparr>
          in if \<not> resolves (cbr_targetUrl b) then Some (errBody ''coap_resolve_failed'', b)
             else coapLoop call clock reqPkt 1 b)"

definition coap_handleSyncRequest ::
  "BridgeEnv \<Rightarrow> (string \<Rightarrow> bool) \<Rightarrow> (nat \<Rightarrow> bytes \<Rightarrow> coapOutcome) \<Rightarrow> (nat \<Rightarrow> gotime) \<Rightarrow> gotime \<Rightarrow> gotime \<Rightarrow>
     CoapBridge \<Rightarrow> string \<Rightarrow> bytes \<Rightarrow> (CoapBridge \<times> outbox) option" where
  "coap_handleSyncRequest env resolves call clock start now b topic payload =
    (case DecodeDdMessage (be_unmarshal env) (be_gunzip env) payload zeroMessage of
       Inl err \<Rightarrow> Some (coapCount (BridgeRequestsTotal ''coap'' ''sync'' ''invalid'') b,
         coap_publishDLQ env now b ''sync_unmarshal_failed'' topic payload)
     | Inr msg \<Rightarrow>
        (case validateMessage (prepareSync msg) of
           (Some err, msg) \<Rightarrow> Some (coapCount (BridgeRequestsTotal ''coap'' ''sync'' ''invalid'') b,
             coap_publishDLQ env now b ''sync_validate_failed'' topic payload)
         | (None, msg) \<Rightarrow>
            if m_Protocol msg \<noteq> DdProtocolCoap then Some (b, [])
            else (case doCoap resolves call clock b msg of
              None \<Rightarrow> None
            | Some (respBody, b) \<Rightarrow>
              let b = coapCount (BridgeLatencyMs ''coap'' ''sync'' (Milliseconds (time_sub now start))) b;
                  b = coapCount (BridgeRequestsTotal ''coap'' ''sync''
                        (if isCoapFailureResponse respBody then ''error'' else ''ok'')) b;
                  replyTopic = (if h_ReplyTo (m_Header msg) = []
                    then TransferResponse (cbr_topics b) (h_SourcePeerId (m_Header msg))
                    else h_ReplyTo (m_Header msg));
                  resp = bridgeReply DdProtocolCoap (cbr_peerId b) [] now msg respBody
              in case EncodeDdMessage (be_marshal env) (be_gzip env) resp (length (m_Payload resp) \<ge> 128) of
                   (Inl err, _) \<Rightarrow> Some (b, [])
                 | (Inr raw, _) \<Rightarrow>
                    (case be_publish env replyTopic raw of
                       None \<Rightarrow> Some (b, [(replyTopic, raw)])
                     | Some err \<Rightarrow> Some (coapCount (BridgeRequestsTotal ''coap'' ''sync'' ''publish_error'') b,
                         (replyTopic, raw) # coap_publishDLQ env now b ''sync_reply_publish_failed'' replyTopic raw)))))"

definition coap_handleAsyncEvent ::
  "BridgeEnv \<Rightarrow> (string \<Rightarrow> bool) \<Rightarrow> (nat \<Rightarrow> bytes \<Rightarrow> coapOutcome) \<Rightarrow> (nat \<Rightarrow> gotime) \<Rightarrow> gotime \<Rightarrow> gotime \<Rightarrow>
     CoapBridge \<Rightarrow> string \<Rightarrow> bytes \<Rightarrow> (CoapBridge \<times> outbox) option" where
  "coap_handleAsyncEvent env resolves call clock start now b topic payload =
    (case DecodeDdMessage (be_unmarshal env) (be_gunzip env) payload zeroMessage of
       Inl err \<Rightarrow> Some (coapCount (BridgeRequestsTotal ''coap'' ''async'' ''invalid'') b,
         coap_publishDLQ env now b ''async_unmarshal_failed'' topic payload)
     | Inr msg \<Rightarrow>
        (case validateMessage (prepareAsync msg) of
           (Some err, msg) \<Rightarrow> Some (coapCount (BridgeRequestsTotal ''coap'' ''async'' ''invalid'') b,
             coap_publishDLQ env now b ''async_validate_failed'' topic payload)
         | (None, msg) \<Rightarrow>
            if m_Protocol msg \<noteq> DdProtocolCoap then Some (b, [])
            else (case doCoap resolves call clock b msg of
              None \<Rightarrow> None
            | Some (respBody, b) \<Rightarrow>
              let b = coapCount (BridgeLatencyMs ''coap'' ''async'' (Milliseconds (time_sub now start))) b
              in Some (coapCount (BridgeRequestsTotal ''coap'' ''async''
                        (if isCoapFailureResponse respBody then ''error'' else ''ok'')) b, []))))"

text \<open>The queue in front of the workers. \<open>coapWorker\<close> is one turn of a worker's loop; \<open>None\<close>
  is a panic of the handler.\<close>

definition enqueueTask :: "BridgeEnv \<Rightarrow> gotime \<Rightarrow> CoapBridge \<Rightarrow> coapTask \<Rightarrow> CoapBridge \<times> outbox" where
  "enqueueTask env now b task =
    (if cbr_stopped b then (b, [])
     else if length (cbr_reqCh b) < cbr_queueSize b
     then (b\<lparr>cbr_reqCh := cbr_reqCh b @ [task]\<rparr>, [])
     else let (reason, mode) = (if ct_isSync task then (''sync_queue_full'', ''sync'')
                else (''async_queue_full'', ''async''));
              b = coapCount (BridgeRequestsTotal ''coap'' mode ''queue_full'') b
          in (b, coap_publishDLQ env now b reason (ct_topic task) (ct_payload task)))"

definition coapWorker ::
  "BridgeEnv \<Rightarrow> (string \<Rightarrow> bool) \<Rightarrow> (nat \<Rightarrow> bytes \<Rightarrow> coapOutcome) \<Rightarrow> (nat \<Rightarrow> gotime) \<Rightarrow> gotime \<Rightarrow> gotime \<Rightarrow>
     CoapBridge \<Rightarrow> (CoapBridge \<times> outbox) option" where
  "coapWorker env resolves call clock start now b =
    (case cbr_reqCh b of
       [] \<Rightarrow> Some (b, [])
     | task # tasks \<Rightarrow>
        let b = b\<lparr>cbr_reqCh := tasks\<rparr> in
        if ct_isSync task
        then coap_handleSyncRequest env resolves call clock start now b (ct_topic task) (ct_payload task)
        else coap_handleAsyncEvent env resolves call clock start now b (ct_topic task) (ct_payload task))"

text \<open>\<open>Stop\<close> closes both channels once; the workers drain what is queued before it returns.\<close>

definition coapStop :: "CoapBridge \<Rightarrow> CoapBridge" where
  "coapStop b = (if cbr_stopped b then b else b\<lparr>cbr_stopped := True\<rparr>)"

section \<open>The MQTT bridge\<close>

record MqttMapping =
  mm_Source :: string
  mm_Target :: string

definition stripWildcard :: "string \<Rightarrow> string" where
  "stripWildcard pattern = trim_suffix (trim_suffix pattern ''#'') ''+''"

definition mqttDest :: "MqttMapping \<Rightarrow> string \<Rightarrow> string" where
  "mqttDest m topic = replace_first topic (stripWildcard (mm_Source m)) (stripWildcard (mm_Target m))"

definition mqttForward ::
  "publisher \<Rightarrow> gotime \<Rightarrow> gotime \<Rightarrow> MqttMapping \<Rightarrow> string \<Rightarrow> bytes \<Rightarrow> bridgeMetric list \<times> outbox" where
  "mqttForward publish start now m topic payload =
    (let destTopic = mqttDest m topic in
     case publish destTopic payload of
       Some err \<Rightarrow> ([BridgeRequestsTotal ''mq'' ''async'' ''error''], [(destTopic, payload)])
     | None \<Rightarrow> ([BridgeRequestsTotal ''mq'' ''async'' ''ok'',
         BridgeLatencyMs ''mq'' ''async'' (Milliseconds (time_sub now start))], [(destTopic, payload)]))"

definition mqttStart ::
  "(string \<Rightarrow> go_error option) \<Rightarrow> MqttMapping list \<Rightarrow> go_error option \<times> (string \<times> MqttMapping) list" where
  "mqttStart subscribe mappings = subscribeLabelled subscribe
     (map (\<lambda>(i, m). (''subscribe mapping['' @ nat_str i @ '']'', mm_Source m, m)) (enumerate 0 mappings))"

section \<open>The circuit breaker\<close>

locale circuit_breaker =
  fixes failure :: "gotime \<Rightarrow> 's \<Rightarrow> 's"
    and success :: "'s \<Rightarrow> 's"
    and isOpen :: "gotime \<Rightarrow> 's \<Rightarrow> bool"
    and fails :: "'s \<Rightarrow> nat"
  assumes fails_failure: "fails (failure now s) = fails s + 1"
    and fails_success: "fails (success s) = 0"
    and open_failure: "isOpen t (failure now s) \<longleftrightarrow>
          (if fails s \<ge> 2 then t < now + 5 * Second else isOpen t s)"
    and open_success: "0 \<le> t \<Longrightarrow> \<not> isOpen t (success s)"
begin

lemma fails_run: "fails (fold failure ts s) = fails s + length ts"
  by (induction ts arbitrary: s) (simp_all add: fails_failure)

text \<open>From a state that counts no failure and is closed, only the number of failures and the
  time of the last one matter.\<close>

lemma open_run:
  assumes "fails s = 0" "\<not> isOpen t s"
  shows "isOpen t (fold failure ts s) \<longleftrightarrow> 3 \<le> length ts \<and> t < last ts + 5 * Second"
proof (induction ts rule: rev_induct)
  case (snoc x ts)
  show ?case
  proof (cases "length ts \<ge> 3 \<or> length ts = 2")
    case True
    then show ?thesis by (auto simp: open_failure fails_run assms(1))
  next
    case False
    then have "length ts < 2" by linarith
    with snoc show ?thesis by (simp add: open_failure fails_run assms(1))
  qed
qed (simp add: assms(2))

lemma open_after_success:
  "0 \<le> t \<Longrightarrow> isOpen t (fold failure ts (success s)) \<longleftrightarrow> 3 \<le> length ts \<and> t < last ts + 5 * Second"
  by (intro open_run fails_success open_success)

text \<open>Once the pause is over, one more failure opens it again at once.\<close>

lemma reopens: "3 \<le> fails s \<Longrightarrow> isOpen t (failure now s) \<longleftrightarrow> t < now + 5 * Second"
  by (simp add: open_failure)

end

lemma dur_5_Second [simp]: "dur 5 Second = 5 * Second"
  unfolding dur_def by (intro wrap64_id) (simp add: in_i64_def Second_def)

interpretation http_cb: circuit_breaker http_markFailure http_markSuccess http_isCircuitOpen hbr_cbFails
  by unfold_locales (auto simp: http_markFailure_def http_markSuccess_def http_isCircuitOpen_def Let_def)

interpretation coap_cb: circuit_breaker coap_markFailure coap_markSuccess coap_isCircuitOpen cbr_cbFails
  by unfold_locales (auto simp: coap_markFailure_def coap_markSuccess_def coap_isCircuitOpen_def Let_def)

section \<open>The retry loops\<close>

named_theorems bridge_frame \<open>the fields a bridge operation does not write\<close>

lemma http_frame [bridge_frame]:
  "hbr_retries (http_markFailure now b) = hbr_retries b" "hbr_retries (http_markSuccess b) = hbr_retries b"
  "hbr_retries (httpCount m b) = hbr_retries b" "hbr_cbFails (httpCount m b) = hbr_cbFails b"
  "hbr_peerId (http_markFailure now b) = hbr_peerId b" "hbr_peerId (http_markSuccess b) = hbr_peerId b"
  "hbr_peerId (httpCount m b) = hbr_peerId b"
  "hbr_topics (http_markFailure now b) = hbr_topics b" "hbr_topics (http_markSuccess b) = hbr_topics b"
  "hbr_topics (httpCount m b) = hbr_topics b"
  by (simp_all add: http_markFailure_def http_markSuccess_def httpCount_def Let_def)

definition failedAttempt :: "httpOutcome \<Rightarrow> bool" where
  "failedAttempt o' = (case o' of Answered body status \<Rightarrow> status \<ge> 500 | _ \<Rightarrow> True)"

definition attemptResult :: "httpOutcome \<Rightarrow> bytes \<times> int" where
  "attemptResult o' = (case o' of
      Answered body status \<Rightarrow> (body, status)
    | CallFailed \<Rightarrow> (errBody ''http_call_failed'', 502)
    | BodyFailed \<Rightarrow> (errBody ''read_response_failed'', 502)
    | BuildFailed \<Rightarrow> (errBody ''build_request_failed'', 400))"

lemma httpLoop_spec:
  assumes "attempt \<le> hbr_retries b" "\<forall>n. call n req \<noteq> BuildFailed"
  shows "\<exists>n. attempt \<le> n \<and> n \<le> hbr_retries b \<and>
    (\<forall>i. attempt \<le> i \<and> i < n \<longrightarrow> failedAttempt (call i req)) \<and>
    (n = hbr_retries b \<or> \<not> failedAttempt (call n req)) \<and>
    (\<exists>b'. httpLoop call clock req attempt b =
       (fst (attemptResult (call n req)), snd (attemptResult (call n req)), b', replicate (n + 1 - attempt) req) \<and>
     hbr_cbFails b' = (if failedAttempt (call n req) then hbr_cbFails b + (n + 1 - attempt) else 0) \<and>
     hbr_peerId b' = hbr_peerId b \<and> hbr_topics b' = hbr_topics b)"
  using assms(1)
proof (induction "hbr_retries b - attempt" arbitrary: attempt b)
  case 0
  then have "attempt = hbr_retries b" by simp
  then show ?case
    using assms(2) by (intro exI [of _ attempt], subst httpLoop.simps)
      (auto simp: Let_def bridge_frame failedAttempt_def attemptResult_def http_cb.fails_failure
        http_cb.fails_success split: httpOutcome.split)
next
  case (Suc k)
  show ?case
  proof (cases "failedAttempt (call attempt req)")
    case False
    then obtain body status where "call attempt req = Answered body status" "status < 500"
      by (auto simp: failedAttempt_def split: httpOutcome.splits)
    then show ?thesis
      using Suc.prems by (intro exI [of _ attempt], subst httpLoop.simps)
        (auto simp: bridge_frame failedAttempt_def attemptResult_def http_cb.fails_success)
  next
    case True
    let ?b = "httpCount (BridgeRetriesTotal ''http'') (http_markFailure (clock attempt) b)"
    have lt: "attempt < hbr_retries b" using Suc.hyps(2) by linarith
    have step: "httpLoop call clock req attempt b =
        (case httpLoop call clock req (attempt + 1) ?b of (body, status, b, rs) \<Rightarrow> (body, status, b, req # rs))"
      using lt True assms(2) by (subst httpLoop.simps)
        (auto simp: Let_def bridge_frame failedAttempt_def split: httpOutcome.split)
    have "k = hbr_retries ?b - (attempt + 1)" "attempt + 1 \<le> hbr_retries ?b"
      using Suc.hyps(2) lt by (simp_all add: bridge_frame)
    from Suc.hyps(1) [OF this] obtain n b' where n: "attempt + 1 \<le> n" "n \<le> hbr_retries b"
      "\<forall>i. attempt + 1 \<le> i \<and> i < n \<longrightarrow> failedAttempt (call i req)"
      "n = hbr_retries b \<or> \<not> failedAttempt (call n req)"
      "httpLoop call clock req (attempt + 1) ?b =
        (fst (attemptResult (call n req)), snd (attemptResult (call n req)), b', replicate (n - attempt) req)"
      "hbr_cbFails b' = (if failedAttempt (call n req) then hbr_cbFails b + 1 + (n - attempt) else 0)"
      "hbr_peerId b' = hbr_peerId b" "hbr_topics b' = hbr_topics b"
      by (auto simp: bridge_frame http_cb.fails_failure)
    have "\<forall>i. attempt \<le> i \<and> i < n \<longrightarrow> failedAttempt (call i req)"
    proof (intro allI impI)
      fix i assume i: "attempt \<le> i \<and> i < n"
      show "failedAttempt (call i req)"
        using n(3) True i by (cases "i = attempt") auto
    qed
    moreover have "n + 1 - attempt = Suc (n - attempt)" using n(1) by simp
    ultimately show ?thesis
      using n step by (intro exI [of _ n]) simp
  qed
qed

lemma coap_frame [bridge_frame]:
  "cbr_retries (coap_markFailure now b) = cbr_retries b" "cbr_retries (coapCount m b) = cbr_retries b"
  "cbr_peerId (coap_markFailure now b) = cbr_peerId b" "cbr_peerId (coap_markSuccess b) = cbr_peerId b"
  "cbr_peerId (coapCount m b) = cbr_peerId b"
  "cbr_topics (coap_markFailure now b) = cbr_topics b" "cbr_topics (coap_markSuccess b) = cbr_topics b"
  "cbr_topics (coapCount m b) = cbr_topics b"
  by (simp_all add: coap_markFailure_def coap_markSuccess_def coapCount_def Let_def)

text \<open>The CoAP loop ends without a panic, whatever the device sends.\<close>

lemma parseCoapPayload_total [simp]: "parseCoapPayload data \<noteq> None"
  using bridge.no_panic_suffix [of data] by auto

lemma coapLoop_total:
  "\<exists>body b'. coapLoop call clock pkt attempt b = Some (body, b') \<and>
     cbr_peerId b' = cbr_peerId b \<and> cbr_topics b' = cbr_topics b"
proof (induction "cbr_retries b + 1 - attempt" arbitrary: attempt b rule: less_induct)
  case less
  let ?b = "coapCount (BridgeRetriesTotal ''coap'') (coap_markFailure (clock attempt) b)"
  have IH: "\<exists>body b'. coapLoop call clock pkt (attempt + 1) ?b = Some (body, b') \<and>
      cbr_peerId b' = cbr_peerId b \<and> cbr_topics b' = cbr_topics b" if "attempt < cbr_retries b"
    using less [of ?b "attempt + 1"] that by (simp add: bridge_frame)
  show ?case
    using IH by (subst coapLoop.simps)
      (cases "call attempt pkt", auto simp: Let_def bridge_frame split: option.split)
qed

lemma doCoap_total:
  "\<exists>body b'. doCoap resolves call clock b msg = Some (body, b') \<and>
     cbr_peerId b' = cbr_peerId b \<and> cbr_topics b' = cbr_topics b"
  using coapLoop_total [of call clock _ 1] by (auto simp: doCoap_def Let_def split: prod.split) fastforce

lemma doCoap_not_None [simp]: "doCoap resolves call clock b msg \<noteq> None"
  using doCoap_total [of resolves call clock b msg] by auto

lemma coap_handlers_total:
  "coap_handleSyncRequest env resolves call clock start now b topic payload \<noteq> None"
  "coap_handleAsyncEvent env resolves call clock start now b topic payload \<noteq> None"
  by (simp_all add: coap_handleSyncRequest_def coap_handleAsyncEvent_def Let_def
      split: sum.split prod.split option.split)

text \<open>Which of the bridge's own error bodies are counted as failures: not the two that a target
  that does not resolve and a deadline that cannot be set give.\<close>

lemma coap_error_classification:
  "isCoapFailureResponse (errBody ''coap_payload_too_large'')" "isCoapFailureResponse (errBody ''coap_circuit_open'')"
  "isCoapFailureResponse (errBody ''coap_dial_failed'')" "isCoapFailureResponse (errBody ''coap_read_failed'')"
  "\<not> isCoapFailureResponse (errBody ''coap_resolve_failed'')"
  "\<not> isCoapFailureResponse (errBody ''coap_deadline_failed'')"
  by code_simp+

lemma bridgeReply_header:
  "reqid \<noteq> [] \<Longrightarrow> h_RequestId (m_Header msg) = reqid \<Longrightarrow>
     h_CorrelationId (m_Header (bridgeReply proto peer hdrs now msg body)) = reqid \<and>
     m_Payload (bridgeReply proto peer hdrs now msg body) = body \<and>
     m_Protocol (bridgeReply proto peer hdrs now msg body) = proto \<and>
     h_TargetPeerId (m_Header (bridgeReply proto peer hdrs now msg body)) = h_SourcePeerId (m_Header msg)"
  by (simp add: bridgeReply_def Normalize_simps isHeaderZero_def zeroHeader_def zeroMessage_def)

lemma bridgeReply_Normalize [simp]:
  "Normalize (bridgeReply proto peer hdrs now msg body) = bridgeReply proto peer hdrs now msg body"
  by (simp add: bridgeReply_def)

lemma prepareSync_reqId: "h_RequestId (m_Header (prepareSync msg)) = h_RequestId (m_Header (Normalize msg))"
  by (simp add: prepareSync_def Let_def)

section \<open>MQTT mappings\<close>

lemma trim_suffix_append [simp]: "trim_suffix (s @ suf) suf = s"
  by (simp add: trim_suffix_def suffix_def)

lemma trim_suffix_other: "\<not> suffix suf s \<Longrightarrow> trim_suffix s suf = s"
  by (simp add: trim_suffix_def)

lemma stripWildcard_hash: "\<not> suffix ''+'' s \<Longrightarrow> stripWildcard (s @ ''#'') = s"
  by (simp add: stripWildcard_def trim_suffix_other)

text \<open>A source with a wildcard inside keeps it in the prefix, which no topic contains: the
  message is published on the topic it came from.\<close>

lemma mqttDest_inner_wildcard:
  assumes "CHR ''+'' \<in> set (stripWildcard (mm_Source m))" "CHR ''+'' \<notin> set topic"
  shows "mqttDest m topic = topic"
proof -
  have "\<not> sublist (stripWildcard (mm_Source m)) topic"
    using assms set_mono_sublist by (metis in_mono)
  then show ?thesis by (simp add: mqttDest_def replace_first_absent)
qed

section \<open>Properties\<close>

text \<open>
  C24: the circuit breaker of each bridge is open exactly when at least three calls in a row have
  failed since the last success (or the start) and the last failure is less than five
  seconds ago; while it is open the HTTP bridge answers 503 and the CoAP bridge its
  circuit error without any call to the target, and neither changes its state.
\<close>

theorem breaker_exact:
  assumes "0 \<le> t"
  shows "(http_isCircuitOpen t (fold http_markFailure ts (http_markSuccess hb)) \<longleftrightarrow>
      3 \<le> length ts \<and> t < last ts + 5 * Second) \<and>
    (http_isCircuitOpen t (fold http_markFailure ts (NewHttpBridge topics peer url)) \<longleftrightarrow>
      3 \<le> length ts \<and> t < last ts + 5 * Second) \<and>
    (coap_isCircuitOpen t (fold coap_markFailure ts (coap_markSuccess cb)) \<longleftrightarrow>
      3 \<le> length ts \<and> t < last ts + 5 * Second) \<and>
    (http_isCircuitOpen (clock 0) hb \<longrightarrow> doHttp call clock hb msg = (errBody ''http_circuit_open'', 503, hb, [])) \<and>
    (coap_isCircuitOpen (clock 0) cb \<longrightarrow> doCoap resolves ucall clock cb msg = Some (errBody ''coap_circuit_open'', cb))"
proof -
  have "hbr_cbFails (NewHttpBridge topics peer url) = 0" "\<not> http_isCircuitOpen t (NewHttpBridge topics peer url)"
    using assms by (simp_all add: NewHttpBridge_def http_isCircuitOpen_def)
  then show ?thesis
    using assms by (simp add: http_cb.open_run http_cb.open_after_success coap_cb.open_after_success
        doHttp_def doCoap_def)
qed

definition demoHttp :: HttpBridge where
  "demoHttp = NewHttpBridge (NewDefaultTopicSet ''t'') ''edge'' ''http://h''"

definition demoCoap :: CoapBridge where
  "demoCoap = NewCoapBridge (NewDefaultTopicSet ''t'') ''edge'' ''h:5683''"

theorem breaker_exact_witness:
  "http_isCircuitOpen 6000000000 (fold http_markFailure [1, 2, 3000000000] (http_markSuccess demoHttp)) \<and>
   \<not> coap_isCircuitOpen 9000000000 (fold coap_markFailure [1, 2, 3000000000] (coap_markSuccess demoCoap))"
  using breaker_exact [of 6000000000 "[1, 2, 3000000000]" demoHttp]
    breaker_exact [of 9000000000 "[1, 2, 3000000000]" demoHttp _ _ _ demoCoap]
  by (simp add: Second_def)

text \<open>
  C25: an HTTP call that is not refused by the breaker is tried between one and \<open>retries\<close> times,
  each time with the same request; it stops at the first attempt that is answered with a
  status below 500 and otherwise at the last; the caller gets the outcome of that
  attempt, and the failure count goes to zero on success and up by the number of
  attempts otherwise.
\<close>

theorem http_retries:
  assumes "\<not> http_isCircuitOpen (clock 0) b" "1 \<le> hbr_retries b" "\<forall>n req. call n req \<noteq> BuildFailed"
  shows "\<exists>n req b'. 1 \<le> n \<and> n \<le> hbr_retries b \<and>
    (\<forall>i. 1 \<le> i \<and> i < n \<longrightarrow> failedAttempt (call i req)) \<and>
    (n = hbr_retries b \<or> \<not> failedAttempt (call n req)) \<and>
    doHttp call clock b msg =
      (fst (attemptResult (call n req)), snd (attemptResult (call n req)), b', replicate n req) \<and>
    rq_body req = m_Payload msg \<and> prefix (hbr_targetUrl b) (rq_url req) \<and>
    hbr_cbFails b' = (if failedAttempt (call n req) then hbr_cbFails b + n else 0)"
proof -
  obtain flds where f: "ProtocolFields msg = (flds, Normalize msg)"
    by (simp add: ProtocolFields_eq)
  obtain req where req: "doHttp call clock b msg = httpLoop call clock req 1 b" "rq_body req = m_Payload msg"
      "prefix (hbr_targetUrl b) (rq_url req)"
    using assms(1) that by (simp add: doHttp_def f Let_def)
  have "\<forall>n. call n req \<noteq> BuildFailed" using assms(3) by blast
  from httpLoop_spec [where call = call and req = req, OF assms(2) this, of clock] obtain n b' where
    "1 \<le> n" "n \<le> hbr_retries b" "\<forall>i. 1 \<le> i \<and> i < n \<longrightarrow> failedAttempt (call i req)"
    "n = hbr_retries b \<or> \<not> failedAttempt (call n req)"
    "httpLoop call clock req 1 b = (fst (attemptResult (call n req)), snd (attemptResult (call n req)), b', replicate n req)"
    "hbr_cbFails b' = (if failedAttempt (call n req) then hbr_cbFails b + n else 0)"
    by auto
  with req show ?thesis by metis
qed

definition flakyHttp :: "nat \<Rightarrow> httpRequest \<Rightarrow> httpOutcome" where
  "flakyHttp n req = (if n < 2 then CallFailed else Answered [7] 200)"

definition httpMsg :: DdMessage where
  "httpMsg = zeroMessage\<lparr>m_Protocol := DdProtocolHttp, m_Payload := [3]\<rparr>"

theorem http_retries_witness:
  "\<exists>n req b'. 1 \<le> n \<and> n \<le> hbr_retries demoHttp \<and>
    (\<forall>i. 1 \<le> i \<and> i < n \<longrightarrow> failedAttempt (flakyHttp i req)) \<and>
    (n = hbr_retries demoHttp \<or> \<not> failedAttempt (flakyHttp n req)) \<and>
    doHttp flakyHttp int demoHttp httpMsg =
      (fst (attemptResult (flakyHttp n req)), snd (attemptResult (flakyHttp n req)), b', replicate n req) \<and>
    rq_body req = m_Payload httpMsg \<and> prefix (hbr_targetUrl demoHttp) (rq_url req) \<and>
    hbr_cbFails b' = (if failedAttempt (flakyHttp n req) then hbr_cbFails demoHttp + n else 0)"
  by (rule http_retries) (simp_all add: demoHttp_def NewHttpBridge_def http_isCircuitOpen_def flakyHttp_def)

lemma validateMessage_sync_id:
  assumes "validateMessage (prepareSync msg) = (None, req)"
  shows "h_RequestId (m_Header req) \<noteq> [] \<and> Normalize req = req"
proof -
  have "req = Normalize (prepareSync msg)"
    using assms validateMessage_msg [of "prepareSync msg"] by (metis snd_conv)
  moreover have "m_Mode (prepareSync msg) = DdTransferModeSync"
    by (simp add: prepareSync_def Let_def)
  ultimately show ?thesis
    using assms validateMessage_ok_iff [of "prepareSync msg"] by simp
qed

lemma EncodeDdMessage_total:
  assumes "\<forall>m. j m = Inr (enc m)" "\<forall>d. z d = Inr (zipd d)"
  shows "EncodeDdMessage j z m c = (Inr (if c then gzipMagic @ zipd (enc (Normalize m)) else enc (Normalize m)), Normalize m)"
  using assms by (simp add: EncodeDdMessage_def Let_def)

text \<open>The topic of a reply.\<close>

definition replyTopicOf :: "TopicSet \<Rightarrow> DdMessage \<Rightarrow> string" where
  "replyTopicOf topics req = (if h_ReplyTo (m_Header req) = []
     then TransferResponse topics (h_SourcePeerId (m_Header req)) else h_ReplyTo (m_Header req))"

text \<open>Whatever the outcome of the calls, the loop ends and the bridge keeps its identity.\<close>

lemma httpLoop_frame:
  "hbr_peerId (fst (snd (snd (httpLoop call clock req attempt b)))) = hbr_peerId b \<and>
   hbr_topics (fst (snd (snd (httpLoop call clock req attempt b)))) = hbr_topics b"
proof (induction "hbr_retries b + 1 - attempt" arbitrary: attempt b rule: less_induct)
  case less
  let ?b = "httpCount (BridgeRetriesTotal ''http'') (http_markFailure (clock attempt) b)"
  have IH: "hbr_peerId (fst (snd (snd (httpLoop call clock req (Suc attempt) ?b)))) = hbr_peerId b \<and>
      hbr_topics (fst (snd (snd (httpLoop call clock req (Suc attempt) ?b)))) = hbr_topics b"
    if "attempt < hbr_retries b"
    using less [of ?b "Suc attempt"] that by (simp add: bridge_frame)
  show ?case
    by (subst (1 2) httpLoop.simps)
      (cases "call attempt req"; simp add: Let_def bridge_frame case_prod_unfold IH)
qed

lemma doHttp_frame:
  assumes "doHttp call clock b msg = (body, status, b', rs)"
  shows "hbr_peerId b' = hbr_peerId b \<and> hbr_topics b' = hbr_topics b"
proof -
  have "hbr_peerId (fst (snd (snd (doHttp call clock b msg)))) = hbr_peerId b \<and>
      hbr_topics (fst (snd (snd (doHttp call clock b msg)))) = hbr_topics b"
    by (simp add: doHttp_def ProtocolFields_eq Let_def httpLoop_frame)
  with assms show ?thesis by simp
qed

text \<open>The reply to a request, with what the target answered or the bridge's own error.\<close>

definition httpReply ::
  "(nat \<Rightarrow> httpRequest \<Rightarrow> httpOutcome) \<Rightarrow> (nat \<Rightarrow> gotime) \<Rightarrow> gotime \<Rightarrow> HttpBridge \<Rightarrow> DdMessage \<Rightarrow> DdMessage" where
  "httpReply call clock now b req = (case doHttp call clock b req of (body, status, b', rs) \<Rightarrow>
     bridgeReply DdProtocolHttp (hbr_peerId b) [(''http-status'', itoa status)] now req body)"

lemma httpReply_correlates:
  "h_RequestId (m_Header req) \<noteq> [] \<Longrightarrow>
     h_CorrelationId (m_Header (httpReply call clock now b req)) = h_RequestId (m_Header req) \<and>
     Normalize (httpReply call clock now b req) = httpReply call clock now b req"
  using bridgeReply_header by (simp add: httpReply_def split: prod.split)

lemma http_sync_reply:
  assumes "DecodeDdMessage (be_unmarshal env) (be_gunzip env) payload zeroMessage = Inr msg"
    "validateMessage (prepareSync msg) = (None, req)"
    "\<forall>m. be_marshal env m = Inr (enc m)" "\<forall>d. be_gzip env d = Inr (zipd d)" "\<forall>t d. be_publish env t d = None"
  shows "\<exists>b'. http_handleSyncRequest env call clock start now b topic payload =
      (b', [(replyTopicOf (hbr_topics b) req,
             let resp = httpReply call clock now b req in
             if length (m_Payload resp) \<ge> 128 then gzipMagic @ zipd (enc resp) else enc resp)])"
proof -
  obtain body status b1 rs where d: "doHttp call clock b req = (body, status, b1, rs)"
    using prod_cases4 by blast
  with doHttp_frame have f: "hbr_peerId b1 = hbr_peerId b" "hbr_topics b1 = hbr_topics b" by blast+
  let ?resp = "bridgeReply DdProtocolHttp (hbr_peerId b) [(''http-status'', itoa status)] now req body"
  show ?thesis
    using assms(1,2,5) EncodeDdMessage_total [OF assms(3,4)] d f
    by (simp add: http_handleSyncRequest_def Let_def bridge_frame replyTopicOf_def httpReply_def)
qed

text \<open>
  C26: the CoAP bridge survives any datagram: a request that decodes and validates as a CoAP request is
  answered by exactly one published message, on its reply topic or else on the response
  topic of its source peer, that carries the request's id as correlation id and what
  \<open>doCoap\<close> returned as payload; a payload above 1024 bytes is answered with the
  too-large error and not sent out.
\<close>

theorem coap_request_served:
  assumes "DecodeDdMessage (be_unmarshal env) (be_gunzip env) payload zeroMessage = Inr msg"
    "validateMessage (prepareSync msg) = (None, req)" "m_Protocol req = DdProtocolCoap"
    "\<forall>m. be_marshal env m = Inr (enc m)" "\<forall>d. be_gzip env d = Inr (zipd d)" "\<forall>t d. be_publish env t d = None"
  shows "\<exists>b' body b1 resp. coap_handleSyncRequest env resolves call clock start now b topic payload =
      Some (b', [(replyTopicOf (cbr_topics b) req,
             if length body \<ge> 128 then gzipMagic @ zipd (enc resp) else enc resp)]) \<and>
    doCoap resolves call clock b req = Some (body, b1) \<and>
    m_Payload resp = body \<and> h_CorrelationId (m_Header resp) = h_RequestId (m_Header req) \<and>
    (1024 < length (m_Payload req) \<and> \<not> coap_isCircuitOpen (clock 0) b \<longrightarrow>
       body = errBody ''coap_payload_too_large'' \<and> b1 = b)"
proof -
  obtain body b1 where d: "doCoap resolves call clock b req = Some (body, b1)"
    "cbr_peerId b1 = cbr_peerId b" "cbr_topics b1 = cbr_topics b"
    using doCoap_total by blast
  let ?resp = "bridgeReply DdProtocolCoap (cbr_peerId b) [] now req body"
  have resp: "Normalize ?resp = ?resp" "m_Payload ?resp = body"
    "h_CorrelationId (m_Header ?resp) = h_RequestId (m_Header req)"
    using bridgeReply_header validateMessage_sync_id [OF assms(2)]
    by (simp add: bridgeReply_def, blast+)
  moreover have "1024 < length (m_Payload req) \<and> \<not> coap_isCircuitOpen (clock 0) b \<longrightarrow>
      body = errBody ''coap_payload_too_large'' \<and> b1 = b"
    using d(1) by (auto simp: doCoap_def go_consts)
  moreover have "\<exists>b'. coap_handleSyncRequest env resolves call clock start now b topic payload =
      Some (b', [(replyTopicOf (cbr_topics b) req,
             if length body \<ge> 128 then gzipMagic @ zipd (enc ?resp) else enc ?resp)])"
    using assms(1,2,3,6) EncodeDdMessage_total [OF assms(4,5)] d resp(1,2)
    by (simp add: coap_handleSyncRequest_def Let_def bridge_frame replyTopicOf_def)
  ultimately show ?thesis using d(1) by blast
qed

definition coapMsg :: DdMessage where
  "coapMsg = Normalize (zeroMessage\<lparr>m_Protocol := DdProtocolCoap, m_Resource := ''temp'',
     m_Header := zeroHeader\<lparr>h_RequestId := ''r1'', h_SourcePeerId := ''hub''\<rparr>\<rparr>)"

definition bridgeEnv :: BridgeEnv where
  "bridgeEnv = \<lparr>be_marshal = \<lambda>m. Inr [0x7b], be_unmarshal = \<lambda>d m. Inr coapMsg, be_gzip = Inr,
     be_gunzip = Inr, be_publish = \<lambda>t d. None, be_marshalDLQ = \<lambda>e. Inr [1], be_b64 = \<lambda>d. []\<rparr>"

theorem coap_request_served_witness:
  "\<exists>b' body b1 (resp :: DdMessage). coap_handleSyncRequest bridgeEnv (\<lambda>u. True) (\<lambda>n p. Datagram [0x60, 0x45, 0, 1, 0xff, 9])
      int 1 2 demoCoap ''t'' [0x7b] =
      Some (b', [(replyTopicOf (cbr_topics demoCoap) (snd (validateMessage (prepareSync coapMsg))),
             if length body \<ge> 128 then gzipMagic @ id [0x7b] else [0x7b])]) \<and>
    doCoap (\<lambda>u. True) (\<lambda>n p. Datagram [0x60, 0x45, 0, 1, 0xff, 9]) int demoCoap
      (snd (validateMessage (prepareSync coapMsg))) = Some (body, b1) \<and>
    m_Payload resp = body \<and>
    h_CorrelationId (m_Header resp) = h_RequestId (m_Header (snd (validateMessage (prepareSync coapMsg)))) \<and>
    (1024 < length (m_Payload (snd (validateMessage (prepareSync coapMsg)))) \<and> \<not> coap_isCircuitOpen (int 0) demoCoap \<longrightarrow>
       body = errBody ''coap_payload_too_large'' \<and> b1 = demoCoap)"
proof (rule coap_request_served [where enc = "\<lambda>m. [0x7b]" and zipd = id])
  show "DecodeDdMessage (be_unmarshal bridgeEnv) (be_gunzip bridgeEnv) [0x7b] zeroMessage = Inr coapMsg"
    "validateMessage (prepareSync coapMsg) = (None, snd (validateMessage (prepareSync coapMsg)))"
    "m_Protocol (snd (validateMessage (prepareSync coapMsg))) = DdProtocolCoap"
    by code_simp+
qed (simp_all add: bridgeEnv_def)

text \<open>
  A mapping from \<open>p#\<close> to \<open>q#\<close> forwards a message on a topic below \<open>p\<close> to the same
  place below \<open>q\<close>, once, with its payload unchanged; topics that differ go to
  topics that differ.
\<close>

lemma mqtt_forward_rebases:
  assumes "mm_Source m = p @ ''#''" "mm_Target m = q @ ''#''" "\<not> suffix ''+'' p" "\<not> suffix ''+'' q"
  shows "snd (mqttForward publish start now m (p @ rest) payload) = [(q @ rest, payload)] \<and>
    (mqttDest m (p @ rest) = mqttDest m (p @ rest') \<longleftrightarrow> rest = rest')"
proof -
  have d: "mqttDest m (p @ x) = q @ x" for x
    using assms by (simp add: mqttDest_def stripWildcard_hash)
  then show ?thesis
    by (simp add: mqttForward_def Let_def split: option.split)
qed

end
