(* ===== verification/Protocol_Index.thy ===== *)
theory Protocol_Index
  imports Config Peer_Registry Resource_Catalog
    "HOL-Library.Char_ord" "HOL-Library.List_Lexorder" "HOL-Library.Product_Lexorder"
begin

text \<open>
  The protocol resource index (\<open>service/protocol_resource_index.go\<close>): the resources served
  over HTTP and CoAP with their providers, the MQTT topics of the process, and the count
  of queries of each. \<open>sort.Strings\<close> and the two calls of \<open>sort.Slice\<close> are \<^const>\<open>sort_key\<close> over
  the order of the bytes; where two keys are equal Go leaves the order open.
  The two listings of the source are the same loop over items with the same fields, and share
  a record and a loop here. \<open>ix_marshal\<close> and \<open>ix_unmarshal\<close> stand for \<open>encoding/json\<close>,
  \<open>ix_clock n\<close> is the n-th reading of the clock in one call.
\<close>

section \<open>White space\<close>

text \<open>\<open>strings.TrimSpace\<close> removes the characters \<open>unicode.IsSpace\<close> accepts, given here by their
  UTF-8 encodings, from both ends.\<close>

definition byteString :: "nat list \<Rightarrow> string" where
  "byteString ns = map (\<lambda>n. char_of n) ns"

definition spaceRunes :: "string list" where
  "spaceRunes = map byteString
     ([[0x20], [0x09], [0x0a], [0x0b], [0x0c], [0x0d], [0xc2, 0x85], [0xc2, 0xa0], [0xe1, 0x9a, 0x80]] @
      map (\<lambda>n. [0xe2, 0x80, n]) [0x80..<0x8b] @
      [[0xe2, 0x80, 0xa8], [0xe2, 0x80, 0xa9], [0xe2, 0x80, 0xaf], [0xe2, 0x81, 0x9f], [0xe3, 0x80, 0x80]])"

function trimFront :: "string list \<Rightarrow> string \<Rightarrow> string" where
  "trimFront runes s =
    (case find (\<lambda>r. r \<noteq> [] \<and> prefix r s) runes of
       None \<Rightarrow> s
     | Some r \<Rightarrow> trimFront runes (drop (length r) s))"
  by pat_completeness auto

termination
  by (relation "measure (\<lambda>(runes, s). length s)") (auto simp: find_Some_iff prefix_def)

declare trimFront.simps [simp del]

definition TrimSpace :: "string \<Rightarrow> string" where
  "TrimSpace s = rev (trimFront (map rev spaceRunes) (rev (trimFront spaceRunes s)))"

section \<open>State and items\<close>

text \<open>A value decoded into \<open>any\<close>; numbers are kept as their text.\<close>

datatype json = JNull | JBool bool | JNum string | JStr string | JArr "json list" | JObj "(string \<times> json) list"

record RuntimeStats =
  rs_QueryCount :: int
  rs_LastQueriedAt :: gotime

definition zeroStats :: RuntimeStats where
  "zeroStats = \<lparr>rs_QueryCount = 0, rs_LastQueriedAt = 0\<rparr>"

record ProtocolResourceIndex =
  pi_cfg :: Config
  pi_topics :: TopicSet
  pi_peerRegistry :: PeerRegistryService
  pi_resourceCatalog :: ResourceCatalog
  pi_stats :: "(string, RuntimeStats) gomap"

record ResourceItem =
  ri_Resource :: string
  ri_Providers :: "DdPeerInfo list"
  ri_TargetURL :: string
  ri_RequestMetaSchema :: "(string \<times> json) list option"
  ri_RuntimeStats :: RuntimeStats

record MqttTopicItem =
  mt_Topic :: string
  mt_Direction :: string
  mt_QosDefault :: int
  mt_Retain :: bool
  mt_Providers :: "string list"
  mt_Consumers :: "string list"
  mt_RequestMetaSchema :: "(string \<times> json) list option"
  mt_RuntimeStats :: RuntimeStats

record IndexEnv =
  ix_marshal :: "ResourceMetaSchema \<Rightarrow> go_error + bytes"
  ix_unmarshal :: "bytes \<Rightarrow> go_error + (string \<times> json) list"
  ix_clock :: "nat \<Rightarrow> gotime"

definition NewProtocolResourceIndex ::
  "Config \<Rightarrow> TopicSet \<Rightarrow> PeerRegistryService \<Rightarrow> ResourceCatalog \<Rightarrow> ProtocolResourceIndex" where
  "NewProtocolResourceIndex cfg topics peerRegistry resourceCatalog =
     \<lparr>pi_cfg = cfg, pi_topics = topics, pi_peerRegistry = peerRegistry,
      pi_resourceCatalog = resourceCatalog, pi_stats = []\<rparr>"

section \<open>Operations\<close>

definition bumpStat :: "gotime \<Rightarrow> string \<Rightarrow> ProtocolResourceIndex \<Rightarrow> RuntimeStats \<times> ProtocolResourceIndex" where
  "bumpStat now key i =
    (let s = (case map_of (pi_stats i) key of Some s \<Rightarrow> s | None \<Rightarrow> zeroStats);
         s = s\<lparr>rs_QueryCount := wrap64 (rs_QueryCount s + 1), rs_LastQueriedAt := now\<rparr>
     in (s, i\<lparr>pi_stats := gm_set key s (pi_stats i)\<rparr>))"

fun lookupLoop :: "MemoryStore \<Rightarrow> string list \<Rightarrow> DdPeerInfo list" where
  "lookupLoop store [] = []"
| "lookupLoop store (peerId # peerIDs) =
     (case Get store peerId of None \<Rightarrow> lookupLoop store peerIDs
      | Some peer \<Rightarrow> peer # lookupLoop store peerIDs)"

definition lookupPeers :: "ProtocolResourceIndex \<Rightarrow> string list \<Rightarrow> DdPeerInfo list" where
  "lookupPeers i peerIDs = sort_key p_Id (lookupLoop (pr_store (pi_peerRegistry i)) peerIDs)"

definition lookupSchemaMap ::
  "IndexEnv \<Rightarrow> gotime \<Rightarrow> ProtocolResourceIndex \<Rightarrow> string \<Rightarrow> (string \<times> json) list option" where
  "lookupSchemaMap env now i resource =
    (case GetResourceMetaSchema (pi_peerRegistry i) now resource of
       None \<Rightarrow> None
     | Some schema \<Rightarrow>
        (case ix_marshal env schema of
           Inl err \<Rightarrow> None
         | Inr raw \<Rightarrow> (case ix_unmarshal env raw of Inl err \<Rightarrow> None | Inr out \<Rightarrow> Some out)))"

fun listLoop ::
  "IndexEnv \<Rightarrow> string \<Rightarrow> string \<Rightarrow> nat \<Rightarrow> string list \<Rightarrow> ProtocolResourceIndex \<Rightarrow>
     ResourceItem list \<times> ProtocolResourceIndex" where
  "listLoop env proto target n [] i = ([], i)"
| "listLoop env proto target n (r # resources) i =
    (let r = TrimSpace r in
     if r = [] then listLoop env proto target n resources i
     else let providerIDs = GetProviders (pi_resourceCatalog i) r in
       if providerIDs = [] then listLoop env proto target n resources i
       else let providers = lookupPeers i providerIDs;
                schema = lookupSchemaMap env (ix_clock env (2 * n)) i r;
                (stats, i) = bumpStat (ix_clock env (2 * n + 1)) (proto @ r) i;
                (items, i) = listLoop env proto target (n + 1) resources i
            in (\<lparr>ri_Resource = r, ri_Providers = providers, ri_TargetURL = target,
                  ri_RequestMetaSchema = schema, ri_RuntimeStats = stats\<rparr> # items, i))"

definition queriedResources :: "ProtocolResourceIndex \<Rightarrow> string \<Rightarrow> string list" where
  "queriedResources i resource =
    (let resources = ListResources (pi_resourceCatalog i);
         resources = (if resource \<noteq> [] then [resource] else resources)
     in sort resources)"

definition ListHTTP ::
  "IndexEnv \<Rightarrow> ProtocolResourceIndex \<Rightarrow> string \<Rightarrow> ResourceItem list \<times> ProtocolResourceIndex" where
  "ListHTTP env i resource =
    (let target = bt_TargetUrl (bg_Http (cf_Bridges (pi_cfg i))) in
     if target = [] then ([], i)
     else listLoop env ''http/'' target 0 (queriedResources i resource) i)"

definition ListCoap ::
  "IndexEnv \<Rightarrow> ProtocolResourceIndex \<Rightarrow> string \<Rightarrow> ResourceItem list \<times> ProtocolResourceIndex" where
  "ListCoap env i resource =
    (let target = bt_TargetUrl (bg_Coap (cf_Bridges (pi_cfg i))) in
     if target = [] then ([], i)
     else listLoop env ''coap/'' target 0 (queriedResources i resource) i)"

text \<open>The items of a topic this process publishes on and of one it subscribes to, and the
  closure \<open>add\<close> over the map of items.\<close>

definition pubItem :: "string \<Rightarrow> string \<Rightarrow> MqttTopicItem" where
  "pubItem peer t = \<lparr>mt_Topic = t, mt_Direction = ''pub'', mt_QosDefault = 1, mt_Retain = False,
     mt_Providers = [peer], mt_Consumers = [], mt_RequestMetaSchema = None, mt_RuntimeStats = zeroStats\<rparr>"

definition subItem :: "string \<Rightarrow> string \<Rightarrow> MqttTopicItem" where
  "subItem peer t = \<lparr>mt_Topic = t, mt_Direction = ''sub'', mt_QosDefault = 1, mt_Retain = False,
     mt_Providers = [], mt_Consumers = [peer], mt_RequestMetaSchema = None, mt_RuntimeStats = zeroStats\<rparr>"

definition addItem ::
  "MqttTopicItem \<Rightarrow> (string \<times> string, MqttTopicItem) gomap \<Rightarrow> (string \<times> string, MqttTopicItem) gomap" where
  "addItem item items = gm_set (mt_Topic item, mt_Direction item) item items"

definition coreTopics :: "TopicSet \<Rightarrow> string list" where
  "coreTopics ts = [ts_PeerRegister ts, ts_PeerHeartbeat ts, ts_PeerQuery ts, ts_PeerResourceReport ts,
     ts_PeerUnregister ts, ts_PeerResourceRegister ts, ts_PeerAuthVerify ts, ts_PeerListQuery ts]"

definition mqttItems :: "ProtocolResourceIndex \<Rightarrow> string \<Rightarrow> (string \<times> string, MqttTopicItem) gomap" where
  "mqttItems i peer =
     fold (\<lambda>(source, target) items. addItem (pubItem peer target) (addItem (subItem peer source) items))
       (bg_MqttMappings (cf_Bridges (pi_cfg i)))
       (fold (\<lambda>t items. addItem (subItem peer t) (addItem (pubItem peer t) items))
         (coreTopics (pi_topics i)) [])"

fun mqttLoop ::
  "IndexEnv \<Rightarrow> string \<Rightarrow> int \<Rightarrow> nat \<Rightarrow> (string \<times> string, MqttTopicItem) gomap \<Rightarrow> ProtocolResourceIndex \<Rightarrow>
     MqttTopicItem list \<times> ProtocolResourceIndex" where
  "mqttLoop env direction qos n [] i = ([], i)"
| "mqttLoop env direction qos n ((k, item) # items) i =
    (if direction \<noteq> [] \<and> direction \<noteq> ''both'' \<and> mt_Direction item \<noteq> direction
     then mqttLoop env direction qos n items i
     else if qos \<ge> 0 \<and> mt_QosDefault item \<noteq> qos then mqttLoop env direction qos n items i
     else let (stats, i) = bumpStat (ix_clock env n) (''mqtt/'' @ mt_Topic item @ ''/'' @ mt_Direction item) i;
              (out, i) = mqttLoop env direction qos (n + 1) items i
          in (item\<lparr>mt_RuntimeStats := stats\<rparr> # out, i))"

definition ListMqttTopics ::
  "IndexEnv \<Rightarrow> ProtocolResourceIndex \<Rightarrow> string \<Rightarrow> string \<Rightarrow> int \<Rightarrow>
     MqttTopicItem list \<times> ProtocolResourceIndex" where
  "ListMqttTopics env i direction peerID qos =
    (let peer = pc_Id (cf_Peer (pi_cfg i));
         peer = (if peerID \<noteq> [] then peerID else peer);
         (out, i) = mqttLoop env direction qos 0 (mqttItems i peer) i
     in (sort_key (\<lambda>item. (mt_Topic item, mt_Direction item)) out, i))"

definition GetMqttTopic ::
  "IndexEnv \<Rightarrow> ProtocolResourceIndex \<Rightarrow> string \<Rightarrow> MqttTopicItem list \<times> ProtocolResourceIndex" where
  "GetMqttTopic env i name =
    (let (items, i) = ListMqttTopics env i ''both'' [] (-1)
     in (filter (\<lambda>item. mt_Topic item = name) items, i))"

section \<open>Lemmas\<close>

definition queryCount :: "ProtocolResourceIndex \<Rightarrow> string \<Rightarrow> int" where
  "queryCount i key = (case map_of (pi_stats i) key of Some s \<Rightarrow> rs_QueryCount s | None \<Rightarrow> 0)"

definition listed :: "ProtocolResourceIndex \<Rightarrow> string \<Rightarrow> bool" where
  "listed i r \<longleftrightarrow> r \<noteq> [] \<and> GetProviders (pi_resourceCatalog i) r \<noteq> []"

lemma bumpStat_frame [simp]:
  "pi_cfg (snd (bumpStat now key i)) = pi_cfg i"
  "pi_topics (snd (bumpStat now key i)) = pi_topics i"
  "pi_peerRegistry (snd (bumpStat now key i)) = pi_peerRegistry i"
  "pi_resourceCatalog (snd (bumpStat now key i)) = pi_resourceCatalog i"
  "listed (snd (bumpStat now key i)) = listed i"
  "lookupPeers (snd (bumpStat now key i)) = lookupPeers i"
  by (simp_all add: bumpStat_def Let_def listed_def lookupPeers_def fun_eq_iff)

lemma queryCount_bumpStat [simp]:
  "queryCount (snd (bumpStat now key i)) k =
     (if k = key then wrap64 (queryCount i key + 1) else queryCount i k)"
  by (simp add: queryCount_def bumpStat_def Let_def gomap_simps zeroStats_def split: option.split)

lemma listLoop_Cons:
  "listLoop env proto target n (r # rs) i =
    (let r = TrimSpace r; (stats, i') = bumpStat (ix_clock env (2 * n + 1)) (proto @ r) i
     in if \<not> listed i r then listLoop env proto target n rs i
        else (\<lparr>ri_Resource = r, ri_Providers = lookupPeers i (GetProviders (pi_resourceCatalog i) r),
                ri_TargetURL = target, ri_RequestMetaSchema = lookupSchemaMap env (ix_clock env (2 * n)) i r,
                ri_RuntimeStats = stats\<rparr> # fst (listLoop env proto target (n + 1) rs i'),
              snd (listLoop env proto target (n + 1) rs i')))"
  by (auto simp: Let_def listed_def split: prod.split)

lemmas listLoop_step = listLoop_Cons Let_def case_prod_beta

declare listLoop.simps(2) [simp del]

lemma listLoop_resources:
  "map ri_Resource (fst (listLoop env proto target n rs i)) = filter (listed i) (map TrimSpace rs)"
  by (induction rs arbitrary: n i) (simp_all add: listLoop_step)

lemma listLoop_items:
  "item \<in> set (fst (listLoop env proto target n rs i)) \<Longrightarrow>
     ri_Providers item = lookupPeers i (GetProviders (pi_resourceCatalog i) (ri_Resource item)) \<and>
     ri_TargetURL item = target"
  by (induction rs arbitrary: n i) (auto simp: listLoop_step split: if_splits)

lemma listLoop_counts:
  "distinct (filter (listed i) (map TrimSpace rs)) \<Longrightarrow>
     queryCount (snd (listLoop env proto target n rs i)) key =
       (if \<exists>r. key = proto @ r \<and> r \<in> set (filter (listed i) (map TrimSpace rs))
        then wrap64 (queryCount i key + 1) else queryCount i key)"
  by (induction rs arbitrary: n i) (auto simp: listLoop_step, metis imageI)

lemma listLoop_frame:
  "pi_peerRegistry (snd (listLoop env proto target n rs i)) = pi_peerRegistry i"
  "pi_resourceCatalog (snd (listLoop env proto target n rs i)) = pi_resourceCatalog i"
  "pi_cfg (snd (listLoop env proto target n rs i)) = pi_cfg i"
  "pi_topics (snd (listLoop env proto target n rs i)) = pi_topics i"
  by (induction rs arbitrary: n i) (simp_all add: listLoop_step)

text \<open>The providers of an item.\<close>

lemma set_lookupLoop: "set (lookupLoop store ids) = {p. \<exists>k \<in> set ids. Get store k = Some p}"
  by (induction ids) (auto split: option.split)

lemma set_lookupPeers:
  "set (lookupPeers i ids) = {p. \<exists>k \<in> set ids. Get (pr_store (pi_peerRegistry i)) k = Some p}"
  by (simp add: lookupPeers_def set_lookupLoop)

text \<open>A sorted listing without duplicates is determined by its elements.\<close>

lemma sort_distinct: "distinct xs \<Longrightarrow> sort xs = sorted_list_of_set (set xs)"
  by (simp add: sorted_list_of_set_sort_remdups distinct_remdups_id)

lemma filter_sorted_list_of_set:
  "finite A \<Longrightarrow> filter P (sorted_list_of_set A) = sorted_list_of_set {x \<in> A. P x}"
  by (rule sorted_distinct_set_unique) (auto simp: sorted_filter [where f = id, simplified])

lemma map_sort_key_distinct:
  "distinct (map f xs) \<Longrightarrow> map f (sort_key f xs) = sorted_list_of_set (f ` set xs)"
  by (rule sorted_distinct_set_unique) (auto simp: distinct_map dest: inj_on_subset)

lemma listed_resources: "listed i r \<Longrightarrow> r \<in> set (ListResources (pi_resourceCatalog i))"
  by (force simp: listed_def GetProviders_def indexAt_def ListResources_def
      split: option.splits dest: map_of_SomeD)

lemma finite_listed: "finite {r. listed i r}"
  by (rule finite_subset [OF _ finite_set [of "ListResources (pi_resourceCatalog i)"]])
    (auto simp: listed_resources)

lemma queriedResources_all:
  assumes "wf_catalog (pi_resourceCatalog i)" "\<forall>r \<in> set (ListResources (pi_resourceCatalog i)). TrimSpace r = r"
  shows "filter (listed i) (map TrimSpace (queriedResources i [])) = sorted_list_of_set {r. listed i r}"
proof -
  let ?rs = "ListResources (pi_resourceCatalog i)"
  have "distinct ?rs"
    using assms(1) by (simp add: ListResources_def wf_catalog_def wf_gomap_def)
  then have "queriedResources i [] = sorted_list_of_set (set ?rs)"
    by (simp add: queriedResources_def sort_distinct)
  moreover have "map TrimSpace (sorted_list_of_set (set ?rs)) = sorted_list_of_set (set ?rs)"
    using assms(2) by (intro map_idI) simp
  moreover have "{r \<in> set ?rs. listed i r} = {r. listed i r}"
    using listed_resources by auto
  ultimately show ?thesis
    by (simp add: filter_sorted_list_of_set)
qed

text \<open>The MQTT topics: which items the map has, and what the loop keeps of them.\<close>

definition topicKey :: "MqttTopicItem \<Rightarrow> string \<times> string" where
  "topicKey item = (mt_Topic item, mt_Direction item)"

definition topicKeys :: "ProtocolResourceIndex \<Rightarrow> (string \<times> string) set" where
  "topicKeys i = set (coreTopics (pi_topics i)) \<times> {''pub'', ''sub''} \<union>
     {(source, ''sub'') |source target. (source, target) \<in> set (bg_MqttMappings (cf_Bridges (pi_cfg i)))} \<union>
     {(target, ''pub'') |source target. (source, target) \<in> set (bg_MqttMappings (cf_Bridges (pi_cfg i)))}"

definition keyItem :: "string \<Rightarrow> string \<times> string \<Rightarrow> MqttTopicItem" where
  "keyItem peer k = (if snd k = ''pub'' then pubItem peer (fst k) else subItem peer (fst k))"

definition wantedKey :: "string \<Rightarrow> int \<Rightarrow> string \<times> string \<Rightarrow> bool" where
  "wantedKey direction qos k \<longleftrightarrow> (direction = [] \<or> direction = ''both'' \<or> snd k = direction) \<and> (qos < 0 \<or> qos = 1)"

definition items_of :: "string \<Rightarrow> (string \<times> string, MqttTopicItem) gomap \<Rightarrow> (string \<times> string) set \<Rightarrow> bool" where
  "items_of peer items K \<longleftrightarrow> wf_gomap items \<and>
     map_of items = (\<lambda>k. if k \<in> K then Some (keyItem peer k) else None)"

lemma items_of_add:
  assumes "items_of peer items K"
  shows "items_of peer (addItem (pubItem peer t) items) (insert (t, ''pub'') K)"
    "items_of peer (addItem (subItem peer t) items) (insert (t, ''sub'') K)"
  using assms
  by (auto simp: items_of_def addItem_def gomap_simps keyItem_def pubItem_def subItem_def fun_eq_iff)

lemma items_of_core:
  "items_of peer items K \<Longrightarrow>
     items_of peer (fold (\<lambda>t items. addItem (subItem peer t) (addItem (pubItem peer t) items)) ts items)
       (K \<union> set ts \<times> {''pub'', ''sub''})"
proof (induction ts arbitrary: items K)
  case (Cons t ts)
  have "K \<union> set (t # ts) \<times> {''pub'', ''sub''} =
      insert (t, ''sub'') (insert (t, ''pub'') K) \<union> set ts \<times> {''pub'', ''sub''}"
    by auto
  with Cons.IH [OF items_of_add(2) [OF items_of_add(1) [OF Cons.prems]]] show ?case by simp
qed simp

lemma items_of_mappings:
  "items_of peer items K \<Longrightarrow>
     items_of peer (fold (\<lambda>(source, target) items. addItem (pubItem peer target) (addItem (subItem peer source) items)) ms items)
       (K \<union> {(source, ''sub'') |source target. (source, target) \<in> set ms} \<union>
          {(target, ''pub'') |source target. (source, target) \<in> set ms})"
proof (induction ms arbitrary: items K)
  case (Cons m ms)
  obtain source target where m: "m = (source, target)" by (cases m)
  have "K \<union> {(s, ''sub'') |s t. (s, t) \<in> set (m # ms)} \<union> {(t, ''pub'') |s t. (s, t) \<in> set (m # ms)} =
      insert (target, ''pub'') (insert (source, ''sub'') K) \<union> {(s, ''sub'') |s t. (s, t) \<in> set ms} \<union>
        {(t, ''pub'') |s t. (s, t) \<in> set ms}"
    by (auto simp: m)
  with Cons.IH [OF items_of_add(1) [OF items_of_add(2) [OF Cons.prems]], of target source] show ?case
    by (simp add: m)
qed simp

lemma items_of_mqttItems: "items_of peer (mqttItems i peer) (topicKeys i)"
proof -
  have "items_of peer [] {}" by (simp add: items_of_def)
  from items_of_mappings [OF items_of_core [OF this]] show ?thesis
    by (simp add: mqttItems_def topicKeys_def)
qed

definition statKey :: "string \<times> string \<Rightarrow> string" where
  "statKey k = ''mqtt/'' @ fst k @ ''/'' @ snd k"

definition directed :: "string \<times> string \<Rightarrow> bool" where
  "directed k \<longleftrightarrow> snd k = ''pub'' \<or> snd k = ''sub''"

lemma statKey_inject: "directed k \<Longrightarrow> directed k' \<Longrightarrow> statKey k = statKey k' \<longleftrightarrow> k = k'"
  by (cases k; cases k') (auto simp: directed_def statKey_def)

lemma topicKeys_directed: "k \<in> topicKeys i \<Longrightarrow> directed k"
  by (auto simp: topicKeys_def directed_def)

lemma mqttLoop_Cons:
  assumes "item = keyItem peer k" "directed k"
  shows "mqttLoop env direction qos n ((k, item) # items) i =
    (let (stats, i') = bumpStat (ix_clock env n) (statKey k) i
     in if \<not> wantedKey direction qos k then mqttLoop env direction qos n items i
        else (item\<lparr>mt_RuntimeStats := stats\<rparr> # fst (mqttLoop env direction qos (n + 1) items i'),
              snd (mqttLoop env direction qos (n + 1) items i')))"
  using assms by (auto simp: directed_def statKey_def wantedKey_def keyItem_def pubItem_def subItem_def Let_def
      split: prod.split)

lemmas mqttLoop_step = mqttLoop_Cons Let_def case_prod_beta

declare mqttLoop.simps(2) [simp del]

lemma topicKey_keyItem [simp]: "directed k \<Longrightarrow> topicKey (keyItem peer k\<lparr>mt_RuntimeStats := st\<rparr>) = k"
  by (cases k) (auto simp: directed_def topicKey_def keyItem_def pubItem_def subItem_def)

text \<open>What the loop does to items as the map has them.\<close>

definition as_keyed :: "string \<Rightarrow> (string \<times> string, MqttTopicItem) gomap \<Rightarrow> bool" where
  "as_keyed peer items \<longleftrightarrow> (\<forall>(k, item) \<in> set items. item = keyItem peer k \<and> directed k)"

lemma as_keyed_simps [simp]:
  "as_keyed peer []"
  "as_keyed peer ((k, item) # items) \<longleftrightarrow> item = keyItem peer k \<and> directed k \<and> as_keyed peer items"
  by (auto simp: as_keyed_def)

lemma mqttLoop_keys:
  "as_keyed peer items \<Longrightarrow>
     map topicKey (fst (mqttLoop env direction qos n items i)) = filter (wantedKey direction qos) (map fst items)"
  by (induction items arbitrary: n i) (auto simp: mqttLoop_step)

lemma mqttLoop_items:
  "as_keyed peer items \<Longrightarrow> item \<in> set (fst (mqttLoop env direction qos n items i)) \<Longrightarrow>
     item = keyItem peer (topicKey item)\<lparr>mt_RuntimeStats := mt_RuntimeStats item\<rparr>"
  by (induction items arbitrary: n i) (auto simp: mqttLoop_step split: if_splits)

lemma mqttLoop_counts:
  "as_keyed peer items \<Longrightarrow> distinct (map fst items) \<Longrightarrow> directed k \<Longrightarrow>
     queryCount (snd (mqttLoop env direction qos n items i)) (statKey k) =
       (if wantedKey direction qos k \<and> k \<in> fst ` set items
        then wrap64 (queryCount i (statKey k) + 1) else queryCount i (statKey k))"
proof (induction items arbitrary: n i)
  case (Cons x items)
  obtain k' item where x: "x = (k', item)" by (cases x)
  from Cons show ?case
    by (cases "k' = k") (simp_all add: x mqttLoop_step statKey_inject)
qed simp

lemma as_keyed_mqttItems: "as_keyed peer (mqttItems i peer)"
  using items_of_mqttItems [of peer i] topicKeys_directed [of _ i]
  by (auto simp: as_keyed_def items_of_def in_gomap_iff split: if_splits)

lemma distinct_mqttItems: "distinct (map fst (mqttItems i peer))"
  using items_of_mqttItems [of peer i] by (simp add: items_of_def wf_gomap_def)

lemma keys_mqttItems: "fst ` set (mqttItems i peer) = topicKeys i"
proof -
  have "dom (map_of (mqttItems i peer)) = topicKeys i"
    using items_of_mqttItems [of peer i] by (simp add: items_of_def dom_def)
  then show ?thesis by (simp add: dom_map_of_conv_image_fst)
qed

lemma listLoop_exact:
  assumes "wf_catalog (pi_resourceCatalog i)"
    and "\<forall>r \<in> set (ListResources (pi_resourceCatalog i)). TrimSpace r = r"
  shows "map ri_Resource (fst (listLoop env proto target n (queriedResources i []) i)) =
      sorted_list_of_set {r. listed i r}"
    "queryCount (snd (listLoop env proto target n (queriedResources i []) i)) (proto @ r) =
      (if listed i r then wrap64 (queryCount i (proto @ r) + 1) else queryCount i (proto @ r))"
  using queriedResources_all [OF assms] finite_listed [of i]
  by (simp_all add: listLoop_resources listLoop_counts)

lemma listLoop_providers:
  assumes "item \<in> set (fst (listLoop env proto target n rs i))"
  shows "sorted (map p_Id (ri_Providers item))"
    "set (ri_Providers item) = {p. \<exists>k \<in> set (GetProviders (pi_resourceCatalog i) (ri_Resource item)).
      Get (pr_store (pi_peerRegistry i)) k = Some p}"
  using listLoop_items [OF assms] set_lookupPeers by (simp_all add: lookupPeers_def)

section \<open>Properties\<close>

text \<open>
  What the HTTP and the CoAP listing return. When the bridge has a target and the catalog's
  resource names carry no white space around them, the listing has exactly one item for every
  named resource that has a provider, in the order of the names; an item has the stored
  records of its providers, ordered by id, and the target; and the count of queries of exactly the
  listed resources goes up by one. With no target the listing is empty and counts nothing.
\<close>

lemma protocol_list_exact:
  assumes cat: "wf_catalog (pi_resourceCatalog i)"
    and trimmed: "\<forall>r \<in> set (ListResources (pi_resourceCatalog i)). TrimSpace r = r"
  shows "let target = bt_TargetUrl ((if coap then bg_Coap else bg_Http) (cf_Bridges (pi_cfg i)));
      stat = (\<lambda>r. (if coap then ''coap/'' else ''http/'') @ r);
      shown = (if target = [] then {} else {r. r \<noteq> [] \<and> GetProviders (pi_resourceCatalog i) r \<noteq> []});
      (items, i') = (if coap then ListCoap env i [] else ListHTTP env i [])
    in map ri_Resource items = sorted_list_of_set shown \<and>
      (\<forall>item \<in> set items. ri_TargetURL item = target \<and> sorted (map p_Id (ri_Providers item)) \<and>
        set (ri_Providers item) = {p. \<exists>k \<in> set (GetProviders (pi_resourceCatalog i) (ri_Resource item)).
          Get (pr_store (pi_peerRegistry i)) k = Some p}) \<and>
      (\<forall>r. queryCount i' (stat r) =
        (if r \<in> shown then wrap64 (queryCount i (stat r) + 1) else queryCount i (stat r)))"
proof -
  let ?target = "bt_TargetUrl ((if coap then bg_Coap else bg_Http) (cf_Bridges (pi_cfg i)))"
  let ?proto = "if coap then ''coap/'' else ''http/''"
  have run: "(if coap then ListCoap env i [] else ListHTTP env i []) =
      (if ?target = [] then ([], i) else listLoop env ?proto ?target 0 (queriedResources i []) i)"
    by (simp add: ListCoap_def ListHTTP_def)
  show ?thesis
  proof (cases "?target = []")
    case True
    then show ?thesis unfolding run Let_def by simp
  next
    case False
    then show ?thesis
      unfolding run Let_def listed_def [symmetric] case_prod_beta
      using listLoop_items [of _ env ?proto ?target 0 "queriedResources i []" i]
        listLoop_providers [of _ env ?proto ?target 0 "queriedResources i []" i]
      by (simp only: if_False listLoop_exact [OF cat trimmed] mem_Collect_eq simp_thms if_cancel) simp
  qed
qed

text \<open>
  What the MQTT listing returns: exactly the core topics in both directions and the
  configured mappings, source as subscribed and target as published, that pass the
  filters, each once and ordered by topic and direction, whatever the order in which the
  map is iterated; each with the asking or the configured peer as its one provider or
  consumer. A filter on a quality of service other than one shows nothing. The count of
  exactly the items shown goes up by one.
\<close>

lemma mqtt_list_exact:
  "let peer = (if peerID \<noteq> [] then peerID else pc_Id (cf_Peer (pi_cfg i)));
     shown = {k \<in> topicKeys i. wantedKey direction qos k};
     (items, i') = ListMqttTopics env i direction peerID qos
   in map topicKey items = sorted_list_of_set shown \<and>
     (\<forall>item \<in> set items. item = keyItem peer (topicKey item)\<lparr>mt_RuntimeStats := mt_RuntimeStats item\<rparr>) \<and>
     (\<forall>k. directed k \<longrightarrow> queryCount i' (statKey k) =
       (if k \<in> shown then wrap64 (queryCount i (statKey k) + 1) else queryCount i (statKey k)))"
proof -
  let ?peer = "if peerID \<noteq> [] then peerID else pc_Id (cf_Peer (pi_cfg i))"
  let ?items = "mqttItems i ?peer"
  let ?loop = "mqttLoop env direction qos 0 ?items i"
  have keyed: "as_keyed ?peer ?items" by (rule as_keyed_mqttItems)
  have loop: "map topicKey (fst ?loop) = filter (wantedKey direction qos) (map fst ?items)"
    by (rule mqttLoop_keys [OF keyed])
  have "distinct (map topicKey (fst ?loop))"
    unfolding loop by (intro distinct_filter distinct_mqttItems)
  moreover have "topicKey ` set (fst ?loop) = {k \<in> topicKeys i. wantedKey direction qos k}"
    unfolding set_map [symmetric] loop using keys_mqttItems [of i ?peer] by auto
  ultimately have keys: "map topicKey (sort_key topicKey (fst ?loop)) =
      sorted_list_of_set {k \<in> topicKeys i. wantedKey direction qos k}"
    using map_sort_key_distinct [of topicKey "fst ?loop"] by simp
  have run: "ListMqttTopics env i direction peerID qos = (sort_key topicKey (fst ?loop), snd ?loop)"
    by (simp add: ListMqttTopics_def topicKey_def [abs_def] Let_def case_prod_beta)
  show ?thesis
    unfolding run Let_def prod.case
  proof (intro conjI ballI allI impI)
    show "item = keyItem ?peer (topicKey item)\<lparr>mt_RuntimeStats := mt_RuntimeStats item\<rparr>"
      if "item \<in> set (sort_key topicKey (fst ?loop))" for item
      by (rule mqttLoop_items [OF keyed]) (use that in simp)
    show "queryCount (snd ?loop) (statKey k) =
        (if k \<in> {k \<in> topicKeys i. wantedKey direction qos k} then wrap64 (queryCount i (statKey k) + 1)
         else queryCount i (statKey k))" if "directed k" for k
      unfolding mqttLoop_counts [OF keyed distinct_mqttItems that] keys_mqttItems
      by (simp add: conj_commute)
  qed (rule keys)
qed

text \<open>
  Looking up one topic counts a query of every topic of the process: \<open>GetMqttTopic\<close> lists them
  all and picks from the result.
\<close>

lemma mqtt_lookup_counts_all:
  assumes "k \<in> topicKeys i"
  shows "queryCount (snd (GetMqttTopic env i name)) (statKey k) = wrap64 (queryCount i (statKey k) + 1)"
  using assms mqttLoop_counts [OF as_keyed_mqttItems distinct_mqttItems topicKeys_directed [OF assms],
      of env "''both''" "-1" 0 i]
  by (simp add: GetMqttTopic_def ListMqttTopics_def Let_def case_prod_beta keys_mqttItems wantedKey_def)

end
