(* ===== verification/Api.thy ===== *)
theory Api
  imports Config Data_Service Peer_Registry Resource_Catalog Stream_Service Bridges Protocol_Index
begin

text \<open>
  The HTTP API (\<open>api/handler.go\<close>, \<open>api/router.go\<close>) and the route decision
  (\<open>service/route_decision.go\<close>): the peer handlers, the three transfer handlers with the
  check of a message against the merged schema of its resource, the direct route to an
  enabled bridge target, the stream and query handlers, and the mapping of error codes
  to HTTP statuses.

  A handler takes the decoded request (\<open>None\<close> when the JSON decoder fails) or the path
  value, and returns the response, the server and what was published. \<open>handleTransferSync\<close>
  waits inside \<open>SendSync\<close>: it is split there, as that is. \<open>env\<close> holds the codec and the client,
  and the direct exchanges: \<open>ae_http\<close> builds, sends and reads an HTTP request, \<open>ae_udp\<close>
  resolves, sends and reads a datagram, \<open>ae_stamp i\<close> is the time the i-th message of a
  call is stamped with. The queries of the protocol index and the routes are in theory
  \<open>Api_Index\<close>.
\<close>

section \<open>Routes\<close>

type_synonym RouteMode = string

definition RouteModeBroker :: RouteMode where [go_consts]: "RouteModeBroker = ''broker''"
definition RouteModeDirect :: RouteMode where [go_consts]: "RouteModeDirect = ''direct''"

definition DecideRoute :: "Config option \<Rightarrow> DdMessage option \<Rightarrow> RouteMode" where
  "DecideRoute cfg mo =
    (case mo of
       None \<Rightarrow> RouteModeBroker
     | Some msg \<Rightarrow>
        (case cfg of
           None \<Rightarrow> RouteModeBroker
         | Some cfg \<Rightarrow>
            if h_TargetPeerId (m_Header msg) = [] then RouteModeBroker
            else if h_TargetPeerId (m_Header msg) \<noteq> pc_Id (cf_Peer cfg) then RouteModeBroker
            else if m_Protocol msg = DdProtocolHttp then
              (if bt_Enabled (bg_Http (cf_Bridges cfg)) \<and> bt_TargetUrl (bg_Http (cf_Bridges cfg)) \<noteq> []
               then RouteModeDirect else RouteModeBroker)
            else if m_Protocol msg = DdProtocolCoap then
              (if bt_Enabled (bg_Coap (cf_Bridges cfg)) \<and> bt_TargetUrl (bg_Coap (cf_Bridges cfg)) \<noteq> []
               then RouteModeDirect else RouteModeBroker)
            else RouteModeBroker))"

section \<open>State, requests and responses\<close>

datatype apiMetric =
    ResourceMetaValidateTotal string string
  | RouteDecisionTotal string
  | ProtocolResourceQueryTotal string string
  | AsyncBatchRequestsTotal string

record Server =
  sr_cfg :: "Config option"
  sr_topics :: TopicSet
  sr_peerRegistry :: PeerRegistryService
  sr_dataService :: "DdDataService option"
  sr_aclService :: "TopicAclService option"
  sr_streamService :: StreamService
  sr_resourceCatalog :: ResourceCatalog
  sr_protocolIndex :: "ProtocolResourceIndex option"
  sr_startTime :: gotime
  sr_metrics :: "apiMetric list"

definition NewServer ::
  "gotime \<Rightarrow> Config option \<Rightarrow> TopicSet \<Rightarrow> PeerRegistryService \<Rightarrow> DdDataService option \<Rightarrow> TopicAclService option \<Rightarrow>
     StreamService \<Rightarrow> ResourceCatalog \<Rightarrow> ProtocolResourceIndex option \<Rightarrow> Server" where
  "NewServer now cfg topics peerRegistry dataService aclService streamService resourceCatalog protocolIndex =
    \<lparr>sr_cfg = cfg, sr_topics = topics, sr_peerRegistry = peerRegistry, sr_dataService = dataService,
     sr_aclService = aclService, sr_streamService = streamService, sr_resourceCatalog = resourceCatalog,
     sr_protocolIndex = protocolIndex, sr_startTime = now, sr_metrics = []\<rparr>"

record ApiEnv =
  ae_data :: DataEnv
  ae_marshalRegister :: "DdPeerRegisterEvent \<Rightarrow> go_error + bytes"
  ae_marshalHeartbeat :: "DdPeerHeartbeatEvent \<Rightarrow> go_error + bytes"
  ae_marshalOpen :: "StreamOpenEvent \<Rightarrow> go_error + bytes"
  ae_marshalClose :: "StreamCloseEvent \<Rightarrow> go_error + bytes"
  ae_http :: "httpRequest \<Rightarrow> go_error + bytes"
  ae_urlHost :: "string \<Rightarrow> string"
  ae_udp :: "string \<Rightarrow> bytes \<Rightarrow> go_error + bytes"
  ae_stamp :: "nat \<Rightarrow> string"
  ae_nanos :: "64 word"

record TransferReq =
  tq_Resource :: string
  tq_Protocol :: string
  tq_SourcePeerId :: string
  tq_TargetPeerId :: string
  tq_TimeoutMs :: int
  tq_TraceId :: string
  tq_Headers :: "(string, string) gomap"
  tq_ProtocolMeta :: "(string, (string, string) gomap) gomap"
  tq_Payload :: bytes

record itemResult =
  ir_Index :: nat
  ir_RequestID :: string
  ir_Resource :: string
  ir_RouteMode :: RouteMode
  ir_Status :: string
  ir_Error :: string

datatype apiBody =
    JError string
  | JDdError DdError
  | JPeerStatus string string
  | JPeer DdPeerInfo
  | JPeers "DdPeerInfo list"
  | JResponse bytes RouteMode
  | JPublished string RouteMode
  | JBatch nat nat nat string "itemResult list"
  | JRecord TransferRecord
  | JStatus string
  | JSessions "StreamSession list"
  | JProviders string "DdPeerInfo list"
  | JResources "string list"
  | JSchema string ResourceMetaSchema
  | JMetrics nat nat nat
  | JResourceItems string "ResourceItem list" nat
  | JTopicItems string "MqttTopicItem list" nat
  | JHealth string duration

record ApiResponse =
  ap_status :: int
  ap_body :: apiBody

definition writeJSON :: "int \<Rightarrow> apiBody \<Rightarrow> ApiResponse" where
  "writeJSON status v = \<lparr>ap_status = status, ap_body = v\<rparr>"

definition errorToHTTPStatus :: "DdErrorCode \<Rightarrow> int" where
  "errorToHTTPStatus code =
    (if code = ErrInvalidEnvelope \<or> code = ErrDuplicateRequest then 400
     else if code = ErrUnauthorizedPeer \<or> code = ErrAclDenied then 403
     else if code = ErrRouteNotFound \<or> code = ErrPeerNotFound \<or> code = ErrStreamNotFound then 404
     else if code = ErrSyncTimeout then 504
     else if code = ErrInternal \<or> code = ErrInvalidConfig then 500
     else 500)"

definition writeError :: "DdError \<Rightarrow> ApiResponse" where
  "writeError err = writeJSON (errorToHTTPStatus (e_Code err)) (JDdError err)"

text \<open>The branch on \<open>err.(*model.DdError)\<close>.\<close>

definition sendError :: "go_error \<Rightarrow> ApiResponse" where
  "sendError err = (case err of DdErr e \<Rightarrow> writeError e | PlainErr t \<Rightarrow> writeJSON 500 (JError t))"

definition srvCount :: "apiMetric \<Rightarrow> Server \<Rightarrow> Server" where
  "srvCount m s = s\<lparr>sr_metrics := sr_metrics s @ [m]\<rparr>"

section \<open>Peers\<close>

record PeerRegisterReq =
  pq_Id :: string
  pq_Name :: string
  pq_Role :: string
  pq_Resources :: "string list"
  pq_Capabilities :: "string list"
  pq_ResourceSchemas :: "(string, ResourceMetaSchema) gomap"

definition peerOfRequest :: "PeerRegisterReq \<Rightarrow> DdPeerInfo" where
  "peerOfRequest req = \<lparr>p_Id = pq_Id req, p_Name = pq_Name req, p_Role = pq_Role req, p_Key = [],
     p_Secret = [], p_Status = [], p_Resources = pq_Resources req, p_Capabilities = pq_Capabilities req,
     p_ResourceSchemas = pq_ResourceSchemas req, p_Tags = [], p_LastHeartbeatAt = 0, p_CreatedAt = 0,
     p_UpdatedAt = 0\<rparr>"

text \<open>The uptime is written in the text form of a duration; the body keeps the duration.\<close>

definition handleHealth :: "gotime \<Rightarrow> Server \<Rightarrow> ApiResponse" where
  "handleHealth now s = writeJSON 200 (JHealth ''ok'' (time_sub now (sr_startTime s)))"

definition handlePeerRegister ::
  "ApiEnv \<Rightarrow> gotime \<Rightarrow> Server \<Rightarrow> PeerRegisterReq option \<Rightarrow> ApiResponse \<times> Server \<times> outbox" where
  "handlePeerRegister env now s ro =
    (case ro of
       None \<Rightarrow> (writeJSON 400 (JError ''invalid body''), s, [])
     | Some req \<Rightarrow>
        if pq_Id req = [] then (writeJSON 400 (JError ''id is required''), s, [])
        else (case RegisterPeer (ae_marshalRegister env) (en_publish (ae_data env)) now
                 (sr_peerRegistry s) (peerOfRequest req) of
            (Some err, reg, out) \<Rightarrow> (writeJSON 500 (JError (error_text err)), s\<lparr>sr_peerRegistry := reg\<rparr>, out)
          | (None, reg, out) \<Rightarrow>
             (writeJSON 202 (JPeerStatus (pq_Id req) PeerStatusRegistering),
              s\<lparr>sr_peerRegistry := reg,
                sr_resourceCatalog := OnPeerRegistered (sr_resourceCatalog s) (peerOfRequest req)\<rparr>, out)))"

definition handlePeerHeartbeat ::
  "ApiEnv \<Rightarrow> gotime \<Rightarrow> Server \<Rightarrow> string \<Rightarrow> ApiResponse \<times> Server \<times> outbox" where
  "handlePeerHeartbeat env now s peerID =
    (if peerID = [] then (writeJSON 400 (JError ''id is required''), s, [])
     else (case HeartbeatPeer (ae_marshalHeartbeat env) (en_publish (ae_data env)) now (sr_peerRegistry s) peerID of
         (Some err, out) \<Rightarrow> (writeJSON 500 (JError (error_text err)), s, out)
       | (None, out) \<Rightarrow> (writeJSON 200 (JPeerStatus peerID ''ok''), s, out)))"

definition handlePeerUnregister ::
  "ApiEnv \<Rightarrow> gotime \<Rightarrow> Server \<Rightarrow> string \<Rightarrow> ApiResponse \<times> Server \<times> outbox" where
  "handlePeerUnregister env now s peerID =
    (if peerID = [] then (writeJSON 400 (JError ''id is required''), s, [])
     else (case UnregisterPeer (ae_marshalHeartbeat env) (en_publish (ae_data env)) now (sr_peerRegistry s) peerID of
         (Some err, reg, out) \<Rightarrow> (writeJSON 500 (JError (error_text err)), s\<lparr>sr_peerRegistry := reg\<rparr>, out)
       | (None, reg, out) \<Rightarrow>
           (writeJSON 200 (JPeerStatus peerID ''unregistered''), s\<lparr>sr_peerRegistry := reg\<rparr>, out)))"

definition handlePeerGet :: "Server \<Rightarrow> string \<Rightarrow> ApiResponse" where
  "handlePeerGet s peerID =
    (if peerID = [] then writeJSON 400 (JError ''id is required'')
     else (case Get (pr_store (sr_peerRegistry s)) peerID of
         None \<Rightarrow> writeJSON 404 (JError ''peer not found'')
       | Some peer \<Rightarrow> writeJSON 200 (JPeer peer)))"

definition handlePeersQuery :: "Server \<Rightarrow> gotime \<Rightarrow> string \<Rightarrow> string \<Rightarrow> string \<Rightarrow> ApiResponse" where
  "handlePeersQuery s now resource role status =
     writeJSON 200 (JPeers (filter (\<lambda>p. \<not> (role \<noteq> [] \<and> p_Role p \<noteq> role) \<and> \<not> (status \<noteq> [] \<and> p_Status p \<noteq> status))
       (GetPeers (sr_peerRegistry s) now resource)))"

section \<open>The check against the resource schema\<close>

definition hasMetaField :: "DdMessage \<Rightarrow> string \<Rightarrow> bool" where
  "hasMetaField msg field =
    (let h = m_Header msg in
     if field = ''request_id'' then h_RequestId h \<noteq> []
     else if field = ''correlation_id'' then h_CorrelationId h \<noteq> []
     else if field = ''reply_to'' then h_ReplyTo h \<noteq> []
     else if field = ''source_peer_id'' then h_SourcePeerId h \<noteq> []
     else if field = ''target_peer_id'' then h_TargetPeerId h \<noteq> []
     else if field = ''tenant'' then h_Tenant h \<noteq> []
     else if field = ''trace_id'' then h_TraceId h \<noteq> []
     else if field = ''idempotency_key'' then h_IdempotencyKey h \<noteq> []
     else if field = ''timeout_ms'' then h_TimeoutMs h > 0
     else False)"

definition validateConstraint ::
  "DdMessage \<Rightarrow> (string, string) gomap \<Rightarrow> string \<Rightarrow> ResourceMetaConstraint \<Rightarrow> string option" where
  "validateConstraint msg flds field c =
    (if field = ''timeout_ms''
     then let value = h_TimeoutMs (m_Header msg) in
       (case c_Min c of
          Some mn \<Rightarrow> if value < mn then Some (''constraint violation: timeout_ms < '' @ itoa mn) else
            (case c_Max c of Some mx \<Rightarrow> if value > mx
                then Some (''constraint violation: timeout_ms > '' @ itoa mx) else None
             | None \<Rightarrow> None)
        | None \<Rightarrow> (case c_Max c of Some mx \<Rightarrow> if value > mx
                then Some (''constraint violation: timeout_ms > '' @ itoa mx) else None
             | None \<Rightarrow> None))
     else if length (c_Enum c) = 0 then None
     else let value = gm_str flds field in
       if value = [] then None
       else if value \<in> set (c_Enum c) then None
       else Some (''constraint violation: '' @ field @ '' not in enum''))"

fun constraintLoop ::
  "DdMessage \<Rightarrow> (string, string) gomap \<Rightarrow> (string, ResourceMetaConstraint) gomap \<Rightarrow> string option" where
  "constraintLoop msg flds [] = None"
| "constraintLoop msg flds ((field, c) # cs) =
    (case validateConstraint msg flds field c of
       Some err \<Rightarrow> Some err | None \<Rightarrow> constraintLoop msg flds cs)"

definition validateRequestMeta ::
  "gotime \<Rightarrow> Server \<Rightarrow> string \<Rightarrow> DdMessage \<Rightarrow> string option \<times> Server \<times> DdMessage" where
  "validateRequestMeta now s resource msg =
    (case GetResourceMetaSchema (sr_peerRegistry s) now resource of
       None \<Rightarrow> (None, srvCount (ResourceMetaValidateTotal resource ''skip'') s, msg)
     | Some schema \<Rightarrow>
        (case find (\<lambda>field. \<not> hasMetaField msg field) (s_Required schema) of
           Some field \<Rightarrow> (Some (''missing required meta field: '' @ field),
             srvCount (ResourceMetaValidateTotal resource ''invalid'') s, msg)
         | None \<Rightarrow>
            (case ProtocolFields msg of (flds, msg) \<Rightarrow>
              (case find (\<lambda>key. gm_str flds key = []) (s_ProtocolMetaRequired schema) of
                 Some key \<Rightarrow> (Some (''missing required protocol_meta field: '' @ key),
                   srvCount (ResourceMetaValidateTotal resource ''invalid'') s, msg)
               | None \<Rightarrow>
                  (case constraintLoop msg flds (s_Constraints schema) of
                     Some err \<Rightarrow> (Some err, srvCount (ResourceMetaValidateTotal resource ''invalid'') s, msg)
                   | None \<Rightarrow> (None, srvCount (ResourceMetaValidateTotal resource ''ok'') s, msg))))))"

section \<open>The direct route\<close>

definition sendDirectHTTP :: "ApiEnv \<Rightarrow> Server \<Rightarrow> DdMessage \<Rightarrow> go_error + bytes" where
  "sendDirectHTTP env s msg =
    (case sr_cfg s of
       None \<Rightarrow> Inl (PlainErr ''direct http target unavailable'')
     | Some cfg \<Rightarrow>
        if \<not> bt_Enabled (bg_Http (cf_Bridges cfg)) \<or> bt_TargetUrl (bg_Http (cf_Bridges cfg)) = []
        then Inl (PlainErr ''direct http target unavailable'')
        else (case ProtocolFields msg of (flds, msg) \<Rightarrow>
          let method = orDefault (gm_str flds ''method'') ''GET'';
              path = orDefault (gm_str flds ''path'') ''/''
          in ae_http env \<lparr>rq_method = method, rq_url = bt_TargetUrl (bg_Http (cf_Bridges cfg)) @ path,
               rq_headers = filter (\<lambda>(k, v). \<not> (k = ''method'' \<or> k = ''path'')) flds,
               rq_body = m_Payload msg\<rparr>))"

text \<open>\<open>None\<close> is a panic in the parser.\<close>

definition sendDirectCoap :: "ApiEnv \<Rightarrow> Server \<Rightarrow> DdMessage \<Rightarrow> (go_error + bytes) option" where
  "sendDirectCoap env s msg =
    (case sr_cfg s of
       None \<Rightarrow> Some (Inl (PlainErr ''direct coap target unavailable''))
     | Some cfg \<Rightarrow>
        if \<not> bt_Enabled (bg_Coap (cf_Bridges cfg)) \<or> bt_TargetUrl (bg_Coap (cf_Bridges cfg)) = []
        then Some (Inl (PlainErr ''direct coap target unavailable''))
        else
          let target = bt_TargetUrl (bg_Coap (cf_Bridges cfg));
              target = (if ae_urlHost env target \<noteq> [] then ae_urlHost env target else target)
          in (case ProtocolFields msg of (flds, msg) \<Rightarrow>
            let method = orDefault (gm_str flds ''method'') ''GET'';
                path = orDefault (gm_str flds ''path'') ''/'';
                reqPkt = buildCoapPacket (ae_nanos env) method path (m_Payload msg)
            in (case ae_udp env target reqPkt of
                  Inl err \<Rightarrow> Some (Inl err)
                | Inr data \<Rightarrow> (case parseCoapPayloadBytes data of None \<Rightarrow> None | Some p \<Rightarrow> Some (Inr p)))))"

definition sendDirectSync :: "ApiEnv \<Rightarrow> Server \<Rightarrow> DdMessage \<Rightarrow> (go_error + bytes) option" where
  "sendDirectSync env s msg =
    (if m_Protocol msg = DdProtocolHttp then Some (sendDirectHTTP env s msg)
     else if m_Protocol msg = DdProtocolCoap then sendDirectCoap env s msg
     else Some (Inl (PlainErr (''direct route unsupported protocol: '' @ m_Protocol msg))))"

definition sendDirectAsync :: "ApiEnv \<Rightarrow> Server \<Rightarrow> DdMessage \<Rightarrow> go_error option option" where
  "sendDirectAsync env s msg =
    (if m_Protocol msg = DdProtocolHttp
     then Some (case sendDirectHTTP env s msg of Inl err \<Rightarrow> Some err | Inr body \<Rightarrow> None)
     else if m_Protocol msg = DdProtocolCoap
     then (case sendDirectCoap env s msg of None \<Rightarrow> None
       | Some r \<Rightarrow> Some (case r of Inl err \<Rightarrow> Some err | Inr body \<Rightarrow> None))
     else Some (Some (PlainErr (''direct route unsupported protocol: '' @ m_Protocol msg))))"

section \<open>Transfers\<close>

definition syncMessage :: "ApiEnv \<Rightarrow> Server \<Rightarrow> string \<Rightarrow> TransferReq \<Rightarrow> DdMessage" where
  "syncMessage env s xTraceId req =
    (let msg = zeroMessage\<lparr>m_Protocol := tq_Protocol req, m_Resource := tq_Resource req,
           m_Header := zeroHeader\<lparr>h_RequestId := ''req-'' @ ae_stamp env 0,
             h_SourcePeerId := tq_SourcePeerId req, h_TargetPeerId := tq_TargetPeerId req,
             h_TimeoutMs := tq_TimeoutMs req, h_TraceId := tq_TraceId req\<rparr>,
           m_Headers := tq_Headers req, m_ProtocolMeta := tq_ProtocolMeta req, m_Payload := tq_Payload req\<rparr>;
         msg = (if h_TraceId (m_Header msg) = []
           then msg\<lparr>m_Header := (m_Header msg)\<lparr>h_TraceId := xTraceId\<rparr>\<rparr> else msg);
         msg = Normalize msg
     in if h_ReplyTo (m_Header msg) = []
        then msg\<lparr>m_Header := (m_Header msg)\<lparr>h_ReplyTo :=
          TransferResponseByRequest (sr_topics s) (h_RequestId (m_Header msg))\<rparr>\<rparr> else msg)"

text \<open>The end of the handler, once \<open>SendSync\<close> has returned.\<close>

definition handleTransferSync_end :: "RouteMode \<Rightarrow> go_error + DdMessage \<Rightarrow> ApiResponse" where
  "handleTransferSync_end routeMode r =
    (case r of Inl err \<Rightarrow> sendError err | Inr resp \<Rightarrow> writeJSON 200 (JResponse (m_Payload resp) routeMode))"

definition syncBroker ::
  "ApiEnv \<Rightarrow> gotime \<Rightarrow> Server \<Rightarrow> string \<Rightarrow> DdMessage \<Rightarrow> ApiResponse option \<times> Server \<times> DdMessage \<times> outbox" where
  "syncBroker env now s resource msg =
    (let s = srvCount (RouteDecisionTotal RouteModeBroker) s in
     case sr_dataService s of
       None \<Rightarrow> (Some (sendError (NewDdError ErrInternal ''data service is unavailable'')), s, msg, [])
     | Some ds \<Rightarrow>
        (case SendSync_begin (ae_data env) now ds (TransferRequest (sr_topics s) resource) (Some msg) of
           (r, ds, msg, out) \<Rightarrow>
             (map_option (handleTransferSync_end RouteModeBroker) r, s\<lparr>sr_dataService := Some ds\<rparr>, msg, out)))"

definition handleTransferSync ::
  "ApiEnv \<Rightarrow> gotime \<Rightarrow> Server \<Rightarrow> string \<Rightarrow> TransferReq option \<Rightarrow>
     (ApiResponse option \<times> Server \<times> DdMessage \<times> outbox) option" where
  "handleTransferSync env now s xTraceId ro =
    (case ro of
       None \<Rightarrow> Some (Some (writeJSON 400 (JError ''invalid body'')), s, zeroMessage, [])
     | Some req \<Rightarrow>
        if tq_Resource req = [] then Some (Some (writeJSON 400 (JError ''resource is required'')), s, zeroMessage, [])
        else (case validateRequestMeta now s (tq_Resource req) (syncMessage env s xTraceId req) of
            (Some err, s, msg) \<Rightarrow> Some (Some (writeJSON 400 (JError err)), s, msg, [])
          | (None, s, msg) \<Rightarrow>
             if DecideRoute (sr_cfg s) (Some msg) = RouteModeDirect
             then (case sendDirectSync env s msg of
                 None \<Rightarrow> None
               | Some (Inr body) \<Rightarrow> Some (Some (writeJSON 200 (JResponse body RouteModeDirect)),
                   srvCount (RouteDecisionTotal RouteModeDirect) s, msg, [])
               | Some (Inl err) \<Rightarrow> Some (syncBroker env now s (tq_Resource req) msg))
             else Some (syncBroker env now s (tq_Resource req) msg)))"

definition newAsyncMessage :: "ApiEnv \<Rightarrow> nat \<Rightarrow> TransferReq \<Rightarrow> DdMessage" where
  "newAsyncMessage env i req = zeroMessage\<lparr>m_Protocol := tq_Protocol req, m_Resource := tq_Resource req,
     m_Header := zeroHeader\<lparr>h_RequestId := ''async-'' @ ae_stamp env i, h_SourcePeerId := tq_SourcePeerId req,
       h_TargetPeerId := tq_TargetPeerId req, h_TraceId := tq_TraceId req\<rparr>,
     m_Headers := tq_Headers req, m_ProtocolMeta := tq_ProtocolMeta req, m_Payload := tq_Payload req\<rparr>"

definition asyncMessage :: "ApiEnv \<Rightarrow> nat \<Rightarrow> string \<Rightarrow> TransferReq \<Rightarrow> DdMessage" where
  "asyncMessage env i xTraceId req =
    (let msg = newAsyncMessage env i req;
         msg = (if h_TraceId (m_Header msg) = []
           then msg\<lparr>m_Header := (m_Header msg)\<lparr>h_TraceId := xTraceId\<rparr>\<rparr> else msg)
     in Normalize msg)"

definition asyncBroker ::
  "ApiEnv \<Rightarrow> gotime \<Rightarrow> Server \<Rightarrow> string \<Rightarrow> DdMessage \<Rightarrow> ApiResponse \<times> Server \<times> outbox" where
  "asyncBroker env now s resource msg =
    (let s = srvCount (RouteDecisionTotal RouteModeBroker) s in
     case sr_dataService s of
       None \<Rightarrow> (sendError (NewDdError ErrInternal ''data service is unavailable''), s, [])
     | Some ds \<Rightarrow>
        (case SendAsync (ae_data env) now ds (EventPublish (sr_topics s) resource) (Some msg) of
           (Some err, ds, out) \<Rightarrow> (sendError err, s\<lparr>sr_dataService := Some ds\<rparr>, out)
         | (None, ds, out) \<Rightarrow>
             (writeJSON 202 (JPublished resource RouteModeBroker), s\<lparr>sr_dataService := Some ds\<rparr>, out)))"

definition handleTransferAsync ::
  "ApiEnv \<Rightarrow> gotime \<Rightarrow> Server \<Rightarrow> string \<Rightarrow> TransferReq option \<Rightarrow> (ApiResponse \<times> Server \<times> outbox) option" where
  "handleTransferAsync env now s xTraceId ro =
    (case ro of
       None \<Rightarrow> Some (writeJSON 400 (JError ''invalid body''), s, [])
     | Some req \<Rightarrow>
        if tq_Resource req = [] then Some (writeJSON 400 (JError ''resource is required''), s, [])
        else (case validateRequestMeta now s (tq_Resource req) (asyncMessage env 0 xTraceId req) of
            (Some err, s, msg) \<Rightarrow> Some (writeJSON 400 (JError err), s, [])
          | (None, s, msg) \<Rightarrow>
             if DecideRoute (sr_cfg s) (Some msg) = RouteModeDirect
             then (case sendDirectAsync env s msg of
                 None \<Rightarrow> None
               | Some None \<Rightarrow> Some (writeJSON 202 (JPublished (tq_Resource req) RouteModeDirect),
                   srvCount (RouteDecisionTotal RouteModeDirect) s, [])
               | Some (Some err) \<Rightarrow> Some (asyncBroker env now s (tq_Resource req) msg))
             else Some (asyncBroker env now s (tq_Resource req) msg)))"

text \<open>One item of a batch: whether it is counted as accepted, and its result. The broker is used for
  every item that is not delivered directly.\<close>

definition batchSend ::
  "ApiEnv \<Rightarrow> gotime \<Rightarrow> nat \<Rightarrow> TransferReq \<Rightarrow> DdMessage \<Rightarrow> Server \<Rightarrow> DdDataService \<Rightarrow>
     (bool \<times> itemResult) \<times> Server \<times> DdDataService \<times> outbox" where
  "batchSend env now i item msg s ds =
    (let res = \<lparr>ir_Index = i, ir_RequestID = h_RequestId (m_Header msg), ir_Resource = tq_Resource item,
           ir_RouteMode = RouteModeBroker, ir_Status = ''published'', ir_Error = []\<rparr>
     in case SendAsync (ae_data env) now ds (EventPublish (sr_topics s) (tq_Resource item)) (Some msg) of
          (Some err, ds, out) \<Rightarrow> ((False, res\<lparr>ir_Status := ''failed'', ir_Error := error_text err\<rparr>), s, ds, out)
        | (None, ds, out) \<Rightarrow> ((True, res), s, ds, out))"

definition batchItem ::
  "ApiEnv \<Rightarrow> gotime \<Rightarrow> string \<Rightarrow> nat \<Rightarrow> TransferReq \<Rightarrow> Server \<Rightarrow> DdDataService \<Rightarrow>
     ((bool \<times> itemResult) \<times> Server \<times> DdDataService \<times> outbox) option" where
  "batchItem env now xTraceId i item s ds =
    (if tq_Resource item = []
     then Some ((False, \<lparr>ir_Index = i, ir_RequestID = [], ir_Resource = tq_Resource item, ir_RouteMode = [],
            ir_Status = ''failed'', ir_Error = ''resource is required''\<rparr>), s, ds, [])
     else (case validateRequestMeta now s (tq_Resource item) (asyncMessage env i xTraceId item) of
         (Some err, s, msg) \<Rightarrow>
           Some ((False, \<lparr>ir_Index = i, ir_RequestID = h_RequestId (m_Header msg), ir_Resource = tq_Resource item,
              ir_RouteMode = [], ir_Status = ''failed'', ir_Error = err\<rparr>), s, ds, [])
       | (None, s, msg) \<Rightarrow>
          let routeMode = DecideRoute (sr_cfg s) (Some msg);
              s = srvCount (RouteDecisionTotal routeMode) s
          in if routeMode = RouteModeDirect
             then (case sendDirectAsync env s msg of
                 None \<Rightarrow> None
               | Some None \<Rightarrow>
                   Some ((True, \<lparr>ir_Index = i, ir_RequestID = h_RequestId (m_Header msg), ir_Resource = tq_Resource item,
                      ir_RouteMode = RouteModeDirect, ir_Status = ''published'', ir_Error = []\<rparr>), s, ds, [])
               | Some (Some err) \<Rightarrow> Some (batchSend env now i item msg s ds))
             else Some (batchSend env now i item msg s ds)))"

fun batchLoop ::
  "ApiEnv \<Rightarrow> gotime \<Rightarrow> string \<Rightarrow> nat \<Rightarrow> TransferReq list \<Rightarrow> nat \<times> nat \<times> itemResult list \<Rightarrow> Server \<Rightarrow>
     DdDataService \<Rightarrow> ((nat \<times> nat \<times> itemResult list) \<times> Server \<times> DdDataService \<times> outbox) option" where
  "batchLoop env now xTraceId i [] acc s ds = Some (acc, s, ds, [])"
| "batchLoop env now xTraceId i (item # items) (accepted, failed, results) s ds =
    (case batchItem env now xTraceId i item s ds of
       None \<Rightarrow> None
     | Some ((ok, r), s, ds, out) \<Rightarrow>
        (case batchLoop env now xTraceId (i + 1) items
            (if ok then accepted + 1 else accepted, if ok then failed else failed + 1, results @ [r]) s ds of
           None \<Rightarrow> None
         | Some (acc, s, ds, out') \<Rightarrow> Some (acc, s, ds, out @ out')))"

definition handleTransferAsyncBatch ::
  "ApiEnv \<Rightarrow> gotime \<Rightarrow> Server \<Rightarrow> string \<Rightarrow> TransferReq list option \<Rightarrow> (ApiResponse \<times> Server \<times> outbox) option" where
  "handleTransferAsyncBatch env now s xTraceId ro =
    (case ro of
       None \<Rightarrow> Some (writeJSON 400 (JError ''invalid body''), s, [])
     | Some items \<Rightarrow>
        if length items = 0 then Some (writeJSON 400 (JError ''items is required''), s, [])
        else (case sr_dataService s of
            None \<Rightarrow> Some (sendError (NewDdError ErrInternal ''data service is unavailable''), s, [])
          | Some ds \<Rightarrow>
             (case batchLoop env now xTraceId 0 items (0, 0, []) s ds of
                None \<Rightarrow> None
              | Some ((accepted, failed, results), s, ds, out) \<Rightarrow>
                 let (status, code) = (if accepted = 0 then (''error'', 400)
                       else if failed > 0 then (''partial'', 202) else (''ok'', 202))
                 in Some (writeJSON code (JBatch (length items) accepted failed status results),
                      srvCount (AsyncBatchRequestsTotal status) (s\<lparr>sr_dataService := Some ds\<rparr>), out))))"

section \<open>Streams and queries\<close>

definition api_handleStreamOpen ::
  "ApiEnv \<Rightarrow> Server \<Rightarrow> StreamOpenEvent option \<Rightarrow> ApiResponse \<times> outbox" where
  "api_handleStreamOpen env s ro =
    (case ro of
       None \<Rightarrow> (writeJSON 400 (JError ''invalid body''), [])
     | Some req \<Rightarrow>
        if so_Resource req = [] then (writeJSON 400 (JError ''resource is required''), [])
        else (case OpenStream (ae_marshalOpen env) (en_publish (ae_data env)) (ae_stamp env 0) (sr_streamService s)
                 (req\<lparr>so_StreamId := []\<rparr>) of
            (Some err, out) \<Rightarrow> (writeJSON 500 (JError (error_text err)), out)
          | (None, out) \<Rightarrow> (writeJSON 202 (JStatus ''stream open requested''), out)))"

definition api_handleStreamClose ::
  "ApiEnv \<Rightarrow> Server \<Rightarrow> StreamCloseEvent option \<Rightarrow> ApiResponse \<times> outbox" where
  "api_handleStreamClose env s ro =
    (case ro of
       None \<Rightarrow> (writeJSON 400 (JError ''invalid body''), [])
     | Some req \<Rightarrow>
        if sc_StreamId req = [] then (writeJSON 400 (JError ''stream_id is required''), [])
        else (case CloseStream (ae_marshalClose env) (en_publish (ae_data env)) (sr_streamService s)
                 (sc_StreamId req) (sc_Reason req) of
            (Some err, out) \<Rightarrow> (writeJSON 500 (JError (error_text err)), out)
          | (None, out) \<Rightarrow> (writeJSON 200 (JStatus ''stream close requested''), out)))"

definition handleStreamsList :: "Server \<Rightarrow> ApiResponse" where
  "handleStreamsList s = writeJSON 200 (JSessions (ListSessions (sr_streamService s)))"

definition handleTransferStatus :: "DdDataService \<Rightarrow> string \<Rightarrow> ApiResponse" where
  "handleTransferStatus ds requestId =
    (if requestId = [] then writeJSON 400 (JError ''requestId is required'')
     else (case GetTransferStatus ds requestId of
         None \<Rightarrow> writeJSON 404 (JError ''transfer not found'')
       | Some rec \<Rightarrow> writeJSON 200 (JRecord rec)))"

definition handleResourceProviders :: "Server \<Rightarrow> gotime \<Rightarrow> string \<Rightarrow> ApiResponse" where
  "handleResourceProviders s now resource =
    (if resource = [] then writeJSON 400 (JError ''resource is required'')
     else let providers = GetProviders (sr_resourceCatalog s) resource;
              peers = GetPeers (sr_peerRegistry s) now resource
          in writeJSON 200 (JProviders resource (filter (\<lambda>p. p_Id p \<in> set providers) peers)))"

definition handleResourcesList :: "Server \<Rightarrow> ApiResponse" where
  "handleResourcesList s = writeJSON 200 (JResources (ListResources (sr_resourceCatalog s)))"

definition handleResourceMetaSchema :: "Server \<Rightarrow> gotime \<Rightarrow> string \<Rightarrow> ApiResponse" where
  "handleResourceMetaSchema s now resource =
    (if resource = [] then writeJSON 400 (JError ''resource is required'')
     else (case GetResourceMetaSchema (sr_peerRegistry s) now resource of
         None \<Rightarrow> writeJSON 404 (JError ''resource meta schema not found'')
       | Some schema \<Rightarrow> writeJSON 200 (JSchema resource schema)))"

definition handleMetrics :: "Server \<Rightarrow> DdDataService \<Rightarrow> ApiResponse" where
  "handleMetrics s ds =
    (let peers = List (pr_store (sr_peerRegistry s)) in
     writeJSON 200 (JMetrics
       (length (filter (\<lambda>p. p_Status p = PeerStatusActive \<or> p_Status p = PeerStatusRegistering) peers))
       (length (filter (\<lambda>p. p_Status p = PeerStatusStale) peers)) (PendingRequestCount ds)))"

section \<open>Lemmas\<close>

text \<open>What a constraint asks of a message, for the timeout and for a protocol field.\<close>

definition constraint_ok ::
  "DdMessage \<Rightarrow> (string, string) gomap \<Rightarrow> string \<Rightarrow> ResourceMetaConstraint \<Rightarrow> bool" where
  "constraint_ok msg flds field c \<longleftrightarrow>
    (if field = ''timeout_ms''
     then (\<forall>mn. c_Min c = Some mn \<longrightarrow> mn \<le> h_TimeoutMs (m_Header msg)) \<and>
          (\<forall>mx. c_Max c = Some mx \<longrightarrow> h_TimeoutMs (m_Header msg) \<le> mx)
     else c_Enum c = [] \<or> gm_str flds field = [] \<or> gm_str flds field \<in> set (c_Enum c))"

lemma validateConstraint_iff: "validateConstraint msg flds field c = None \<longleftrightarrow> constraint_ok msg flds field c"
  by (auto simp: validateConstraint_def constraint_ok_def Let_def split: option.splits)

lemma constraintLoop_iff:
  "constraintLoop msg flds cs = None \<longleftrightarrow> (\<forall>(f, c) \<in> set cs. constraint_ok msg flds f c)"
  by (induction cs) (auto simp: validateConstraint_iff split: option.splits)

lemma sendDirectCoap_total: "sendDirectCoap env s msg \<noteq> None"
proof -
  have [simp]: "parseCoapPayloadBytes d \<noteq> None" for d
    using api.no_panic_suffix [of d] by auto
  show ?thesis
    by (simp add: sendDirectCoap_def Let_def split: option.split sum.split prod.split)
qed

lemma sendDirect_total: "sendDirectSync env s msg \<noteq> None" "sendDirectAsync env s msg \<noteq> None"
  using sendDirectCoap_total [of env s msg] by (auto simp: sendDirectSync_def sendDirectAsync_def split: option.split)

text \<open>A peer that leaves through the API stays in the resource catalog.\<close>

lemma unregister_keeps_catalog:
  "sr_resourceCatalog (fst (snd (handlePeerUnregister env now s peerID))) = sr_resourceCatalog s"
  by (auto simp: handlePeerUnregister_def split: prod.split option.split)

lemma validateRequestMeta_server:
  "validateRequestMeta now s resource msg = (e, s', msg') \<Longrightarrow>
     sr_cfg s' = sr_cfg s \<and> sr_dataService s' = sr_dataService s \<and> sr_topics s' = sr_topics s"
  by (auto simp: validateRequestMeta_def srvCount_def split: option.splits prod.splits)

lemma validateRequestMeta_data:
  "validateRequestMeta now (s\<lparr>sr_dataService := d\<rparr>) resource msg =
     (case validateRequestMeta now s resource msg of (e, s', msg') \<Rightarrow> (e, s'\<lparr>sr_dataService := d\<rparr>, msg'))"
  by (simp add: validateRequestMeta_def srvCount_def split: option.split prod.split)

lemma sendDirect_data:
  "sendDirectHTTP env (s\<lparr>sr_dataService := d\<rparr>) msg = sendDirectHTTP env s msg"
  "sendDirectCoap env (s\<lparr>sr_dataService := d\<rparr>) msg = sendDirectCoap env s msg"
  "sendDirectSync env (s\<lparr>sr_dataService := d\<rparr>) msg = sendDirectSync env s msg"
  by (simp_all add: sendDirectHTTP_def sendDirectCoap_def sendDirectSync_def)

lemma syncMessage_data: "syncMessage env (s\<lparr>sr_dataService := d\<rparr>) x req = syncMessage env s x req"
proof -
  have t: "sr_topics (s\<lparr>sr_dataService := d\<rparr>) = sr_topics s" by simp
  show ?thesis unfolding syncMessage_def t ..
qed

text \<open>What the items of a batch report and publish.\<close>

lemma SendAsync_out:
  assumes "\<forall>t d. en_publish env t d = None" "SendAsync env now s topic mo = (e, s', out)"
  shows "map fst out = (if e = None then [topic] else [])"
  using assms by (auto simp: SendAsync_def Let_def split: option.splits prod.splits sum.splits)

definition brokered :: "itemResult \<Rightarrow> bool" where
  "brokered r \<longleftrightarrow> ir_Status r = ''published'' \<and> ir_RouteMode r = RouteModeBroker"

definition reported :: "Server \<Rightarrow> nat \<Rightarrow> TransferReq \<Rightarrow> (bool \<times> itemResult) \<times> Server \<times> DdDataService \<times> outbox \<Rightarrow> bool" where
  "reported s i item = (\<lambda>((ok, r), s', ds', out).
     ir_Index r = i \<and> ir_Resource r = tq_Resource item \<and> ir_Status r = (if ok then ''published'' else ''failed'') \<and>
     sr_topics s' = sr_topics s \<and>
     map fst out = map (\<lambda>r. EventPublish (sr_topics s) (ir_Resource r)) (filter brokered [r]))"

lemma batchSend_spec:
  assumes "\<forall>t d. en_publish (ae_data env) t d = None"
  shows "reported s i item (batchSend env now i item msg s ds)"
proof -
  obtain e ds' out where send: "SendAsync (ae_data env) now ds (EventPublish (sr_topics s) (tq_Resource item)) (Some msg) =
      (e, ds', out)" by (cases "SendAsync (ae_data env) now ds (EventPublish (sr_topics s) (tq_Resource item)) (Some msg)")
  from SendAsync_out [OF assms this] show ?thesis
    by (cases e) (simp_all add: send batchSend_def reported_def brokered_def)
qed

lemma batchItem_spec:
  assumes "\<forall>t d. en_publish (ae_data env) t d = None"
  shows "\<exists>y. batchItem env now x i item s ds = Some y \<and> reported s i item y"
proof (cases "tq_Resource item = []")
  case True
  then show ?thesis by (simp add: batchItem_def reported_def brokered_def)
next
  case False
  obtain e s1 msg where v: "validateRequestMeta now s (tq_Resource item) (asyncMessage env i x item) = (e, s1, msg)"
    by (cases "validateRequestMeta now s (tq_Resource item) (asyncMessage env i x item)")
  let ?s = "srvCount (RouteDecisionTotal (DecideRoute (sr_cfg s1) (Some msg))) s1"
  have t: "sr_topics ?s = sr_topics s" "sr_topics s1 = sr_topics s"
    using validateRequestMeta_server [OF v] by (simp_all add: srvCount_def)
  have "reported s i item (batchSend env now i item msg ?s ds)"
    using batchSend_spec [OF assms, of ?s i item now msg ds] by (simp add: reported_def t)
  note broker = this
  show ?thesis
  proof (cases e)
    case (Some err)
    with False v t(2) show ?thesis by (simp add: batchItem_def reported_def brokered_def)
  next
    case None
    define mode where "mode = DecideRoute (sr_cfg s1) (Some msg)"
    define s2 where "s2 = srvCount (RouteDecisionTotal mode) s1"
    obtain d where "sendDirectAsync env s2 msg = Some d"
      using sendDirect_total(2) [of env s2 msg] by auto
    then have "batchItem env now x i item s ds = Some
        (if mode = RouteModeDirect \<and> d = None
         then ((True, \<lparr>ir_Index = i, ir_RequestID = reqId msg, ir_Resource = tq_Resource item,
           ir_RouteMode = RouteModeDirect, ir_Status = ''published'', ir_Error = []\<rparr>), s2, ds, [])
         else batchSend env now i item msg s2 ds)"
      using None False v
      by (cases "mode = RouteModeDirect"; cases d) (simp_all add: batchItem_def Let_def mode_def [symmetric] s2_def)
    with t(1) broker [folded mode_def, folded s2_def] show ?thesis
      by (auto simp: mode_def [symmetric] s2_def [symmetric] reported_def brokered_def RouteModeBroker_def RouteModeDirect_def)
  qed
qed

abbreviation with_status :: "string \<Rightarrow> itemResult list \<Rightarrow> nat" where
  "with_status st rs \<equiv> length (filter (\<lambda>r. ir_Status r = st) rs)"

lemma batchLoop_spec:
  assumes "\<forall>t d. en_publish (ae_data env) t d = None"
  shows "\<exists>new s' ds' out. batchLoop env now x i items (a, f, rs) s ds =
      Some ((a + with_status ''published'' new, f + with_status ''failed'' new, rs @ new), s', ds', out) \<and>
    map ir_Index new = [i..<i + length items] \<and> map ir_Resource new = map tq_Resource items \<and>
    with_status ''published'' new + with_status ''failed'' new = length items \<and>
    map fst out = map (\<lambda>r. EventPublish (sr_topics s) (ir_Resource r)) (filter brokered new)"
proof (induction items arbitrary: i a f rs s ds)
  case (Cons item items)
  obtain ok r s1 ds1 out1 where item: "batchItem env now x i item s ds = Some ((ok, r), s1, ds1, out1)"
    "ir_Index r = i" "ir_Resource r = tq_Resource item" "ir_Status r = (if ok then ''published'' else ''failed'')"
    "sr_topics s1 = sr_topics s"
    "map fst out1 = map (\<lambda>r. EventPublish (sr_topics s) (ir_Resource r)) (filter brokered [r])"
    using batchItem_spec [OF assms, of now x i item s ds] unfolding reported_def by blast
  let ?a = "if ok then a + 1 else a" and ?f = "if ok then f else f + 1"
  obtain new s' ds' out where rest: "batchLoop env now x (i + 1) items (?a, ?f, rs @ [r]) s1 ds1 =
      Some ((?a + with_status ''published'' new, ?f + with_status ''failed'' new, (rs @ [r]) @ new), s', ds', out)"
    "map ir_Index new = [i + 1..<i + 1 + length items]" "map ir_Resource new = map tq_Resource items"
    "with_status ''published'' new + with_status ''failed'' new = length items"
    "map fst out = map (\<lambda>r. EventPublish (sr_topics s) (ir_Resource r)) (filter brokered new)"
    using Cons.IH [of "i + 1" ?a ?f "rs @ [r]" s1 ds1] item(5) by auto
  have "map ir_Index (r # new) = [i..<i + length (item # items)]"
    using item(2) rest(2) by (simp del: upt_Suc add: upt_rec [of i])
  moreover have "with_status ''published'' (r # new) + with_status ''failed'' (r # new) = length (item # items)"
    using item(4) rest(4) by simp
  moreover have "batchLoop env now x i (item # items) (a, f, rs) s ds =
      Some ((a + with_status ''published'' (r # new), f + with_status ''failed'' (r # new), rs @ r # new),
        s', ds', out1 @ out)"
    using item(1,4) rest(1) by simp
  moreover have "map fst (out1 @ out) = map (\<lambda>r. EventPublish (sr_topics s) (ir_Resource r)) (filter brokered (r # new))"
    using item(6) rest(5) by simp
  moreover have "map ir_Resource (r # new) = map tq_Resource (item # items)"
    using item(3) rest(3) by simp
  ultimately show ?case by blast
qed simp

section \<open>Properties\<close>

text \<open>
  C29: where the visible providers of a resource publish a schema, a transfer request passes
  the check exactly when it carries every required header field and every required
  protocol field and meets every constraint; without a schema every request passes.
\<close>

theorem request_meta_exact:
  "fst (validateRequestMeta now s resource msg) = None \<longleftrightarrow>
    (case GetResourceMetaSchema (sr_peerRegistry s) now resource of
       None \<Rightarrow> True
     | Some schema \<Rightarrow>
        (\<forall>f \<in> set (s_Required schema). hasMetaField msg f) \<and>
        (\<forall>k \<in> set (s_ProtocolMetaRequired schema). gm_str (fst (ProtocolFields msg)) k \<noteq> []) \<and>
        (\<forall>(f, c) \<in> set (s_Constraints schema).
           constraint_ok (Normalize msg) (fst (ProtocolFields msg)) f c))"
proof (cases "GetResourceMetaSchema (sr_peerRegistry s) now resource")
  case (Some schema)
  let ?r = "find (\<lambda>field. \<not> hasMetaField msg field) (s_Required schema)"
  let ?p = "find (\<lambda>key. gm_str (effectiveFields msg) key = []) (s_ProtocolMetaRequired schema)"
  let ?c = "constraintLoop (Normalize msg) (effectiveFields msg) (s_Constraints schema)"
  have "fst (validateRequestMeta now s resource msg) = None \<longleftrightarrow> ?r = None \<and> ?p = None \<and> ?c = None"
    by (cases ?r; cases ?p; cases ?c) (simp_all add: Some validateRequestMeta_def ProtocolFields_eq)
  then show ?thesis
    by (auto simp: Some ProtocolFields_eq find_None_iff constraintLoop_iff)
qed (simp add: validateRequestMeta_def)

definition schemaServer :: Server where
  "schemaServer = NewServer 0 None (NewDefaultTopicSet ''t'')
     (NewPeerRegistryService (NewDefaultTopicSet ''t'') 1000
       [WithRegistryStore (Set NewMemoryStore ''p'' ((demoPeer ''p'')\<lparr>p_Status := PeerStatusActive,
          p_ResourceSchemas := [(''r'', emptySchema\<lparr>s_Required := [''tenant'']\<rparr>)]\<rparr>))])
     None None (NewStreamService (NewDefaultTopicSet ''t'')) NewResourceCatalog None"

theorem request_meta_exact_witness:
  "\<not> fst (validateRequestMeta 5 schemaServer ''r'' pingMsg) = None \<and>
   fst (validateRequestMeta 5 schemaServer ''other'' pingMsg) = None"
proof -
  have "GetResourceMetaSchema (sr_peerRegistry schemaServer) 5 ''r'' = Some (emptySchema\<lparr>s_Required := [''tenant'']\<rparr>)"
    "GetResourceMetaSchema (sr_peerRegistry schemaServer) 5 ''other'' = None" "\<not> hasMetaField pingMsg ''tenant''"
    by code_simp+
  then show ?thesis
    using request_meta_exact [of 5 schemaServer "''r''" pingMsg] request_meta_exact [of 5 schemaServer "''other''" pingMsg]
    by simp
qed

text \<open>The broker's answer to a peer that may not publish on the request topic.\<close>

lemma syncBroker_denied:
  assumes "sr_dataService s = Some d" "ds_aclService d = Some acl"
    "\<not> Authorize acl (h_SourcePeerId (m_Header (Normalize msg))) ''pub'' (TransferRequest (sr_topics s) resource)"
  shows "\<exists>resp s' msg'. syncBroker env now s resource msg = (Some resp, s', msg', []) \<and> ap_status resp = 403"
proof -
  let ?err = "ErrAclDeniedMsg (h_SourcePeerId (m_Header (Normalize msg))) ''pub'' (TransferRequest (sr_topics s) resource)"
  obtain ds' msg' where "SendSync_begin (ae_data env) now d (TransferRequest (sr_topics s) resource) (Some msg) =
      (Some (Inl ?err), ds', msg', [])"
    using send_refused [OF assms(2,3)] by blast
  moreover have "ap_status (sendError ?err) = 403"
    by (simp add: sendError_def ErrAclDeniedMsg_def NewDdError_def writeError_def writeJSON_def errorToHTTPStatus_def go_consts)
  ultimately show ?thesis
    using assms(1) by (auto simp: syncBroker_def srvCount_def handleTransferSync_end_def)
qed

lemma DecideRoute_direct_iff:
  "DecideRoute cfg (Some msg) = RouteModeDirect \<longleftrightarrow> (\<exists>c. cfg = Some c \<and> pc_Id (cf_Peer c) \<noteq> [] \<and>
     h_TargetPeerId (m_Header msg) = pc_Id (cf_Peer c) \<and>
     (m_Protocol msg = DdProtocolHttp \<and> bt_Enabled (bg_Http (cf_Bridges c)) \<and> bt_TargetUrl (bg_Http (cf_Bridges c)) \<noteq> [] \<or>
      m_Protocol msg = DdProtocolCoap \<and> bt_Enabled (bg_Coap (cf_Bridges c)) \<and> bt_TargetUrl (bg_Coap (cf_Bridges c)) \<noteq> []))"
  by (auto simp: DecideRoute_def go_consts split: option.split)

text \<open>
  C39: what becomes of a synchronous request that passed the schema check. It is routed directly exactly when it
  names this peer as its target and the bridge of its protocol, HTTP or CoAP, is enabled with a
  target. If the direct exchange then succeeds, its body is the answer, with status 200 and nothing
  published, whatever data service and access rules the server has: they are not asked. In every other
  case (another target, or a direct exchange that failed) the request goes over the broker as if there were no
  direct route, and a peer the rules do not let publish there is refused with status 403 and
  nothing published. The exchange itself never panics.
\<close>

theorem direct_route_exact:
  assumes "tq_Resource req \<noteq> []"
    "validateRequestMeta now s (tq_Resource req) (syncMessage env s xTraceId req) = (None, s1, msg)"
  shows "let s2 = s1\<lparr>sr_dataService := ds\<rparr>; broker = syncBroker env now s2 (tq_Resource req) msg;
      direct = (\<exists>cfg. sr_cfg s = Some cfg \<and> pc_Id (cf_Peer cfg) \<noteq> [] \<and> h_TargetPeerId (m_Header msg) = pc_Id (cf_Peer cfg) \<and>
        (m_Protocol msg = DdProtocolHttp \<and> bt_Enabled (bg_Http (cf_Bridges cfg)) \<and> bt_TargetUrl (bg_Http (cf_Bridges cfg)) \<noteq> [] \<or>
         m_Protocol msg = DdProtocolCoap \<and> bt_Enabled (bg_Coap (cf_Bridges cfg)) \<and> bt_TargetUrl (bg_Coap (cf_Bridges cfg)) \<noteq> []))
    in sendDirectSync env s1 msg \<noteq> None \<and>
      handleTransferSync env now (s\<lparr>sr_dataService := ds\<rparr>) xTraceId (Some req) = Some (case sendDirectSync env s1 msg of
          Some (Inr body) \<Rightarrow> if direct then (Some \<lparr>ap_status = 200, ap_body = JResponse body RouteModeDirect\<rparr>,
            srvCount (RouteDecisionTotal RouteModeDirect) s2, msg, []) else broker
        | _ \<Rightarrow> broker) \<and>
      (\<forall>d acl. ds = Some d \<and> ds_aclService d = Some acl \<and>
        \<not> Authorize acl (h_SourcePeerId (m_Header (Normalize msg))) ''pub'' (TransferRequest (sr_topics s) (tq_Resource req)) \<longrightarrow>
        (\<exists>resp s' msg'. broker = (Some resp, s', msg', []) \<and> ap_status resp = 403))"
proof -
  let ?s2 = "s1\<lparr>sr_dataService := ds\<rparr>"
  have sel: "sr_cfg s1 = sr_cfg s" "sr_topics ?s2 = sr_topics s" "sr_dataService ?s2 = ds"
    using validateRequestMeta_server [OF assms(2)] by simp_all
  obtain r where r: "sendDirectSync env s1 msg = Some r"
    using sendDirect_total(1) [of env s1 msg] by auto
  have "handleTransferSync env now (s\<lparr>sr_dataService := ds\<rparr>) xTraceId (Some req) =
      Some (case r of
          Inr body \<Rightarrow> if DecideRoute (sr_cfg s) (Some msg) = RouteModeDirect then (Some \<lparr>ap_status = 200, ap_body = JResponse body RouteModeDirect\<rparr>,
            srvCount (RouteDecisionTotal RouteModeDirect) ?s2, msg, []) else syncBroker env now ?s2 (tq_Resource req) msg
        | Inl err \<Rightarrow> syncBroker env now ?s2 (tq_Resource req) msg)"
    using assms sel(1) r
    by (simp add: handleTransferSync_def validateRequestMeta_data syncMessage_data sendDirect_data writeJSON_def split: sum.split)
  then show ?thesis
    using r sel syncBroker_denied [of ?s2 _ _ msg "tq_Resource req" env now]
    unfolding Let_def DecideRoute_direct_iff by (simp split: sum.split)
qed

definition directServer :: Server where
  "directServer = schemaServer\<lparr>sr_cfg := Some (defaultConfig\<lparr>
     cf_Peer := (cf_Peer defaultConfig)\<lparr>pc_Id := ''hub''\<rparr>,
     cf_Bridges := (cf_Bridges defaultConfig)\<lparr>bg_Http := \<lparr>bt_Enabled = True, bt_TargetUrl = ''http://h''\<rparr>\<rparr>\<rparr>)\<rparr>"

definition directReq :: TransferReq where
  "directReq = \<lparr>tq_Resource = ''x'', tq_Protocol = ''http'', tq_SourcePeerId = ''stranger'',
     tq_TargetPeerId = ''hub'', tq_TimeoutMs = 0, tq_TraceId = [], tq_Headers = [], tq_ProtocolMeta = [], tq_Payload = []\<rparr>"

definition directEnv :: ApiEnv where
  "directEnv = \<lparr>ae_data = okEnv, ae_marshalRegister = \<lambda>e. Inr [], ae_marshalHeartbeat = \<lambda>e. Inr [],
     ae_marshalOpen = \<lambda>e. Inr [], ae_marshalClose = \<lambda>e. Inr [], ae_http = \<lambda>r. Inr [9],
     ae_urlHost = \<lambda>u. [], ae_udp = \<lambda>t p. Inr [], ae_stamp = \<lambda>i. ''now'', ae_nanos = 1\<rparr>"

definition directChecked :: "string option \<times> Server \<times> DdMessage" where
  "directChecked = validateRequestMeta 5 directServer (tq_Resource directReq)
     (syncMessage directEnv directServer [] directReq)"

text \<open>The same stranger, once with an HTTP target that answers and once with one that does not.\<close>

definition failEnv :: ApiEnv where
  "failEnv = directEnv\<lparr>ae_http := \<lambda>r. Inl (PlainErr ''refused'')\<rparr>"

lemma directChecked_parts:
  "validateRequestMeta 5 directServer (tq_Resource directReq) (syncMessage directEnv directServer [] directReq) =
     (None, fst (snd directChecked), snd (snd directChecked))"
  "validateRequestMeta 5 directServer (tq_Resource directReq) (syncMessage failEnv directServer [] directReq) =
     (None, fst (snd directChecked), snd (snd directChecked))"
proof -
  have "fst directChecked = None" by code_simp
  then show v: "validateRequestMeta 5 directServer (tq_Resource directReq) (syncMessage directEnv directServer [] directReq) =
     (None, fst (snd directChecked), snd (snd directChecked))"
    unfolding directChecked_def by (metis prod.collapse)
  have "syncMessage failEnv directServer [] directReq = syncMessage directEnv directServer [] directReq"
    by (simp add: syncMessage_def failEnv_def)
  with v show "validateRequestMeta 5 directServer (tq_Resource directReq) (syncMessage failEnv directServer [] directReq) =
     (None, fst (snd directChecked), snd (snd directChecked))"
    by simp
qed

theorem direct_route_exact_witness:
  "(\<exists>s'. handleTransferSync directEnv 5 (directServer\<lparr>sr_dataService := Some closedService\<rparr>) [] (Some directReq) =
      Some (Some \<lparr>ap_status = 200, ap_body = JResponse [9] RouteModeDirect\<rparr>, s', snd (snd directChecked), [])) \<and>
   (\<exists>resp s' msg'. handleTransferSync failEnv 5 (directServer\<lparr>sr_dataService := Some closedService\<rparr>) [] (Some directReq) =
      Some (Some resp, s', msg', []) \<and> ap_status resp = 403)"
proof -
  let ?msg = "snd (snd directChecked)"
  have ev: "tq_Resource directReq \<noteq> []" "pc_Id (cf_Peer (the (sr_cfg directServer))) \<noteq> []"
    "h_TargetPeerId (m_Header ?msg) = pc_Id (cf_Peer (the (sr_cfg directServer)))"
    "m_Protocol ?msg = DdProtocolHttp \<and> bt_Enabled (bg_Http (cf_Bridges (the (sr_cfg directServer)))) \<and>
     bt_TargetUrl (bg_Http (cf_Bridges (the (sr_cfg directServer)))) \<noteq> []"
    "sendDirectSync directEnv (fst (snd directChecked)) ?msg = Some (Inr [9])"
    "sendDirectSync failEnv (fst (snd directChecked)) ?msg = Some (Inl (PlainErr ''refused''))"
    "ds_aclService closedService = Some NewTopicAclService"
    "\<not> Authorize NewTopicAclService (h_SourcePeerId (m_Header (Normalize ?msg))) ''pub''
       (TransferRequest (sr_topics directServer) (tq_Resource directReq))"
    by code_simp+
  have c: "sr_cfg directServer = Some (the (sr_cfg directServer))"
    by (simp add: directServer_def)
  let ?direct = "\<lambda>cfg. pc_Id (cf_Peer cfg) \<noteq> [] \<and> h_TargetPeerId (m_Header ?msg) = pc_Id (cf_Peer cfg) \<and>
    (m_Protocol ?msg = DdProtocolHttp \<and> bt_Enabled (bg_Http (cf_Bridges cfg)) \<and> bt_TargetUrl (bg_Http (cf_Bridges cfg)) \<noteq> [] \<or>
     m_Protocol ?msg = DdProtocolCoap \<and> bt_Enabled (bg_Coap (cf_Bridges cfg)) \<and> bt_TargetUrl (bg_Coap (cf_Bridges cfg)) \<noteq> [])"
  have "\<exists>cfg. sr_cfg directServer = Some cfg \<and> ?direct cfg" using c ev(2-4) by blast
  then have "handleTransferSync directEnv 5 (directServer\<lparr>sr_dataService := Some closedService\<rparr>) [] (Some directReq) =
      Some (Some \<lparr>ap_status = 200, ap_body = JResponse [9] RouteModeDirect\<rparr>,
        srvCount (RouteDecisionTotal RouteModeDirect) (fst (snd directChecked)\<lparr>sr_dataService := Some closedService\<rparr>), ?msg, [])"
    using direct_route_exact [OF ev(1) directChecked_parts(1), of "Some closedService", unfolded Let_def ev(5) option.case sum.case, THEN conjunct2, THEN conjunct1]
    by (simp only: if_True)
  moreover have "\<exists>resp s' msg'. handleTransferSync failEnv 5 (directServer\<lparr>sr_dataService := Some closedService\<rparr>) [] (Some directReq) =
      Some (Some resp, s', msg', []) \<and> ap_status resp = 403"
    using direct_route_exact [OF ev(1) directChecked_parts(2), of "Some closedService", unfolded Let_def ev(6) option.case sum.case, THEN conjunct2]
      ev(7,8) by auto
  ultimately show ?thesis by blast
qed

text \<open>
  C21: a batch is accounted for item by item: whatever the items, the handler returns without a panic
  and reports one result per item, in the order of the items and with their resources; the accepted
  and the failed counts are the numbers of results with that status and add up to the number
  requested; it answers 400 exactly when nothing was accepted, and says \<open>ok\<close> exactly when nothing
  failed. Where the broker takes what is published, the event topics published to are, in order, exactly those of the
  results reported as published over the broker.
\<close>

theorem batch_accounted:
  assumes "\<forall>t d. en_publish (ae_data env) t d = None" "sr_dataService s = Some ds" "items \<noteq> []"
  shows "\<exists>accepted failed status results s' out.
    handleTransferAsyncBatch env now s x (Some items) =
      Some (writeJSON (if accepted = 0 then 400 else 202)
        (JBatch (length items) accepted failed status results), s', out) \<and>
    accepted = with_status ''published'' results \<and> failed = with_status ''failed'' results \<and>
    accepted + failed = length items \<and> (status = ''ok'' \<longleftrightarrow> failed = 0) \<and>
    map ir_Index results = [0..<length items] \<and> map ir_Resource results = map tq_Resource items \<and>
    map fst out = map (\<lambda>r. EventPublish (sr_topics s) (ir_Resource r)) (filter brokered results)"
proof -
  obtain new s' ds' out where run: "batchLoop env now x 0 items (0, 0, []) s ds =
      Some ((with_status ''published'' new, with_status ''failed'' new, new), s', ds', out)"
    "map ir_Index new = [0..<length items]" "map ir_Resource new = map tq_Resource items"
    "with_status ''published'' new + with_status ''failed'' new = length items"
    "map fst out = map (\<lambda>r. EventPublish (sr_topics s) (ir_Resource r)) (filter brokered new)"
    using batchLoop_spec [OF assms(1), of now x 0 items 0 0 "[]" s ds] by auto
  from run(4) assms(3) have "with_status ''published'' new = 0 \<Longrightarrow> with_status ''failed'' new \<noteq> 0" by simp
  let ?st = "if with_status ''published'' new = 0 then ''error''
    else if with_status ''failed'' new > 0 then ''partial'' else ''ok''"
  have "\<exists>s'. handleTransferAsyncBatch env now s x (Some items) =
      Some (writeJSON (if with_status ''published'' new = 0 then 400 else 202)
        (JBatch (length items) (with_status ''published'' new) (with_status ''failed'' new) ?st new), s', out)"
    using run(1) assms(2,3) by (simp add: handleTransferAsyncBatch_def)
  moreover have "?st = ''ok'' \<longleftrightarrow> with_status ''failed'' new = 0"
    using \<open>with_status ''published'' new = 0 \<Longrightarrow> with_status ''failed'' new \<noteq> 0\<close> by auto
  ultimately show ?thesis
    using run(2-) by blast
qed

definition batchServer :: Server where
  "batchServer = directServer\<lparr>sr_dataService := Some closedService\<rparr>"

theorem batch_accounted_witness:
  "\<exists>accepted failed status results s' out.
    handleTransferAsyncBatch directEnv 7 batchServer [] (Some [directReq, directReq\<lparr>tq_Resource := []\<rparr>]) =
      Some (writeJSON (if accepted = 0 then 400 else 202) (JBatch 2 accepted failed status results), s', out) \<and>
    accepted = with_status ''published'' results \<and> failed = with_status ''failed'' results \<and>
    accepted + failed = 2 \<and> (status = ''ok'' \<longleftrightarrow> failed = 0) \<and>
    map ir_Index results = [0, 1] \<and> map ir_Resource results = [tq_Resource directReq, []] \<and>
    map fst out = map (\<lambda>r. EventPublish (sr_topics batchServer) (ir_Resource r)) (filter brokered results)"
proof -
  have "\<forall>t d. en_publish (ae_data directEnv) t d = None" "sr_dataService batchServer = Some closedService"
    by (simp_all add: directEnv_def okEnv_def batchServer_def)
  from batch_accounted [OF this, of "[directReq, directReq\<lparr>tq_Resource := []\<rparr>]" 7 "[]"] show ?thesis
    by (simp add: numeral_2_eq_2 upt_rec)
qed

end
