(* ===== verification/Api_Index.thy ===== *)
theory Api_Index
  imports Api
begin

text \<open>
  The rest of the HTTP API: the six handlers over the protocol resource index
  (\<open>api/handler.go\<close>), the route table (\<open>api/router.go\<close>) with the way \<open>http.ServeMux\<close>
  picks a handler, and the logging middleware (\<open>observability/middleware.go\<close>).

  The index holds pointers to the registry and to the catalog of the server, so a handler
  reads the server's through it (\<open>sharedIndex\<close>) and writes back the counts only.
\<close>

section \<open>The handlers of the index\<close>

definition sharedIndex :: "Server \<Rightarrow> ProtocolResourceIndex \<Rightarrow> ProtocolResourceIndex" where
  "sharedIndex s i = i\<lparr>pi_peerRegistry := sr_peerRegistry s, pi_resourceCatalog := sr_resourceCatalog s\<rparr>"

definition storeIndex :: "Server \<Rightarrow> ProtocolResourceIndex \<Rightarrow> Server" where
  "storeIndex s i = s\<lparr>sr_protocolIndex := Some i\<rparr>"

definition indexUnavailable :: ApiResponse where
  "indexUnavailable = writeJSON 503 (JError ''protocol resource index is unavailable'')"

definition handleHTTPProtocolResources :: "IndexEnv \<Rightarrow> Server \<Rightarrow> ApiResponse \<times> Server" where
  "handleHTTPProtocolResources env s =
    (case sr_protocolIndex s of
       None \<Rightarrow> (indexUnavailable, s)
     | Some i \<Rightarrow>
        let s = srvCount (ProtocolResourceQueryTotal ''http'' ''list'') s;
            (items, i) = ListHTTP env (sharedIndex s i) []
        in (writeJSON 200 (JResourceItems ''http'' items (length items)), storeIndex s i))"

definition handleHTTPProtocolResourceByName ::
  "IndexEnv \<Rightarrow> Server \<Rightarrow> string \<Rightarrow> ApiResponse \<times> Server" where
  "handleHTTPProtocolResourceByName env s resource =
    (if resource = [] then (writeJSON 400 (JError ''resource is required''), s)
     else (case sr_protocolIndex s of
       None \<Rightarrow> (indexUnavailable, s)
     | Some i \<Rightarrow>
        let s = srvCount (ProtocolResourceQueryTotal ''http'' ''detail'') s;
            (items, i) = ListHTTP env (sharedIndex s i) resource;
            s = storeIndex s i
        in if length items = 0 then (writeJSON 404 (JError ''resource not found''), s)
           else (writeJSON 200 (JResourceItems ''http'' items (length items)), s)))"

definition handleCoapProtocolResources :: "IndexEnv \<Rightarrow> Server \<Rightarrow> ApiResponse \<times> Server" where
  "handleCoapProtocolResources env s =
    (case sr_protocolIndex s of
       None \<Rightarrow> (indexUnavailable, s)
     | Some i \<Rightarrow>
        let s = srvCount (ProtocolResourceQueryTotal ''coap'' ''list'') s;
            (items, i) = ListCoap env (sharedIndex s i) []
        in (writeJSON 200 (JResourceItems ''coap'' items (length items)), storeIndex s i))"

definition handleCoapProtocolResourceByName ::
  "IndexEnv \<Rightarrow> Server \<Rightarrow> string \<Rightarrow> ApiResponse \<times> Server" where
  "handleCoapProtocolResourceByName env s resource =
    (if resource = [] then (writeJSON 400 (JError ''resource is required''), s)
     else (case sr_protocolIndex s of
       None \<Rightarrow> (indexUnavailable, s)
     | Some i \<Rightarrow>
        let s = srvCount (ProtocolResourceQueryTotal ''coap'' ''detail'') s;
            (items, i) = ListCoap env (sharedIndex s i) resource;
            s = storeIndex s i
        in if length items = 0 then (writeJSON 404 (JError ''resource not found''), s)
           else (writeJSON 200 (JResourceItems ''coap'' items (length items)), s)))"

text \<open>\<open>strconv.Atoi\<close>: an optional sign, then at least one decimal digit and nothing else,
  within 64 bits.\<close>

fun atoiDigits :: "int \<Rightarrow> string \<Rightarrow> int option" where
  "atoiDigits n [] = Some n"
| "atoiDigits n (c # cs) = (if isDigit c then atoiDigits (10 * n + (of_char c - 48)) cs else None)"

definition Atoi :: "string \<Rightarrow> int option" where
  "Atoi s =
    (let neg = (s \<noteq> [] \<and> hd s = CHR ''-'');
         digits = (if s \<noteq> [] \<and> (hd s = CHR ''-'' \<or> hd s = CHR ''+'') then tl s else s)
     in if digits = [] then None
        else (case atoiDigits 0 digits of
                None \<Rightarrow> None
              | Some n \<Rightarrow> let v = (if neg then - n else n) in if in_i64 v then Some v else None))"

definition handleMqttProtocolTopics ::
  "IndexEnv \<Rightarrow> Server \<Rightarrow> string \<Rightarrow> string \<Rightarrow> string \<Rightarrow> ApiResponse \<times> Server" where
  "handleMqttProtocolTopics env s direction peerID v =
    (case sr_protocolIndex s of
       None \<Rightarrow> (indexUnavailable, s)
     | Some i \<Rightarrow>
        let s = srvCount (ProtocolResourceQueryTotal ''mqtt'' ''list'') s;
            direction = (if direction = [] then ''both'' else direction)
        in case (if v = [] then Some (-1)
                 else (case Atoi v of None \<Rightarrow> None
                       | Some n \<Rightarrow> if n \<noteq> 0 \<and> n \<noteq> 1 then None else Some n)) of
             None \<Rightarrow> (writeJSON 400 (JError ''qos must be 0 or 1''), s)
           | Some qos \<Rightarrow>
              let (items, i) = ListMqttTopics env (sharedIndex s i) direction peerID qos
              in (writeJSON 200 (JTopicItems ''mqtt'' items (length items)), storeIndex s i))"

definition handleMqttProtocolTopicByName ::
  "IndexEnv \<Rightarrow> Server \<Rightarrow> string \<Rightarrow> ApiResponse \<times> Server" where
  "handleMqttProtocolTopicByName env s name =
    (if name = [] then (writeJSON 400 (JError ''name is required''), s)
     else (case sr_protocolIndex s of
       None \<Rightarrow> (indexUnavailable, s)
     | Some i \<Rightarrow>
        let s = srvCount (ProtocolResourceQueryTotal ''mqtt'' ''detail'') s;
            (items, i) = GetMqttTopic env (sharedIndex s i) name;
            s = storeIndex s i
        in if length items = 0 then (writeJSON 404 (JError ''topic not found''), s)
           else (writeJSON 200 (JTopicItems ''mqtt'' items (length items)), s)))"

section \<open>Routes\<close>

text \<open>The handlers by name, a pattern as its method and its segments, and the table that
  \<open>registerRoutes\<close> fills.\<close>

datatype apiHandler = HHealth | HPeerRegister | HPeerHeartbeat | HPeerUnregister | HPeerGet | HPeersQuery
  | HResourceProviders | HResourceMetaSchema | HResourcesList | HHttpResources | HHttpResourceByName
  | HCoapResources | HCoapResourceByName | HMqttTopics | HMqttTopicByName | HTransferSync
  | HTransferAsync | HTransferAsyncBatch | HTransferStatus | HOpenStream | HCloseStream
  | HStreamsList | HMetrics | HPromhttp

datatype segment = Lit string | Var string

type_synonym route = "string \<times> segment list \<times> apiHandler"

definition routePrefix :: "segment list" where
  "routePrefix = [Lit ''dd'', Lit ''api'', Lit ''v1'']"

definition registerRoutes :: "route list" where
  "registerRoutes =
    [(''GET'', routePrefix @ [Lit ''health''], HHealth),
     (''POST'', routePrefix @ [Lit ''peers'', Lit ''register''], HPeerRegister),
     (''POST'', routePrefix @ [Lit ''peers'', Var ''id'', Lit ''heartbeat''], HPeerHeartbeat),
     (''POST'', routePrefix @ [Lit ''peers'', Var ''id'', Lit ''unregister''], HPeerUnregister),
     (''GET'', routePrefix @ [Lit ''peers'', Var ''id''], HPeerGet),
     (''GET'', routePrefix @ [Lit ''peers''], HPeersQuery),
     (''GET'', routePrefix @ [Lit ''resources'', Var ''resource'', Lit ''providers''], HResourceProviders),
     (''GET'', routePrefix @ [Lit ''resources'', Var ''resource'', Lit ''meta-schema''], HResourceMetaSchema),
     (''GET'', routePrefix @ [Lit ''resources''], HResourcesList),
     (''GET'', routePrefix @ [Lit ''protocol-resources'', Lit ''http''], HHttpResources),
     (''GET'', routePrefix @ [Lit ''protocol-resources'', Lit ''http'', Var ''resource''], HHttpResourceByName),
     (''GET'', routePrefix @ [Lit ''protocol-resources'', Lit ''coap''], HCoapResources),
     (''GET'', routePrefix @ [Lit ''protocol-resources'', Lit ''coap'', Var ''resource''], HCoapResourceByName),
     (''GET'', routePrefix @ [Lit ''protocol-resources'', Lit ''mqtt'', Lit ''topics''], HMqttTopics),
     (''GET'', routePrefix @ [Lit ''protocol-resources'', Lit ''mqtt'', Lit ''topics'', Var ''name''], HMqttTopicByName),
     (''POST'', routePrefix @ [Lit ''transfer'', Lit ''sync''], HTransferSync),
     (''POST'', routePrefix @ [Lit ''transfer'', Lit ''async''], HTransferAsync),
     (''POST'', routePrefix @ [Lit ''transfer'', Lit ''async'', Lit ''batch''], HTransferAsyncBatch),
     (''GET'', routePrefix @ [Lit ''transfer'', Var ''requestId''], HTransferStatus),
     (''POST'', routePrefix @ [Lit ''transfer'', Lit ''stream'', Lit ''open''], HOpenStream),
     (''POST'', routePrefix @ [Lit ''transfer'', Lit ''stream'', Lit ''close''], HCloseStream),
     (''GET'', routePrefix @ [Lit ''streams''], HStreamsList),
     (''GET'', routePrefix @ [Lit ''metrics''], HMetrics),
     (''GET'', [Lit ''metrics''], HPromhttp)]"

text \<open>How \<open>http.ServeMux\<close> matches: \<open>GET\<close> also takes \<open>HEAD\<close>, a wildcard stands for one segment
  that is not empty, and the values of the wildcards are what \<open>PathValue\<close> returns.\<close>

definition methodMatches :: "string \<Rightarrow> string \<Rightarrow> bool" where
  "methodMatches m req \<longleftrightarrow> req = m \<or> m = ''GET'' \<and> req = ''HEAD''"

fun pathMatches :: "segment list \<Rightarrow> string list \<Rightarrow> (string \<times> string) list option" where
  "pathMatches [] [] = Some []"
| "pathMatches (Lit l # ps) (x # xs) = (if x = l then pathMatches ps xs else None)"
| "pathMatches (Var v # ps) (x # xs) =
     (if x = [] then None else map_option (\<lambda>vals. (v, x) # vals) (pathMatches ps xs))"
| "pathMatches _ _ = None"

definition routeMatches :: "string \<Rightarrow> string list \<Rightarrow> route \<Rightarrow> bool" where
  "routeMatches req path r \<longleftrightarrow> methodMatches (fst r) req \<and> pathMatches (fst (snd r)) path \<noteq> None"

text \<open>Two patterns that can match one request; \<open>ServeMux\<close> panics at registration when neither of
  such a pair is more specific than the other.\<close>

fun segmentsMeet :: "segment list \<Rightarrow> segment list \<Rightarrow> bool" where
  "segmentsMeet [] [] = True"
| "segmentsMeet (Lit a # ps) (Lit b # qs) = (a = b \<and> segmentsMeet ps qs)"
| "segmentsMeet (Lit a # ps) (Var b # qs) = (a \<noteq> [] \<and> segmentsMeet ps qs)"
| "segmentsMeet (Var a # ps) (Lit b # qs) = (b \<noteq> [] \<and> segmentsMeet ps qs)"
| "segmentsMeet (Var a # ps) (Var b # qs) = segmentsMeet ps qs"
| "segmentsMeet _ _ = False"

definition routesMeet :: "route \<Rightarrow> route \<Rightarrow> bool" where
  "routesMeet r q \<longleftrightarrow> fst r = fst q \<and> segmentsMeet (fst (snd r)) (fst (snd q))"

datatype dispatch = Found apiHandler "(string \<times> string) list" | MethodNotAllowed | NotFound

definition ServeHTTP :: "string \<Rightarrow> string list \<Rightarrow> dispatch" where
  "ServeHTTP req path =
    (case find (routeMatches req path) registerRoutes of
       Some (m, pattern, h) \<Rightarrow> Found h (the (pathMatches pattern path))
     | None \<Rightarrow> if list_ex (\<lambda>r. pathMatches (fst (snd r)) path \<noteq> None) registerRoutes
         then MethodNotAllowed else NotFound)"

section \<open>The logging middleware\<close>

definition fmtStatusClass :: "int \<Rightarrow> string" where
  "fmtStatusClass code =
    (if code \<ge> 500 then ''5xx'' else if code \<ge> 400 then ''4xx'' else if code \<ge> 300 then ''3xx''
     else if code \<ge> 200 then ''2xx'' else ''1xx'')"

record responseWriter =
  rw_statusCode :: int
  rw_written :: "int list"

definition WriteHeader :: "int \<Rightarrow> responseWriter \<Rightarrow> responseWriter" where
  "WriteHeader code rw = rw\<lparr>rw_statusCode := code, rw_written := rw_written rw @ [code]\<rparr>"

text \<open>The wrapped handler is the list of the \<open>WriteHeader\<close> calls it makes. The result is the
  writer, the label of the request counter and the observed duration.\<close>

definition RequestLoggingMiddleware ::
  "int list \<Rightarrow> gotime \<Rightarrow> gotime \<Rightarrow> string \<Rightarrow> string \<Rightarrow> responseWriter \<times> (string \<times> string \<times> string) \<times> int" where
  "RequestLoggingMiddleware codes start end method path =
    (let rw = fold WriteHeader codes \<lparr>rw_statusCode = 200, rw_written = []\<rparr>;
         duration = time_sub end start;
         statusClass = fmtStatusClass (rw_statusCode rw)
     in (rw, (method, path, statusClass), Milliseconds duration))"

section \<open>Lemmas\<close>

lemma pathMatches_meet:
  "pathMatches ps path \<noteq> None \<Longrightarrow> pathMatches qs path \<noteq> None \<Longrightarrow> segmentsMeet ps qs"
proof (induction ps path arbitrary: qs rule: pathMatches.induct)
  case (2 l ps x xs)
  then show ?case by (cases qs; cases "hd qs") (auto split: if_splits)
next
  case (3 v ps x xs)
  then show ?case by (cases qs; cases "hd qs") (auto split: if_splits)
qed (auto elim: pathMatches.elims)

lemma pathMatches_values:
  "pathMatches ps path = Some vals \<Longrightarrow>
     list_all (\<lambda>(v, x). x \<noteq> []) vals \<and> map fst vals = List.map_filter (\<lambda>p. case p of Var v \<Rightarrow> Some v | Lit l \<Rightarrow> None) ps"
  by (induction ps path arbitrary: vals rule: pathMatches.induct)
    (auto simp: map_filter_simps split: if_splits)

lemma routes_methods: "list_all (\<lambda>r. fst r = ''GET'' \<or> fst r = ''POST'') registerRoutes"
  by (simp add: registerRoutes_def)

lemma segmentsMeet_sym: "segmentsMeet ps qs = segmentsMeet qs ps"
  by (induction ps qs rule: segmentsMeet.induct) auto

lemma sorted_wrt_apart:
  "symp R \<Longrightarrow> sorted_wrt (\<lambda>x y. \<not> R x y) xs \<Longrightarrow> x \<in> set xs \<Longrightarrow> y \<in> set xs \<Longrightarrow> R x y \<Longrightarrow> x = y"
  by (induction xs) (auto dest: sympD)

lemma routesMeet_symp: "symp routesMeet"
  by (auto simp: symp_def routesMeet_def segmentsMeet_sym)

lemma routes_apart: "sorted_wrt (\<lambda>r q. \<not> routesMeet r q) registerRoutes"
  by (simp add: registerRoutes_def routesMeet_def routePrefix_def)

lemma routeMatches_unique:
  assumes "r \<in> set registerRoutes" "q \<in> set registerRoutes" "routeMatches req path r" "routeMatches req path q"
  shows "r = q"
proof -
  have "fst r = fst q"
    using assms routes_methods by (auto simp: routeMatches_def methodMatches_def list_all_iff)
  moreover have "segmentsMeet (fst (snd r)) (fst (snd q))"
    using assms(3,4) by (intro pathMatches_meet) (auto simp: routeMatches_def)
  ultimately show ?thesis
    using sorted_wrt_apart [OF routesMeet_symp routes_apart assms(1,2)] by (simp add: routesMeet_def)
qed

lemma find_sound: "find P xs = Some x \<Longrightarrow> x \<in> set xs \<and> P x"
  by (auto simp: find_Some_iff)

lemma find_unique:
  assumes "x \<in> set xs" "P x" "\<And>y. y \<in> set xs \<Longrightarrow> P y \<Longrightarrow> y = x"
  shows "find P xs = Some x"
proof (cases "find P xs")
  case None
  with assms(1,2) show ?thesis by (auto simp: find_None_iff)
next
  case (Some y)
  then have "y \<in> set xs" "P y" by (auto dest: find_sound)
  with Some assms(3) show ?thesis by blast
qed

lemma listLoop_single:
  "fst (listLoop env proto target n [r] i) = [] \<longleftrightarrow> \<not> listed i (TrimSpace r)"
  "length (fst (listLoop env proto target n [r] i)) \<le> 1"
  by (simp_all add: listLoop_step)

lemma sharedIndex_sel [simp]:
  "pi_cfg (sharedIndex s i) = pi_cfg i" "pi_peerRegistry (sharedIndex s i) = sr_peerRegistry s"
  "pi_resourceCatalog (sharedIndex s i) = sr_resourceCatalog s"
  by (simp_all add: sharedIndex_def)

lemma srvCount_sel [simp]:
  "sr_peerRegistry (srvCount m s) = sr_peerRegistry s" "sr_resourceCatalog (srvCount m s) = sr_resourceCatalog s"
  "sharedIndex (srvCount m s) = sharedIndex s"
  by (simp_all add: srvCount_def sharedIndex_def fun_eq_iff)

lemma listLoop_stats_only: "\<exists>st. snd (listLoop env proto target n rs i) = i\<lparr>pi_stats := st\<rparr>"
proof (induction rs arbitrary: n i)
  case Nil
  show ?case by (simp add: exI [of _ "pi_stats i"])
next
  case (Cons r rs)
  obtain st where "snd (bumpStat (ix_clock env (2 * n + 1)) (proto @ TrimSpace r) i) = i\<lparr>pi_stats := st\<rparr>"
    by (simp add: bumpStat_def Let_def)
  with Cons [of n i] Cons [of "n + 1" "i\<lparr>pi_stats := st\<rparr>"] show ?case
    by (auto simp: listLoop_step)
qed

text \<open>What a query for one resource does, with the state written out.\<close>

lemma http_detail_run:
  assumes "sr_protocolIndex s = Some i" "resource \<noteq> []"
  shows "handleHTTPProtocolResourceByName env s resource =
    (let target = bt_TargetUrl (bg_Http (cf_Bridges (pi_cfg i)));
         run = (if target = [] then ([], sharedIndex s i)
           else listLoop env ''http/'' target 0 [resource] (sharedIndex s i))
     in (if fst run = [] then writeJSON 404 (JError ''resource not found'')
         else writeJSON 200 (JResourceItems ''http'' (fst run) (length (fst run))),
         s\<lparr>sr_protocolIndex := Some (snd run),
           sr_metrics := sr_metrics s @ [ProtocolResourceQueryTotal ''http'' ''detail'']\<rparr>))"
  using assms
  by (simp add: handleHTTPProtocolResourceByName_def ListHTTP_def queriedResources_def case_prod_beta Let_def
      storeIndex_def) (simp add: srvCount_def)

section \<open>Properties\<close>

text \<open>
  C30: the route table is unambiguous: a request is handed to the handler \<open>h\<close> with the path values
  \<open>vals\<close> exactly when some route of the table has that handler, takes the method and matches the
  path with those values, so no other route matches. A request is not found exactly when no
  pattern of the table matches its path. No path value a handler gets is empty.
\<close>

theorem dispatch_exact:
  "(ServeHTTP req path = Found h vals \<longleftrightarrow>
      (\<exists>m pattern. (m, pattern, h) \<in> set registerRoutes \<and> methodMatches m req \<and>
        pathMatches pattern path = Some vals)) \<and>
    (ServeHTTP req path = NotFound \<longleftrightarrow>
      (\<forall>r \<in> set registerRoutes. pathMatches (fst (snd r)) path = None)) \<and>
    (ServeHTTP req path = Found h vals \<longrightarrow> list_all (\<lambda>(v, x). x \<noteq> []) vals)"
proof -
  have found: "ServeHTTP req path = Found h vals" if "(m, pattern, h) \<in> set registerRoutes"
    "methodMatches m req" "pathMatches pattern path = Some vals" for m pattern h vals
  proof -
    have "routeMatches req path (m, pattern, h)"
      using that by (simp add: routeMatches_def)
    then have "find (routeMatches req path) registerRoutes = Some (m, pattern, h)"
      using that(1) routeMatches_unique by (intro find_unique) blast+
    with that show ?thesis by (simp add: ServeHTTP_def)
  qed
  have route: "\<exists>m pattern. (m, pattern, h) \<in> set registerRoutes \<and> methodMatches m req \<and>
      pathMatches pattern path = Some vals" if run: "ServeHTTP req path = Found h vals"
  proof (cases "find (routeMatches req path) registerRoutes")
    case (Some r)
    obtain m pattern where "r = (m, pattern, h)" "vals = the (pathMatches pattern path)"
      using run Some by (cases r) (simp add: ServeHTTP_def)
    with find_sound [OF Some] show ?thesis
      by (auto simp: routeMatches_def)
  qed (use run in \<open>simp add: ServeHTTP_def split: if_splits\<close>)
  have "ServeHTTP req path = NotFound \<longleftrightarrow>
      (\<forall>r \<in> set registerRoutes. pathMatches (fst (snd r)) path = None)"
  proof (cases "find (routeMatches req path) registerRoutes")
    case None
    then show ?thesis by (simp add: ServeHTTP_def list_ex_iff)
  next
    case (Some r)
    with find_sound [OF Some] show ?thesis
      by (auto simp: ServeHTTP_def routeMatches_def split: prod.split)
  qed
  with found route show ?thesis
    using pathMatches_values by blast
qed

theorem dispatch_exact_witness:
  "let path = [''dd'', ''api'', ''v1'', ''peers'', ''p-1'', ''heartbeat''];
     h = HPeerHeartbeat; vals = [(''id'', ''p-1'')]
   in ServeHTTP ''POST'' path = Found h vals \<and> list_all (\<lambda>(v, x). x \<noteq> []) vals"
proof -
  let ?path = "[''dd'', ''api'', ''v1'', ''peers'', ''p-1'', ''heartbeat'']"
  have "(''POST'', routePrefix @ [Lit ''peers'', Var ''id'', Lit ''heartbeat''], HPeerHeartbeat) \<in> set registerRoutes"
    "methodMatches ''POST'' ''POST''"
    "pathMatches (routePrefix @ [Lit ''peers'', Var ''id'', Lit ''heartbeat'']) ?path = Some [(''id'', ''p-1'')]"
    by (simp_all add: registerRoutes_def routePrefix_def methodMatches_def)
  then show ?thesis
    unfolding Let_def
    using dispatch_exact [of "''POST''" ?path HPeerHeartbeat "[(''id'', ''p-1'')]"] by blast
qed

text \<open>
  Asking for one resource over HTTP: with an index, the handler answers 200 with the one item
  of that resource exactly when the bridge has a target and the name, without the white space around
  it, has a provider in the catalog of the server, and 404 otherwise; the item has the stored
  records of the providers, ordered by id. Nothing of the server changes but the counts.
\<close>

lemma protocol_detail_exact:
  assumes "sr_protocolIndex s = Some i" "resource \<noteq> []"
  shows "let r = TrimSpace resource;
      (resp, s') = handleHTTPProtocolResourceByName env s resource
    in (if bt_TargetUrl (bg_Http (cf_Bridges (pi_cfg i))) \<noteq> [] \<and> r \<noteq> [] \<and>
          GetProviders (sr_resourceCatalog s) r \<noteq> []
        then \<exists>item. resp = writeJSON 200 (JResourceItems ''http'' [item] 1) \<and> ri_Resource item = r \<and>
          sorted (map p_Id (ri_Providers item)) \<and> set (ri_Providers item) =
            {p. \<exists>k \<in> set (GetProviders (sr_resourceCatalog s) r). Get (pr_store (sr_peerRegistry s)) k = Some p}
        else resp = writeJSON 404 (JError ''resource not found'')) \<and>
      (\<exists>st m. s' = s\<lparr>sr_protocolIndex := Some ((sharedIndex s i)\<lparr>pi_stats := st\<rparr>), sr_metrics := m\<rparr>)"
proof -
  let ?j = "sharedIndex s i" and ?target = "bt_TargetUrl (bg_Http (cf_Bridges (pi_cfg i)))"
  let ?run = "if ?target = [] then ([], ?j) else listLoop env ''http/'' ?target 0 [resource] ?j"
  obtain st where st: "snd ?run = ?j\<lparr>pi_stats := st\<rparr>"
  proof (cases "?target = []")
    case True
    with that [of "pi_stats ?j"] show ?thesis by simp
  next
    case False
    with that listLoop_stats_only [of env "''http/''" ?target 0 "[resource]" ?j] show ?thesis by auto
  qed
  have items: "fst ?run =
      (if ?target \<noteq> [] \<and> listed ?j (TrimSpace resource)
       then [\<lparr>ri_Resource = TrimSpace resource,
           ri_Providers = lookupPeers ?j (GetProviders (sr_resourceCatalog s) (TrimSpace resource)),
           ri_TargetURL = ?target, ri_RequestMetaSchema = lookupSchemaMap env (ix_clock env 0) ?j (TrimSpace resource),
           ri_RuntimeStats = fst (bumpStat (ix_clock env 1) (''http/'' @ TrimSpace resource) ?j)\<rparr>]
       else [])"
    by (simp add: listLoop_step)
  have "sorted (map p_Id (lookupPeers ?j ids))" for ids
    by (simp add: lookupPeers_def)
  then show ?thesis
    unfolding http_detail_run [OF assms] Let_def prod.case st items
    using set_lookupPeers [of ?j] by (auto simp: listed_def writeJSON_def)
qed

end
