(* ===== verification/Api_Run.thy ===== *)
theory Api_Run
  imports Api_Index
begin

text \<open>
  The API server at work: its handlers interleaved with what reaches its services over the broker.
  A run is a sequence of requests (theories \<open>Api\<close> and \<open>Api_Index\<close>), of steps of the registry and the
  stream service, and of whatever the data service does. The catalog of resources is written by one
  handler only, the registration, so a run carries the list of what was registered through it.
\<close>

section \<open>Runs\<close>

text \<open>The pairs of resource and peer a registration request puts on record when it is accepted.\<close>

definition registeredBy :: "PeerRegisterReq option \<Rightarrow> ApiResponse \<Rightarrow> (string \<times> string) list" where
  "registeredBy ro resp = (case ro of
      Some req \<Rightarrow> if ap_status resp = 202 then map (\<lambda>r. (r, pq_Id req)) (pq_Resources req) else []
    | None \<Rightarrow> [])"

inductive server_run :: "Server \<Rightarrow> (string \<times> string) list \<Rightarrow> Server \<Rightarrow> bool" for s0 where
  started: "server_run s0 [] s0"
| register: "server_run s0 regs s \<Longrightarrow> handlePeerRegister env now s ro = (resp, s', out) \<Longrightarrow>
    server_run s0 (registeredBy ro resp @ regs) s'"
| unregister: "server_run s0 regs s \<Longrightarrow> handlePeerUnregister env now s k = (resp, s', out) \<Longrightarrow> server_run s0 regs s'"
| sync: "server_run s0 regs s \<Longrightarrow> handleTransferSync env now s x req = Some (resp, s', msg, out) \<Longrightarrow>
    server_run s0 regs s'"
| async: "server_run s0 regs s \<Longrightarrow> handleTransferAsync env now s x req = Some (resp, s', out) \<Longrightarrow>
    server_run s0 regs s'"
| batch: "server_run s0 regs s \<Longrightarrow> handleTransferAsyncBatch env now s x items = Some (resp, s', out) \<Longrightarrow>
    server_run s0 regs s'"
| http_list: "server_run s0 regs s \<Longrightarrow> server_run s0 regs (snd (handleHTTPProtocolResources ienv s))"
| http_detail: "server_run s0 regs s \<Longrightarrow> server_run s0 regs (snd (handleHTTPProtocolResourceByName ienv s r))"
| coap_list: "server_run s0 regs s \<Longrightarrow> server_run s0 regs (snd (handleCoapProtocolResources ienv s))"
| coap_detail: "server_run s0 regs s \<Longrightarrow> server_run s0 regs (snd (handleCoapProtocolResourceByName ienv s r))"
| topics: "server_run s0 regs s \<Longrightarrow> server_run s0 regs (snd (handleMqttProtocolTopics ienv s d k v))"
| topic: "server_run s0 regs s \<Longrightarrow> server_run s0 regs (snd (handleMqttProtocolTopicByName ienv s name))"
| broker: "server_run s0 regs s \<Longrightarrow> registry_step (sr_peerRegistry s) reg \<Longrightarrow>
    server_run s0 regs (s\<lparr>sr_peerRegistry := reg\<rparr>)"
| streams: "server_run s0 regs s \<Longrightarrow> stream_step unopen unclose (sr_streamService s) st \<Longrightarrow>
    server_run s0 regs (s\<lparr>sr_streamService := st\<rparr>)"
| data: "server_run s0 regs s \<Longrightarrow> server_run s0 regs (s\<lparr>sr_dataService := ds\<rparr>)"

section \<open>What the handlers leave alone\<close>

lemmas index_handler_defs = handleHTTPProtocolResources_def handleHTTPProtocolResourceByName_def
  handleCoapProtocolResources_def handleCoapProtocolResourceByName_def handleMqttProtocolTopics_def
  handleMqttProtocolTopicByName_def Let_def case_prod_beta

abbreviation same_peers :: "Server \<Rightarrow> Server \<Rightarrow> bool" where
  "same_peers s' s \<equiv> sr_peerRegistry s' = sr_peerRegistry s \<and> sr_resourceCatalog s' = sr_resourceCatalog s \<and>
     sr_streamService s' = sr_streamService s \<and> sr_topics s' = sr_topics s"

lemma storeIndex_peers: "same_peers (storeIndex s i) s"
  by (simp add: storeIndex_def)

lemma srvCount_peers: "same_peers (srvCount m s) s"
  by (simp add: srvCount_def)

lemma index_handlers_peers:
  "same_peers (snd (handleHTTPProtocolResources ienv s)) s"
  "same_peers (snd (handleHTTPProtocolResourceByName ienv s r)) s"
  "same_peers (snd (handleCoapProtocolResources ienv s)) s"
  "same_peers (snd (handleCoapProtocolResourceByName ienv s r)) s"
  "same_peers (snd (handleMqttProtocolTopics ienv s d k v)) s"
  "same_peers (snd (handleMqttProtocolTopicByName ienv s name)) s"
  unfolding index_handler_defs
  by (simp_all only: storeIndex_peers srvCount_peers snd_conv simp_thms split: option.split if_split)

lemma validate_peers: "validateRequestMeta now s r m = (e, s', m') \<Longrightarrow> same_peers s' s"
  by (auto simp: validateRequestMeta_def srvCount_def split: option.splits prod.splits)

lemma brokers_peers:
  "syncBroker env now s r m = (resp, s', m', out) \<Longrightarrow> same_peers s' s"
  "asyncBroker env now s r m = (resp', s', out) \<Longrightarrow> same_peers s' s"
  "batchSend env now i item m s ds = (res, s', ds', out) \<Longrightarrow> s' = s"
  by (auto simp: syncBroker_def asyncBroker_def batchSend_def Let_def srvCount_def split: option.splits prod.splits)

lemma transfer_peers:
  "handleTransferSync env now s x req = Some (resp, s', msg, out) \<Longrightarrow> same_peers s' s"
  "handleTransferAsync env now s x req = Some (resp', s', out) \<Longrightarrow> same_peers s' s"
  by (auto simp: handleTransferSync_def handleTransferAsync_def srvCount_def
      dest!: validate_peers brokers_peers split: option.splits prod.splits sum.splits if_splits)

lemma batchItem_peers: "batchItem env now x i item s ds = Some (res, s', ds', out) \<Longrightarrow> same_peers s' s"
  by (auto simp: batchItem_def Let_def srvCount_def
      dest!: validate_peers brokers_peers(3) split: option.splits prod.splits if_splits)

lemma batchLoop_peers: "batchLoop env now x i items acc s ds = Some (res, s', ds', out) \<Longrightarrow> same_peers s' s"
proof (induction env now x i items acc s ds arbitrary: res s' ds' out rule: batchLoop.induct)
  case (2 env now x i item items accepted failed results s ds)
  then show ?case
    by (fastforce dest: batchItem_peers split: option.splits prod.splits)
qed simp

lemma batch_peers: "handleTransferAsyncBatch env now s x items = Some (resp, s', out) \<Longrightarrow> same_peers s' s"
  by (auto simp: handleTransferAsyncBatch_def Let_def srvCount_def
      dest!: batchLoop_peers split: option.splits prod.splits if_splits)

section \<open>The invariant of a run\<close>

text \<open>The catalog holds exactly the registered pairs, and a resource name exactly when it was registered.\<close>

definition catalog_inv :: "ResourceCatalog \<Rightarrow> (string \<times> string) list \<Rightarrow> bool" where
  "catalog_inv c regs \<longleftrightarrow> wf_catalog c \<and> catalog.rel c = set regs \<and> set (ListResources c) = fst ` set regs"

definition server_inv :: "Server \<Rightarrow> (string \<times> string) list \<Rightarrow> bool" where
  "server_inv s regs \<longleftrightarrow> registry_inv (sr_peerRegistry s) \<and> catalog_inv (sr_resourceCatalog s) regs \<and>
     stream_inv (sr_streamService s)"

lemma ListResources_addProvider: "set (ListResources (addProvider r i c)) = insert r (set (ListResources c))"
proof (cases "i \<in> set (indexAt c r)")
  case True
  then obtain ps where "(r, ps) \<in> set (rc_index c)"
    by (cases "map_of (rc_index c) r") (auto simp: indexAt_def dest: map_of_SomeD)
  then have "r \<in> set (ListResources c)" by (force simp: ListResources_def)
  with True show ?thesis by (auto simp: addProvider_def)
next
  case False
  then show ?thesis by (simp add: addProvider_def ListResources_def gomap_simps)
qed

lemma ListResources_fold: "set (ListResources (fold (\<lambda>r. addProvider r i) rs c)) = set rs \<union> set (ListResources c)"
  by (induction rs arbitrary: c) (auto simp: ListResources_addProvider)

lemma catalog_inv_reg:
  assumes "catalog_inv c regs"
  shows "catalog_inv (OnPeerRegistered c p) (map (\<lambda>r. (r, p_Id p)) (p_Resources p) @ regs)"
proof -
  have "set (ListResources (OnPeerRegistered c p)) = set (p_Resources p) \<union> fst ` set regs"
    using assms by (simp add: catalog_inv_def OnPeerRegistered_def ListResources_fold)
  then show ?thesis
    using assms by (auto simp: catalog_inv_def catalog.rel_reg catalog.invar_reg image_Un image_image)
qed

lemma server_inv_same: "same_peers s' s \<Longrightarrow> server_inv s regs \<Longrightarrow> server_inv s' regs"
  by (simp add: server_inv_def)

lemma server_inv_register:
  assumes "handlePeerRegister env now s ro = (resp, s', out)" "server_inv s regs"
  shows "server_inv s' (registeredBy ro resp @ regs)"
proof (cases ro)
  case None
  with assms show ?thesis by (auto simp: handlePeerRegister_def registeredBy_def)
next
  case (Some req)
  show ?thesis
  proof (cases "pq_Id req = []")
    case True
    with Some assms show ?thesis by (auto simp: handlePeerRegister_def registeredBy_def writeJSON_def)
  next
    case False
    obtain e reg out' where run: "RegisterPeer (ae_marshalRegister env) (en_publish (ae_data env)) now
        (sr_peerRegistry s) (peerOfRequest req) = (e, reg, out')" by (metis prod_cases3)
    have "registry_inv reg"
      using registry_step_inv [OF st_RegisterPeer] assms(2) run unfolding server_inv_def by (metis fst_conv snd_conv)
    then show ?thesis
      using assms Some False run catalog_inv_reg [of "sr_resourceCatalog s" regs "peerOfRequest req"]
      by (cases e) (auto simp: handlePeerRegister_def registeredBy_def writeJSON_def server_inv_def peerOfRequest_def)
  qed
qed

lemma server_inv_unregister:
  assumes "handlePeerUnregister env now s k = (resp, s', out)" "server_inv s regs"
  shows "server_inv s' regs"
proof -
  obtain e reg out' where run: "UnregisterPeer (ae_marshalHeartbeat env) (en_publish (ae_data env)) now
      (sr_peerRegistry s) k = (e, reg, out')" by (metis prod_cases3)
  have "registry_inv reg"
    using registry_step_inv [OF st_UnregisterPeer] assms(2) run unfolding server_inv_def by (metis fst_conv snd_conv)
  then show ?thesis
    using assms run by (auto simp: handlePeerUnregister_def server_inv_def split: if_splits option.splits)
qed

lemma server_run_inv: "server_run s0 regs s \<Longrightarrow> server_inv s0 [] \<Longrightarrow> server_inv s regs"
proof (induction rule: server_run.induct)
  case (register regs s env now ro resp s' out)
  then show ?case by (blast intro: server_inv_register)
next
  case (unregister regs s env now k resp s' out)
  then show ?case by (blast intro: server_inv_unregister)
next
  case (broker regs s reg)
  then show ?case by (auto simp: server_inv_def intro: registry_step_inv)
next
  case (streams regs s unopen unclose st)
  then show ?case by (auto simp: server_inv_def intro: stream_step_inv)
next
  case (data regs s ds)
  then show ?case by (simp add: server_inv_def)
next
  case (sync regs s env now x req resp s' msg out)
  then show ?case using server_inv_same [OF transfer_peers(1)] by blast
next
  case (async regs s env now x req resp s' out)
  then show ?case using server_inv_same [OF transfer_peers(2)] by blast
next
  case (batch regs s env now x items resp s' out)
  then show ?case using server_inv_same [OF batch_peers] by blast
qed (simp_all add: server_inv_same index_handlers_peers)

lemma server_inv_new:
  "server_inv (NewServer boot cfg topics (NewPeerRegistryService topics ttl [WithAclService acl]) ds acl'
     (NewStreamService topics) NewResourceCatalog index) []"
  by (simp add: server_inv_def NewServer_def registry_inv_init catalog_inv_def catalog.invar_empty catalog.rel_empty
      stream_inv_def NewStreamService_def GetSession_def)
    (simp add: ListResources_def NewResourceCatalog_def)

section \<open>Properties\<close>

text \<open>
  C20: what a client can read of the peers, in every state an API server reaches from a fresh one,
  whatever requests, broker messages, sweeps and transfers came in between: the providers listed for a
  resource are exactly the peers that the registry shows for it and that were once registered for
  it over the API, none twice; the listed resources are exactly those ever registered over the API,
  unregistered peers or not; and the peer returned for an id has that id. So a peer that registered
  over the broker is never listed as a provider, and a resource never leaves the list.
\<close>

theorem api_peers_exact:
  assumes "server_run (NewServer boot cfg topics (NewPeerRegistryService topics ttl [WithAclService acl]) ds acl'
      (NewStreamService topics) NewResourceCatalog index) regs s" "resource \<noteq> []"
  shows "(\<exists>peers. handleResourceProviders s now resource = writeJSON 200 (JProviders resource peers) \<and>
      distinct (map p_Id peers) \<and>
      (\<forall>p. p \<in> set peers \<longleftrightarrow> Get (pr_store (sr_peerRegistry s)) (p_Id p) = Some p \<and>
        visible (pr_leaseTtl (sr_peerRegistry s)) now resource p \<and> (resource, p_Id p) \<in> set regs)) \<and>
    (\<exists>names. handleResourcesList s = writeJSON 200 (JResources names) \<and> distinct names \<and>
      set names = fst ` set regs) \<and>
    (handlePeerGet s k = writeJSON 200 (JPeer peer) \<longrightarrow> p_Id peer = k)"
proof -
  have inv: "registry_inv (sr_peerRegistry s)" "catalog_inv (sr_resourceCatalog s) regs"
    using server_run_inv [OF assms(1) server_inv_new] by (simp_all add: server_inv_def)
  let ?cat = "sr_resourceCatalog s" and ?reg = "sr_peerRegistry s"
  have "(resource, i) \<in> set regs \<longleftrightarrow> i \<in> set (GetProviders ?cat resource)" for i
    using inv(2) by (auto simp: catalog_inv_def catalog.rel_def)
  then have "handleResourceProviders s now resource = writeJSON 200 (JProviders resource
      (filter (\<lambda>p. (resource, p_Id p) \<in> set regs) (GetPeers ?reg now resource)))"
    using assms(2) by (simp add: handleResourceProviders_def Let_def)
  moreover have "handleResourcesList s = writeJSON 200 (JResources (ListResources ?cat))"
    "distinct (ListResources ?cat)" "set (ListResources ?cat) = fst ` set regs"
    using inv(2) by (simp_all add: handleResourcesList_def catalog_inv_def wf_catalog_def wf_gomap_def)
      (simp add: ListResources_def)
  moreover have "p_Id peer = k" if "handlePeerGet s k = writeJSON 200 (JPeer peer)"
    using that registry_inv_Get [OF inv(1)]
    by (auto simp: handlePeerGet_def writeJSON_def split: if_splits option.splits)
  ultimately show ?thesis
    using in_GetPeers_inv [OF inv(1)] distinct_GetPeers [OF inv(1)] by (auto simp: distinct_map_filter)
qed

definition freshServer :: Server where
  "freshServer = NewServer 0 None (NewDefaultTopicSet ''t'')
     (NewPeerRegistryService (NewDefaultTopicSet ''t'') 1000 [WithAclService NewTopicAclService]) None None
     (NewStreamService (NewDefaultTopicSet ''t'')) NewResourceCatalog None"

definition registerReq :: PeerRegisterReq where
  "registerReq = \<lparr>pq_Id = ''p'', pq_Name = [], pq_Role = [], pq_Resources = [''r''], pq_Capabilities = [],
     pq_ResourceSchemas = []\<rparr>"

text \<open>A peer that registers and unregisters over the API.\<close>

definition leftServer :: Server where
  "leftServer = fst (snd (handlePeerUnregister directEnv 8
     (fst (snd (handlePeerRegister directEnv 7 freshServer (Some registerReq)))) ''p''))"

lemma leftServer_run: "server_run freshServer [(''r'', ''p'')] leftServer"
proof -
  obtain resp s1 out where reg: "handlePeerRegister directEnv 7 freshServer (Some registerReq) = (resp, s1, out)"
    by (metis prod_cases3)
  then have "registeredBy (Some registerReq) resp = [(''r'', ''p'')]"
    by (auto simp: registeredBy_def registerReq_def handlePeerRegister_def RegisterPeer_def Let_def directEnv_def
        okEnv_def writeJSON_def)
  then have run: "server_run freshServer [(''r'', ''p'')] s1"
    using server_run.register [OF server_run.started reg] by simp
  obtain resp' s2 out' where "handlePeerUnregister directEnv 8 s1 ''p'' = (resp', s2, out')"
    by (metis prod_cases3)
  from server_run.unregister [OF run this] this show ?thesis
    by (simp add: leftServer_def reg)
qed

theorem api_peers_exact_witness:
  "(\<exists>peers. handleResourceProviders leftServer 9 ''r'' = writeJSON 200 (JProviders ''r'' peers) \<and>
      distinct (map p_Id peers) \<and>
      (\<forall>p. p \<in> set peers \<longleftrightarrow> Get (pr_store (sr_peerRegistry leftServer)) (p_Id p) = Some p \<and>
        visible (pr_leaseTtl (sr_peerRegistry leftServer)) 9 ''r'' p \<and> (''r'', p_Id p) \<in> set [(''r'', ''p'')])) \<and>
    (\<exists>names. handleResourcesList leftServer = writeJSON 200 (JResources names) \<and> distinct names \<and> set names = {''r''})"
  using api_peers_exact [OF leftServer_run [unfolded freshServer_def], of "''r''" 9 "''p''" "demoPeer ''p''"] by simp

end
