(* ===== verification/Peer_List.thy ===== *)
theory Peer_List
  imports Peer_Registry
begin

text \<open>
  The paged peer list (\<open>service/peer_list_service.go\<close>): the three filters, the page
  arithmetic at 64 bits and the handler that replies. \<open>None\<close> as the result of the
  handler is a Go panic: the slice expression is checked the way the runtime does it.
  A nil and an empty list of peers are the same here. The registry ranges over a Go map, whose order
  is another one for every query: the order is the argument \<open>visit\<close>, which rearranges the entries.
\<close>

section \<open>State and messages\<close>

record PeerListService =
  pl_topics :: TopicSet
  pl_peerRegistry :: PeerRegistryService
  pl_aclService :: "TopicAclService option"
  pl_maxPageSize :: int

record PeerListQuery =
  lq_RequestId :: string
  lq_SourcePeerId :: string
  lq_ResourceFilter :: string
  lq_RoleFilter :: string
  lq_StatusFilter :: string
  lq_PageSize :: int
  lq_PageOffset :: int
  lq_ReplyTo :: string

record PeerListResponse =
  lr_RequestId :: string
  lr_CorrelationId :: string
  lr_Peers :: "DdPeerInfo list"
  lr_TotalCount :: int
  lr_PageOffset :: int
  lr_HasMore :: bool

definition NewPeerListService ::
  "TopicSet \<Rightarrow> PeerRegistryService \<Rightarrow> TopicAclService option \<Rightarrow> int \<Rightarrow> PeerListService" where
  "NewPeerListService topics peerRegistry aclService maxPageSize =
    (let maxPageSize = (if maxPageSize \<le> 0 then 100 else maxPageSize)
     in \<lparr>pl_topics = topics, pl_peerRegistry = peerRegistry, pl_aclService = aclService,
         pl_maxPageSize = maxPageSize\<rparr>)"

definition peerListStart ::
  "(string \<Rightarrow> go_error option) \<Rightarrow> PeerListService \<Rightarrow> go_error option \<times> (string \<times> unit) list" where
  "peerListStart subscribe s = subscribeAll subscribe [(ts_PeerListQuery (pl_topics s), ())]"

section \<open>Filters\<close>

fun aclLoop :: "TopicAclService \<Rightarrow> TopicSet \<Rightarrow> string \<Rightarrow> DdPeerInfo list \<Rightarrow> DdPeerInfo list" where
  "aclLoop acl topics callerId [] = []"
| "aclLoop acl topics callerId (peer # peers) =
    (if Authorize acl callerId AclActionSub (TransferRequest topics (p_Id peer)) \<or>
        Authorize acl callerId AclActionPub (TransferRequest topics (p_Id peer))
     then peer # aclLoop acl topics callerId peers else aclLoop acl topics callerId peers)"

definition filterByAcl :: "PeerListService \<Rightarrow> string \<Rightarrow> DdPeerInfo list \<Rightarrow> DdPeerInfo list" where
  "filterByAcl s callerId peers =
    (case pl_aclService s of
       None \<Rightarrow> peers
     | Some acl \<Rightarrow> if callerId = [] then peers else aclLoop acl (pl_topics s) callerId peers)"

definition filterByRole :: "DdPeerInfo list \<Rightarrow> string \<Rightarrow> DdPeerInfo list" where
  "filterByRole peers roleFilter =
    (if roleFilter = [] then peers else filter (\<lambda>peer. p_Role peer = roleFilter) peers)"

definition filterByStatus :: "DdPeerInfo list \<Rightarrow> string \<Rightarrow> DdPeerInfo list" where
  "filterByStatus peers statusFilter =
    (if statusFilter = [] then peers else filter (\<lambda>peer. p_Status peer = statusFilter) peers)"

type_synonym peerOrder = "(string \<times> DdPeerInfo) list \<Rightarrow> (string \<times> DdPeerInfo) list"

definition rangedOver :: "peerOrder \<Rightarrow> PeerRegistryService \<Rightarrow> PeerRegistryService" where
  "rangedOver visit reg = reg\<lparr>pr_store := \<lparr>ms_peers = visit (ms_peers (pr_store reg))\<rparr>\<rparr>"

definition listedPeers :: "peerOrder \<Rightarrow> PeerListService \<Rightarrow> gotime \<Rightarrow> PeerListQuery \<Rightarrow> DdPeerInfo list" where
  "listedPeers visit s now req =
    (let allPeers = GetPeers (rangedOver visit (pl_peerRegistry s)) now (lq_ResourceFilter req);
         filtered = filterByAcl s (lq_SourcePeerId req) allPeers;
         filtered = filterByRole filtered (lq_RoleFilter req)
     in filterByStatus filtered (lq_StatusFilter req))"

section \<open>Pages\<close>

text \<open>\<open>xs[lo:hi]\<close>, a panic when the bounds are out of order or outside the list.\<close>

definition slice :: "'a list \<Rightarrow> int \<Rightarrow> int \<Rightarrow> 'a list option" where
  "slice xs lo hi = (if 0 \<le> lo \<and> lo \<le> hi \<and> hi \<le> int (length xs)
     then Some (take (nat (hi - lo)) (drop (nat lo) xs)) else None)"

definition effectivePageSize :: "int \<Rightarrow> int \<Rightarrow> int" where
  "effectivePageSize maxPageSize pageSize =
     (if pageSize \<le> 0 \<or> pageSize > maxPageSize then 20 else pageSize)"

definition effectiveOffset :: "int \<Rightarrow> int" where
  "effectiveOffset offset = (if offset < 0 then 0 else offset)"

definition cutPage :: "'a list \<Rightarrow> int \<Rightarrow> int \<Rightarrow> ('a list \<times> bool) option" where
  "cutPage filtered offset pageSize =
    (let totalCount = int (length filtered) in
     if wrap64 (offset + pageSize) < totalCount
     then (case slice filtered offset (wrap64 (offset + pageSize)) of
             None \<Rightarrow> None | Some xs \<Rightarrow> Some (xs, True))
     else if offset < totalCount
     then (case slice filtered offset totalCount of None \<Rightarrow> None | Some xs \<Rightarrow> Some (xs, False))
     else Some ([], False))"

definition listResponse :: "peerOrder \<Rightarrow> PeerListService \<Rightarrow> gotime \<Rightarrow> PeerListQuery \<Rightarrow> PeerListResponse option" where
  "listResponse visit s now req =
    (let filtered = listedPeers visit s now req;
         pageSize = effectivePageSize (pl_maxPageSize s) (lq_PageSize req);
         offset = effectiveOffset (lq_PageOffset req)
     in case cutPage filtered offset pageSize of
          None \<Rightarrow> None
        | Some (peers, hasMore) \<Rightarrow>
            Some \<lparr>lr_RequestId = lq_RequestId req, lr_CorrelationId = lq_RequestId req,
              lr_Peers = peers, lr_TotalCount = int (length filtered),
              lr_PageOffset = offset, lr_HasMore = hasMore\<rparr>)"

definition handleListQuery ::
  "(bytes \<Rightarrow> PeerListQuery option) \<Rightarrow> (PeerListResponse \<Rightarrow> go_error + bytes) \<Rightarrow> peerOrder \<Rightarrow> gotime \<Rightarrow>
     PeerListService \<Rightarrow> bytes \<Rightarrow> outbox option" where
  "handleListQuery unmarshal marshal visit now s payload =
    (case unmarshal payload of
       None \<Rightarrow> Some []
     | Some req \<Rightarrow>
        (case listResponse visit s now req of
           None \<Rightarrow> None
         | Some resp \<Rightarrow>
            (case marshal resp of
               Inl err \<Rightarrow> Some []
             | Inr data \<Rightarrow> if lq_ReplyTo req \<noteq> [] then Some [(lq_ReplyTo req, data)] else Some [])))"

section \<open>Lemmas\<close>

lemma aclLoop_filter:
  "aclLoop acl topics c peers = filter (\<lambda>peer.
     Authorize acl c AclActionSub (TransferRequest topics (p_Id peer)) \<or>
     Authorize acl c AclActionPub (TransferRequest topics (p_Id peer))) peers"
  by (induction peers) auto

text \<open>The page when nothing overflows.\<close>

lemma cutPage_ok:
  assumes "0 \<le> offset" "0 < pageSize" "offset + pageSize < 2 ^ 63"
  shows "cutPage xs offset pageSize =
    Some (take (nat pageSize) (drop (nat offset) xs), offset + pageSize < int (length xs))"
proof -
  have "wrap64 (offset + pageSize) = offset + pageSize"
    using assms by (intro wrap64_id) (simp add: in_i64_def)
  then show ?thesis
    using assms by (auto simp: cutPage_def slice_def Let_def)
qed

text \<open>The page when the sum overflows: the slice has a negative end.\<close>

lemma cutPage_overflow:
  assumes "offset < 2 ^ 63" "0 < pageSize" "pageSize < 2 ^ 63" "2 ^ 63 \<le> offset + pageSize"
  shows "cutPage xs offset pageSize = None"
proof -
  have "wrap64 (offset + pageSize) = offset + pageSize - 2 ^ 64"
    using assms by (intro wrap64_overflow) simp_all
  moreover have "offset + pageSize - 2 ^ 64 < 0" "0 \<le> offset"
    using assms by simp_all
  ultimately show ?thesis
    by (auto simp: cutPage_def slice_def Let_def)
qed

lemma concat_chunks:
  "concat (map (\<lambda>k. take m (drop (k * m) xs)) [0..<n]) = take (n * m) xs"
proof (induction n)
  case (Suc n)
  then show ?case
    using take_add [of "n * m" m xs] by (simp add: add.commute)
qed simp

section \<open>Properties\<close>

text \<open>
  The peers a query lists are exactly the visible peers of the registry that provide
  the wanted resource, have the wanted role and status, and that the caller may
  publish to or subscribe to. A query that names no caller is not filtered by the
  access rules at all.
\<close>

definition listed :: "PeerListService \<Rightarrow> gotime \<Rightarrow> PeerListQuery \<Rightarrow> DdPeerInfo \<Rightarrow> bool" where
  "listed s now req p \<longleftrightarrow>
    visible (pr_leaseTtl (pl_peerRegistry s)) now (lq_ResourceFilter req) p \<and>
    (lq_RoleFilter req = [] \<or> p_Role p = lq_RoleFilter req) \<and>
    (lq_StatusFilter req = [] \<or> p_Status p = lq_StatusFilter req) \<and>
    (case pl_aclService s of None \<Rightarrow> True
     | Some acl \<Rightarrow> lq_SourcePeerId req = [] \<or>
         Authorize acl (lq_SourcePeerId req) AclActionSub (TransferRequest (pl_topics s) (p_Id p)) \<or>
         Authorize acl (lq_SourcePeerId req) AclActionPub (TransferRequest (pl_topics s) (p_Id p)))"

lemma listedPeers_filter:
  "listedPeers visit s now req = filter (listed s now req) (map snd (visit (ms_peers (pr_store (pl_peerRegistry s)))))"
proof -
  have "GetPeers (rangedOver visit (pl_peerRegistry s)) now resource =
      filter (visible (pr_leaseTtl (pl_peerRegistry s)) now resource)
        (map snd (visit (ms_peers (pr_store (pl_peerRegistry s)))))" for resource
    by (simp add: GetPeers_filter rangedOver_def List_def)
  then show ?thesis
    unfolding listedPeers_def Let_def filterByAcl_def filterByRole_def filterByStatus_def
    by (auto simp: aclLoop_filter listed_def conj_ac split: option.split intro!: filter_cong)
qed

text \<open>What a query is answered with, whatever the order, as a multiset: the peers that are listed.\<close>

definition anyOrder :: "peerOrder \<Rightarrow> bool" where
  "anyOrder visit \<longleftrightarrow> (\<forall>m. mset (visit m) = mset m)"

lemma listedPeers_perm:
  "anyOrder visit \<Longrightarrow> mset (listedPeers visit s now req) = mset (listedPeers id s now req)"
  by (simp add: anyOrder_def listedPeers_filter)

lemma distinct_listedPeers:
  assumes "registry_inv (pl_peerRegistry s)" "anyOrder visit"
  shows "distinct (listedPeers visit s now req)"
proof -
  have "distinct (map p_Id (List (pr_store (pl_peerRegistry s))))"
    using assms(1) by (simp add: map_fst_List) (simp add: registry_inv_def wf_store_def wf_gomap_def)
  then have "distinct (List (pr_store (pl_peerRegistry s)))" by (simp add: distinct_map)
  then have "distinct (listedPeers id s now req)"
    by (simp add: listedPeers_filter List_def)
  then show ?thesis
    using listedPeers_perm [OF assms(2)] by (metis mset_eq_imp_distinct_iff)
qed

text \<open>The orders that visit one entry first, or last.\<close>

definition visitFirst :: "string \<times> DdPeerInfo \<Rightarrow> peerOrder" where
  "visitFirst e m = (if e \<in> set m then e # remove1 e m else m)"

definition visitLast :: "string \<times> DdPeerInfo \<Rightarrow> peerOrder" where
  "visitLast e m = (if e \<in> set m then remove1 e m @ [e] else m)"

lemma visit_orders: "anyOrder (visitFirst e)" "anyOrder (visitLast e)"
  by (simp_all add: anyOrder_def visitFirst_def visitLast_def)

lemma visited:
  assumes "registry_inv (pl_peerRegistry s)" "p \<in> set (listedPeers id s now req)"
  obtains e ps where "listedPeers (visitFirst e) s now req = p # ps" "listedPeers (visitLast e) s now req = ps @ [p]"
    "p \<notin> set ps" "length (listedPeers id s now req) = Suc (length ps)"
proof -
  let ?m = "ms_peers (pr_store (pl_peerRegistry s))"
  obtain e where e: "e \<in> set ?m" "snd e = p" "listed s now req p"
    using assms(2) by (auto simp: listedPeers_filter)
  let ?ps = "filter (listed s now req) (map snd (remove1 e ?m))"
  have eq: "listedPeers (visitFirst e) s now req = p # ?ps" "listedPeers (visitLast e) s now req = ?ps @ [p]"
    using e by (simp_all add: listedPeers_filter visitFirst_def visitLast_def)
  moreover have "distinct (p # ?ps)"
    using distinct_listedPeers [OF assms(1) visit_orders(1), of e now req] unfolding eq .
  moreover have "length (listedPeers id s now req) = Suc (length ?ps)"
    using listedPeers_perm [OF visit_orders(1), of e s now req] unfolding eq by (metis length_Cons size_mset)
  ultimately show ?thesis using that by auto
qed

definition demoListQuery :: PeerListQuery where
  "demoListQuery = \<lparr>lq_RequestId = ''q'', lq_SourcePeerId = [], lq_ResourceFilter = ''r'',
     lq_RoleFilter = ''edge'', lq_StatusFilter = [], lq_PageSize = 10, lq_PageOffset = 9223372036854775800,
     lq_ReplyTo = ''back''\<rparr>"

text \<open>The query for page \<open>k\<close> of the size \<open>sz\<close>.\<close>

definition pageQuery :: "PeerListQuery \<Rightarrow> nat \<Rightarrow> nat \<Rightarrow> PeerListQuery" where
  "pageQuery req sz k = req\<lparr>lq_PageSize := int sz, lq_PageOffset := int (k * sz)\<rparr>"

definition pageOf :: "PeerListService \<Rightarrow> gotime \<Rightarrow> PeerListQuery \<Rightarrow> nat \<Rightarrow> peerOrder \<Rightarrow> nat \<Rightarrow> PeerListResponse option" where
  "pageOf s now req sz visit k = listResponse visit s now (pageQuery req sz k)"

lemma pageOf_response:
  assumes "0 < sz" "int sz \<le> pl_maxPageSize s" "int (Suc k * sz) < 2 ^ 63"
  shows "pageOf s now req sz visit k =
    (let ps = listedPeers visit s now req in
     Some \<lparr>lr_RequestId = lq_RequestId req, lr_CorrelationId = lq_RequestId req,
       lr_Peers = take sz (drop (k * sz) ps), lr_TotalCount = int (length ps),
       lr_PageOffset = int (k * sz), lr_HasMore = Suc k * sz < length ps\<rparr>)"
proof -
  have eff: "effectivePageSize (pl_maxPageSize s) (int sz) = int sz" "effectiveOffset (int (k * sz)) = int (k * sz)"
    using assms(1,2) by (simp_all add: effectivePageSize_def effectiveOffset_def del: of_nat_mult)
  have "int (k * sz) + int sz = int (Suc k * sz)" by (simp add: algebra_simps)
  then have "cutPage xs (int (k * sz)) (int sz) = Some (take sz (drop (k * sz) xs), Suc k * sz < length xs)" for xs :: "DdPeerInfo list"
    using cutPage_ok [of "int (k * sz)" "int sz" xs] assms(1,3) by (simp only: nat_int of_nat_less_iff of_nat_0_le_iff of_nat_0_less_iff)
  moreover have "listed s now (pageQuery req sz k) p = listed s now req p" for p
    unfolding listed_def pageQuery_def by (cases "pl_aclService s") (simp_all del: of_nat_mult)
  then have "listed s now (pageQuery req sz k) = listed s now req" by (rule ext)
  then have "listedPeers visit s now (pageQuery req sz k) = listedPeers visit s now req"
    by (simp only: listedPeers_filter)
  ultimately show ?thesis
    unfolding pageOf_def listResponse_def pageQuery_def by (simp add: Let_def eff del: of_nat_mult mult_Suc)
qed

lemma on_page_first:
  "p \<notin> set ps \<Longrightarrow> 0 < sz \<Longrightarrow> p \<in> set (take sz (drop (k * sz) (p # ps))) \<longleftrightarrow> k = 0"
  by (cases "k * sz") (auto dest!: in_set_takeD in_set_dropD, simp add: take_Cons')

lemma on_page_last:
  assumes "p \<notin> set ps" "0 < sz"
  shows "p \<in> set (take sz (drop (k * sz) (ps @ [p]))) \<longleftrightarrow> k = length ps div sz"
proof -
  have "p \<in> set (take sz (drop (k * sz) (ps @ [p]))) \<longleftrightarrow> k * sz \<le> length ps \<and> length ps < Suc k * sz"
  proof (cases "k * sz \<le> length ps")
    case True
    then have "take sz (drop (k * sz) (ps @ [p])) = take sz (drop (k * sz) ps) @ take (sz - (length ps - k * sz)) [p]"
      by simp
    moreover have "p \<notin> set (take sz (drop (k * sz) ps))"
      using assms(1) by (meson in_set_dropD in_set_takeD)
    ultimately show ?thesis
      using True by (cases "sz - (length ps - k * sz)") auto
  qed simp
  then show ?thesis
    using assms(2) by (metis div_nat_eqI div_times_less_eq_dividend dividend_less_div_times mult.commute mult_Suc)
qed

text \<open>
  C35: what paging through the list is worth. Each query ranges over the registry in an order of its own. Every page is
  right by itself: as many peers as fit, none of them twice, all of them listed, the right total, and the
  flag for more set exactly when the list goes on. Were the order the same for all queries, the
  pages together would be the list, each peer once. But the order is not kept, so the pages do not fit
  together: as soon as there is more than one page, every listed peer may be on the first
  page and again on the last, and may be missing from all of them.
\<close>

theorem pages_of_orders:
  assumes "registry_inv (pl_peerRegistry s)" "0 < sz" "int sz \<le> pl_maxPageSize s" "int (n * sz) < 2 ^ 63"
  shows "let ps = listedPeers id s now req; page = pageOf s now req sz; last = (length ps - 1) div sz in
    (\<forall>k<n. \<forall>visit. anyOrder visit \<longrightarrow> (\<exists>resp. page visit k = Some resp \<and> distinct (lr_Peers resp) \<and>
      set (lr_Peers resp) \<subseteq> set ps \<and> length (lr_Peers resp) = min sz (length ps - k * sz) \<and>
      lr_TotalCount resp = int (length ps) \<and> (lr_HasMore resp \<longleftrightarrow> Suc k * sz < length ps))) \<and>
    (length ps \<le> n * sz \<longrightarrow> (\<forall>visit. anyOrder visit \<longrightarrow>
      mset (concat (map (\<lambda>k. lr_Peers (the (page visit k))) [0..<n])) = mset ps)) \<and>
    (sz < length ps \<and> length ps \<le> n * sz \<longrightarrow> (\<forall>p \<in> set ps.
      (\<exists>visit. (\<forall>k. anyOrder (visit k)) \<and> p \<in> set (lr_Peers (the (page (visit 0) 0))) \<and>
        p \<in> set (lr_Peers (the (page (visit last) last)))) \<and>
      (\<exists>visit. (\<forall>k. anyOrder (visit k)) \<and> (\<forall>k<n. p \<notin> set (lr_Peers (the (page (visit k) k)))))))"
  unfolding Let_def
proof (intro conjI allI impI ballI)
  define page ps where defs: "page = pageOf s now req sz" "ps = listedPeers id s now req"
  have "int (Suc k * sz) < 2 ^ 63" if "k < n" for k
    using that assms(4) mult_right_mono [of "Suc k" n sz] by linarith
  then have page: "page visit k = Some \<lparr>lr_RequestId = lq_RequestId req, lr_CorrelationId = lq_RequestId req,
       lr_Peers = take sz (drop (k * sz) (listedPeers visit s now req)), lr_TotalCount = int (length (listedPeers visit s now req)),
       lr_PageOffset = int (k * sz), lr_HasMore = Suc k * sz < length (listedPeers visit s now req)\<rparr>" if "k < n" for visit k
    unfolding defs using that pageOf_response [OF assms(2,3)] by (simp add: Let_def)
  fix visit
  show "\<exists>resp. page visit k = Some resp \<and> distinct (lr_Peers resp) \<and> set (lr_Peers resp) \<subseteq> set ps \<and>
      length (lr_Peers resp) = min sz (length ps - k * sz) \<and> lr_TotalCount resp = int (length ps) \<and>
      (lr_HasMore resp \<longleftrightarrow> Suc k * sz < length ps)" if "k < n" "anyOrder visit" for k
    using that page listedPeers_perm [OF that(2), of s now req] distinct_listedPeers [OF assms(1) that(2), of now req]
      mset_eq_length [of "listedPeers visit s now req" ps] mset_eq_setD [of "listedPeers visit s now req" ps]
    by (auto simp: defs dest!: in_set_takeD in_set_dropD)
  show "mset (concat (map (\<lambda>k. lr_Peers (the (page visit k))) [0..<n])) = mset ps" if "length ps \<le> n * sz" "anyOrder visit"
  proof -
    have "map (\<lambda>k. lr_Peers (the (page visit k))) [0..<n] =
        map (\<lambda>k. take sz (drop (k * sz) (listedPeers visit s now req))) [0..<n]"
      using page by auto
    then show ?thesis
      using that listedPeers_perm [OF that(2), of s now req] mset_eq_length [of "listedPeers visit s now req" ps]
      by (simp only: concat_chunks defs) (simp add: defs)
  qed
  fix p assume long: "sz < length ps \<and> length ps \<le> n * sz" and p: "p \<in> set ps"
  obtain e rest where orders: "listedPeers (visitFirst e) s now req = p # rest"
      "listedPeers (visitLast e) s now req = rest @ [p]" "p \<notin> set rest" "length ps = Suc (length rest)"
    using visited [OF assms(1)] p unfolding defs by metis
  let ?last = "length rest div sz"
  have n: "0 < n" "?last < n" "?last \<noteq> 0"
    using long assms(2) orders(4) by (cases n; auto simp: div_less_iff_less_mult div_eq_0_iff)+
  have on_page: "p \<in> set (lr_Peers (the (page (visitFirst e) k))) \<longleftrightarrow> k = 0"
    "p \<in> set (lr_Peers (the (page (visitLast e) k))) \<longleftrightarrow> k = ?last" if "k < n" for k
    by (simp_all only: page [OF that] option.sel PeerListResponse.simps orders(1,2)
        on_page_first [OF orders(3) assms(2)] on_page_last [OF orders(3) assms(2)])
  have last: "length ps - 1 = length rest" using orders(4) by simp
  show "\<exists>visit. (\<forall>k. anyOrder (visit k)) \<and> p \<in> set (lr_Peers (the (page (visit 0) 0))) \<and>
      p \<in> set (lr_Peers (the (page (visit ((length ps - 1) div sz)) ((length ps - 1) div sz))))"
    unfolding last using n on_page visit_orders
    by (intro exI [of _ "\<lambda>k. if k = 0 then visitFirst e else visitLast e"]) auto
  show "\<exists>visit. (\<forall>k. anyOrder (visit k)) \<and> (\<forall>k<n. p \<notin> set (lr_Peers (the (page (visit k) k))))"
    using n on_page visit_orders
    by (intro exI [of _ "\<lambda>k. if k = ?last then visitFirst e else visitLast e"]) auto
qed

definition twoPeers :: PeerListService where
  "twoPeers = NewPeerListService (NewDefaultTopicSet ''t'') (demoInit\<lparr>pr_store := \<lparr>ms_peers =
     map (\<lambda>i. (i, (demoPeer i)\<lparr>p_Status := PeerStatusActive\<rparr>)) [''a'', ''b'']\<rparr>\<rparr>) None 100"

theorem pages_of_orders_witness:
  "\<exists>p visit. p \<in> set (listedPeers id twoPeers 2 demoListQuery) \<and> (\<forall>k. anyOrder (visit k)) \<and>
    (\<forall>k<2. p \<notin> set (lr_Peers (the (pageOf twoPeers 2 demoListQuery 1 (visit k) k))))"
proof -
  have inv: "registry_inv (pl_peerRegistry twoPeers)"
    by (auto simp: twoPeers_def NewPeerListService_def registry_inv_def wf_store_def wf_gomap_def demoPeer_def Get_def
        mem_store.keyed_def split: if_splits)
  have "0 < (1 :: nat)" "int 1 \<le> pl_maxPageSize twoPeers" "int (2 * 1) < 2 ^ 63"
    by (simp_all add: twoPeers_def NewPeerListService_def)
  note pages = pages_of_orders [OF inv this, where now = 2 and req = demoListQuery, unfolded Let_def, THEN conjunct2, THEN conjunct2]
  have "length (listedPeers id twoPeers 2 demoListQuery) = 2" by code_simp
  moreover from this have "hd (listedPeers id twoPeers 2 demoListQuery) \<in> set (listedPeers id twoPeers 2 demoListQuery)"
    by (intro hd_in_set) auto
  ultimately show ?thesis using pages by auto
qed

text \<open>
  The handler panics on exactly the queries whose offset plus the page size leaves the 64-bit
  visit, whatever peers are registered: there the sum wraps to a negative number and the slice
  has a negative end. Every other query is answered.
\<close>

lemma handleListQuery_panics:
  assumes "unmarshal payload = Some req" "pl_maxPageSize s < 2 ^ 63" "in_i64 (lq_PageOffset req)"
  shows "handleListQuery unmarshal marshal visit now s payload = None \<longleftrightarrow>
    2 ^ 63 \<le> lq_PageOffset req + effectivePageSize (pl_maxPageSize s) (lq_PageSize req)"
proof -
  let ?size = "effectivePageSize (pl_maxPageSize s) (lq_PageSize req)"
  have size: "0 < ?size" "?size < 2 ^ 63"
    using assms(2) by (auto simp: effectivePageSize_def)
  have "cutPage xs (effectiveOffset (lq_PageOffset req)) ?size = None \<longleftrightarrow> 2 ^ 63 \<le> lq_PageOffset req + ?size"
    for xs :: "DdPeerInfo list"
  proof (cases "2 ^ 63 \<le> lq_PageOffset req + ?size")
    case True
    with size have "effectiveOffset (lq_PageOffset req) = lq_PageOffset req"
      by (simp add: effectiveOffset_def)
    with True size assms(3) show ?thesis
      by (simp add: cutPage_overflow in_i64_def)
  next
    case False
    with size have "0 \<le> effectiveOffset (lq_PageOffset req)" "effectiveOffset (lq_PageOffset req) + ?size < 2 ^ 63"
      by (simp_all add: effectiveOffset_def)
    with False size show ?thesis
      by (simp add: cutPage_ok)
  qed
  then show ?thesis
    using assms(1) by (auto simp: handleListQuery_def listResponse_def Let_def split: option.split sum.split)
qed

end
