(* ===== verification/Auth_Peer.thy ===== *)
theory Auth_Peer
  imports Topics Mq
begin

text \<open>
  The authentication peer (\<open>service/auth_peer_service.go\<close>): the shared secrets, the
  handler of verify requests and the check of a token. \<open>hmac\<close> stands for
  \<open>hmac.New(sha256.New, key)\<close> written and summed, \<open>b64\<close> for
  \<open>base64.RawURLEncoding.EncodeToString\<close>; \<open>marshal\<close> for \<open>json.Marshal\<close>, whose error the
  code drops (a failed encoding is the empty payload).
\<close>

record AuthPeerService =
  au_topics :: TopicSet
  au_secrets :: "(string, string) gomap"
  au_authSecret :: string

record PeerAuthRequest =
  ar_RequestId :: string
  ar_PeerId :: string
  ar_Key :: string
  ar_Secret :: string
  ar_ReplyTo :: string

record PeerAuthResponse =
  as_RequestId :: string
  as_PeerId :: string
  as_Granted :: bool
  as_AuthToken :: string
  as_TtlSec :: int
  as_Reason :: string

definition NewAuthPeerService :: "TopicSet \<Rightarrow> (string, string) gomap \<Rightarrow> string \<Rightarrow> AuthPeerService" where
  "NewAuthPeerService topics secrets authSecret =
     \<lparr>au_topics = topics, au_secrets = secrets, au_authSecret = authSecret\<rparr>"

definition authStart ::
  "(string \<Rightarrow> go_error option) \<Rightarrow> AuthPeerService \<Rightarrow> go_error option \<times> (string \<times> unit) list" where
  "authStart subscribe s = subscribeAll subscribe [(ts_PeerAuthVerify (au_topics s), ())]"

definition SetSecret :: "AuthPeerService \<Rightarrow> string \<Rightarrow> string \<Rightarrow> AuthPeerService" where
  "SetSecret s key secret = s\<lparr>au_secrets := gm_set key secret (au_secrets s)\<rparr>"

definition generateAuthToken ::
  "(string \<Rightarrow> string \<Rightarrow> bytes) \<Rightarrow> (bytes \<Rightarrow> string) \<Rightarrow> string \<Rightarrow> string \<Rightarrow> string \<Rightarrow> string" where
  "generateAuthToken hmac b64 peerId peerSecret authSecret =
     b64 (hmac authSecret (peerId @ '':'' @ peerSecret))"

definition replyAuth ::
  "(PeerAuthResponse \<Rightarrow> bytes) \<Rightarrow> PeerAuthRequest \<Rightarrow> bool \<Rightarrow> string \<Rightarrow> string \<Rightarrow> outbox" where
  "replyAuth marshal req granted token reason =
     [(ar_ReplyTo req, marshal \<lparr>as_RequestId = ar_RequestId req, as_PeerId = ar_PeerId req,
        as_Granted = granted, as_AuthToken = token, as_TtlSec = 300, as_Reason = reason\<rparr>)]"

definition handleVerifyReq ::
  "(string \<Rightarrow> string \<Rightarrow> bytes) \<Rightarrow> (bytes \<Rightarrow> string) \<Rightarrow> (bytes \<Rightarrow> PeerAuthRequest option) \<Rightarrow>
     (PeerAuthResponse \<Rightarrow> bytes) \<Rightarrow> AuthPeerService \<Rightarrow> bytes \<Rightarrow> outbox" where
  "handleVerifyReq hmac b64 unmarshal marshal s payload =
    (case unmarshal payload of
       None \<Rightarrow> []
     | Some req \<Rightarrow>
        (case map_of (au_secrets s) (ar_Key req) of
           None \<Rightarrow> replyAuth marshal req False [] ''invalid key/secret''
         | Some expectedSecret \<Rightarrow>
             if expectedSecret \<noteq> ar_Secret req
             then replyAuth marshal req False [] ''invalid key/secret''
             else let token = generateAuthToken hmac b64 (ar_PeerId req) expectedSecret (au_authSecret s)
                  in replyAuth marshal req True token []))"

definition VerifyToken ::
  "(string \<Rightarrow> string \<Rightarrow> bytes) \<Rightarrow> (bytes \<Rightarrow> string) \<Rightarrow> AuthPeerService \<Rightarrow> string \<Rightarrow> string \<Rightarrow> string \<Rightarrow> bool" where
  "VerifyToken hmac b64 s token peerId key =
    (case map_of (au_secrets s) key of
       None \<Rightarrow> False
     | Some secret \<Rightarrow>
         let expected = generateAuthToken hmac b64 peerId secret (au_authSecret s)
         in token = expected)"

section \<open>Properties\<close>

text \<open>
  C38: a verify request is answered once, on its reply topic, with its own request id. It is
  granted exactly when the key is known and the secret is the one filed under it, and a
  granted token is accepted by \<open>VerifyToken\<close> for that peer and key. The token is bound
  to the text \<open>peer:secret\<close> only: it is accepted as well for every peer id and key whose
  secret completes it to the same text, which a colon in an id or a secret allows.
\<close>

theorem auth_grant_exact:
  assumes "unmarshal payload = Some req"
  shows "\<exists>resp. handleVerifyReq hmac b64 unmarshal marshal s payload = [(ar_ReplyTo req, marshal resp)] \<and>
    as_RequestId resp = ar_RequestId req \<and>
    (as_Granted resp \<longleftrightarrow> map_of (au_secrets s) (ar_Key req) = Some (ar_Secret req)) \<and>
    (as_Granted resp \<longrightarrow> VerifyToken hmac b64 s (as_AuthToken resp) (ar_PeerId req) (ar_Key req) \<and>
       (\<forall>peer key secret. map_of (au_secrets s) key = Some secret \<and>
          peer @ '':'' @ secret = ar_PeerId req @ '':'' @ ar_Secret req \<longrightarrow>
          VerifyToken hmac b64 s (as_AuthToken resp) peer key))"
  using assms
  by (auto simp: handleVerifyReq_def replyAuth_def VerifyToken_def generateAuthToken_def Let_def
      split: option.split)

definition demoAuth :: AuthPeerService where
  "demoAuth = SetSecret (NewAuthPeerService (NewDefaultTopicSet ''t'') [(''k1'', ''1:x'')] ''m'') ''k2'' ''x''"

definition demoVerify :: PeerAuthRequest where
  "demoVerify = \<lparr>ar_RequestId = ''r'', ar_PeerId = ''edge'', ar_Key = ''k1'', ar_Secret = ''1:x'', ar_ReplyTo = ''back''\<rparr>"

theorem auth_grant_exact_witness:
  "\<exists>resp :: PeerAuthResponse. as_Granted resp \<and>
    VerifyToken (\<lambda>k x. [1]) (\<lambda>d. ''tok'') demoAuth (as_AuthToken resp) ''edge'' ''k1'' \<and>
    VerifyToken (\<lambda>k x. [1]) (\<lambda>d. ''tok'') demoAuth (as_AuthToken resp) ''edge:1'' ''k2''"
proof -
  have known: "map_of (au_secrets demoAuth) (ar_Key demoVerify) = Some (ar_Secret demoVerify)"
    and other: "map_of (au_secrets demoAuth) ''k2'' = Some ''x'' \<and>
      ''edge:1'' @ '':'' @ ''x'' = ar_PeerId demoVerify @ '':'' @ ar_Secret demoVerify"
    and req: "ar_PeerId demoVerify = ''edge''" "ar_Key demoVerify = ''k1''"
    by code_simp+
  from auth_grant_exact [of "\<lambda>p. Some demoVerify" "[]" demoVerify "\<lambda>k x. [1]" "\<lambda>d. ''tok''" "\<lambda>r. [2]" demoAuth,
      OF refl]
  obtain resp :: PeerAuthResponse where "as_Granted resp \<longleftrightarrow> map_of (au_secrets demoAuth) (ar_Key demoVerify) = Some (ar_Secret demoVerify)"
    and ok: "as_Granted resp \<longrightarrow>
      VerifyToken (\<lambda>k x. [1]) (\<lambda>d. ''tok'') demoAuth (as_AuthToken resp) (ar_PeerId demoVerify) (ar_Key demoVerify) \<and>
      (\<forall>peer key secret. map_of (au_secrets demoAuth) key = Some secret \<and>
          peer @ '':'' @ secret = ar_PeerId demoVerify @ '':'' @ ar_Secret demoVerify \<longrightarrow>
          VerifyToken (\<lambda>k x. [1]) (\<lambda>d. ''tok'') demoAuth (as_AuthToken resp) peer key)"
    by blast
  with known have "as_Granted resp" by simp
  with ok other have "VerifyToken (\<lambda>k x. [1]) (\<lambda>d. ''tok'') demoAuth (as_AuthToken resp) ''edge:1'' ''k2''"
    "VerifyToken (\<lambda>k x. [1]) (\<lambda>d. ''tok'') demoAuth (as_AuthToken resp) (ar_PeerId demoVerify) (ar_Key demoVerify)"
    by blast+
  with \<open>as_Granted resp\<close> req show ?thesis by auto
qed

end
