(* ===== verification/Hub_Discovery.thy ===== *)
theory Hub_Discovery
  imports Topics Mq
begin

text \<open>
  Discovery of hubs and authentication peers (\<open>service/hub_discovery.go\<close>): the broadcast
  loop of a hub, the handlers of an edge that remember the last broadcast of each
  sender, and the look-ups that honour the lifetime a broadcast carries. A registered
  callback is a value of an arbitrary type and the handlers return the calls they make.
  \<open>marshal\<close> and \<open>unmarshal\<close> stand for \<open>encoding/json\<close>; the source drops the error of the
  former, so a failed encoding is the empty payload.
\<close>

section \<open>State and messages\<close>

record HubBroadcast =
  hb_HubId :: string
  hb_HubName :: string
  hb_RegisterTopic :: string
  hb_AuthTopic :: string
  hb_QueryTopic :: string
  hb_TtlSec :: int
  hb_Timestamp :: gotime

record AuthBroadcast =
  ab_AuthId :: string
  ab_AuthName :: string
  ab_VerifyTopic :: string
  ab_PublicKey :: string
  ab_TtlSec :: int
  ab_Timestamp :: gotime

record 'h HubDiscoveryService =
  hd_topics :: TopicSet
  hd_peerId :: string
  hd_peerName :: string
  hd_role :: string
  hd_interval :: duration
  hd_ttlSec :: int
  hd_stopClosed :: bool
  hd_activeHubs :: "(string, HubBroadcast) gomap"
  hd_activeAuth :: "(string, AuthBroadcast) gomap"
  hd_onHubDiscovered :: "'h option"
  hd_onAuthDiscovered :: "'h option"

definition NewHubDiscoveryService ::
  "TopicSet \<Rightarrow> string \<Rightarrow> string \<Rightarrow> string \<Rightarrow> duration \<Rightarrow> int \<Rightarrow> 'h HubDiscoveryService" where
  "NewHubDiscoveryService topics peerId peerName role interval ttlSec =
     \<lparr>hd_topics = topics, hd_peerId = peerId, hd_peerName = peerName, hd_role = role,
      hd_interval = interval, hd_ttlSec = ttlSec, hd_stopClosed = False,
      hd_activeHubs = [], hd_activeAuth = [],
      hd_onHubDiscovered = None, hd_onAuthDiscovered = None\<rparr>"

definition OnHubDiscovered :: "'h HubDiscoveryService \<Rightarrow> 'h option \<Rightarrow> 'h HubDiscoveryService" where
  "OnHubDiscovered s fn = s\<lparr>hd_onHubDiscovered := fn\<rparr>"

definition OnAuthDiscovered :: "'h HubDiscoveryService \<Rightarrow> 'h option \<Rightarrow> 'h HubDiscoveryService" where
  "OnAuthDiscovered s fn = s\<lparr>hd_onAuthDiscovered := fn\<rparr>"

section \<open>The sending side\<close>

definition hubBroadcastMsg :: "'h HubDiscoveryService \<Rightarrow> gotime \<Rightarrow> HubBroadcast" where
  "hubBroadcastMsg s now =
     \<lparr>hb_HubId = hd_peerId s, hb_HubName = hd_peerName s,
      hb_RegisterTopic = ts_PeerResourceRegister (hd_topics s),
      hb_AuthTopic = ts_PeerAuthVerify (hd_topics s), hb_QueryTopic = ts_PeerListQuery (hd_topics s),
      hb_TtlSec = hd_ttlSec s, hb_Timestamp = now\<rparr>"

definition hub_broadcast ::
  "(HubBroadcast \<Rightarrow> go_error + bytes) \<Rightarrow> 'h HubDiscoveryService \<Rightarrow> gotime \<Rightarrow> outbox" where
  "hub_broadcast marshal s now =
    (let msg = hubBroadcastMsg s now;
         data = (case marshal msg of Inl _ \<Rightarrow> [] | Inr data \<Rightarrow> data)
     in [(ts_HubBroadcast (hd_topics s), data)])"

definition authBroadcastMsg :: "'h HubDiscoveryService \<Rightarrow> gotime \<Rightarrow> string \<Rightarrow> string \<Rightarrow> AuthBroadcast" where
  "authBroadcastMsg s now verifyTopic publicKey =
     \<lparr>ab_AuthId = hd_peerId s, ab_AuthName = hd_peerName s, ab_VerifyTopic = verifyTopic,
      ab_PublicKey = publicKey, ab_TtlSec = hd_ttlSec s, ab_Timestamp = now\<rparr>"

definition BroadcastAuth ::
  "(AuthBroadcast \<Rightarrow> go_error + bytes) \<Rightarrow> 'h HubDiscoveryService \<Rightarrow> gotime \<Rightarrow> string \<Rightarrow> string \<Rightarrow> outbox" where
  "BroadcastAuth marshal s now verifyTopic publicKey =
    (let msg = authBroadcastMsg s now verifyTopic publicKey;
         data = (case marshal msg of Inl _ \<Rightarrow> [] | Inr data \<Rightarrow> data)
     in [(ts_AuthBroadcast (hd_topics s), data)])"

text \<open>What the loop's \<open>select\<close> wakes up for. The loop runs over the events the runtime
  delivers and returns at the first close of the stop channel; \<open>time.NewTicker\<close> panics
  (\<open>None\<close>) when the interval is not positive.\<close>

datatype loopEvent = StopClosed | Tick gotime

fun broadcastEvents ::
  "(HubBroadcast \<Rightarrow> go_error + bytes) \<Rightarrow> 'h HubDiscoveryService \<Rightarrow> loopEvent list \<Rightarrow> outbox" where
  "broadcastEvents marshal s [] = []"
| "broadcastEvents marshal s (StopClosed # events) = []"
| "broadcastEvents marshal s (Tick now # events) =
     hub_broadcast marshal s now @ broadcastEvents marshal s events"

definition startBroadcastLoop ::
  "(HubBroadcast \<Rightarrow> go_error + bytes) \<Rightarrow> 'h HubDiscoveryService \<Rightarrow> loopEvent list \<Rightarrow> outbox option" where
  "startBroadcastLoop marshal s events =
    (if hd_interval s \<le> 0 then None else Some (broadcastEvents marshal s events))"

text \<open>The handler of a subscription is named; the last component says whether the
  loop is started.\<close>

datatype hubHandler = HandleHub | HandleAuth

definition hubStart ::
  "(string \<Rightarrow> go_error option) \<Rightarrow> 'h HubDiscoveryService \<Rightarrow>
     go_error option \<times> (string \<times> hubHandler) list \<times> bool" where
  "hubStart subscribe s =
    (case subscribeAll subscribe [(ts_HubBroadcast (hd_topics s), HandleHub),
          (ts_AuthBroadcast (hd_topics s), HandleAuth)] of
       (Some err, subs) \<Rightarrow> (Some err, subs, False)
     | (None, subs) \<Rightarrow> (None, subs, hd_role s = ''hub'' \<or> hd_role s = ''edge_hub''))"

text \<open>Closing a closed channel panics.\<close>

definition hubStop :: "'h HubDiscoveryService \<Rightarrow> 'h HubDiscoveryService option" where
  "hubStop s = (if hd_stopClosed s then None else Some (s\<lparr>hd_stopClosed := True\<rparr>))"

section \<open>The receiving side\<close>

definition handleHubBroadcast ::
  "(bytes \<Rightarrow> HubBroadcast option) \<Rightarrow> 'h HubDiscoveryService \<Rightarrow> bytes \<Rightarrow>
     'h HubDiscoveryService \<times> ('h \<times> HubBroadcast) list" where
  "handleHubBroadcast unmarshal s payload =
    (case unmarshal payload of
       None \<Rightarrow> (s, [])
     | Some msg \<Rightarrow>
        let s = s\<lparr>hd_activeHubs := gm_set (hb_HubId msg) msg (hd_activeHubs s)\<rparr>
        in (s, case hd_onHubDiscovered s of None \<Rightarrow> [] | Some fn \<Rightarrow> [(fn, msg)]))"

definition handleAuthBroadcast ::
  "(bytes \<Rightarrow> AuthBroadcast option) \<Rightarrow> 'h HubDiscoveryService \<Rightarrow> bytes \<Rightarrow>
     'h HubDiscoveryService \<times> ('h \<times> AuthBroadcast) list" where
  "handleAuthBroadcast unmarshal s payload =
    (case unmarshal payload of
       None \<Rightarrow> (s, [])
     | Some msg \<Rightarrow>
        let s = s\<lparr>hd_activeAuth := gm_set (ab_AuthId msg) msg (hd_activeAuth s)\<rparr>
        in (s, case hd_onAuthDiscovered s of None \<Rightarrow> [] | Some fn \<Rightarrow> [(fn, msg)]))"

text \<open>The comparison the three look-ups share, and the loop that returns at the first
  entry that passes.\<close>

definition stillAlive :: "gotime \<Rightarrow> gotime \<Rightarrow> int \<Rightarrow> bool" where
  "stillAlive now timestamp ttlSec \<longleftrightarrow> time_sub now timestamp \<le> dur ttlSec Second"

fun firstActive :: "('m \<Rightarrow> bool) \<Rightarrow> ('k, 'm) gomap \<Rightarrow> 'm option" where
  "firstActive alive [] = None"
| "firstActive alive ((k, m) # ms) = (if alive m then Some m else firstActive alive ms)"

definition GetActiveHub :: "'h HubDiscoveryService \<Rightarrow> gotime \<Rightarrow> HubBroadcast option" where
  "GetActiveHub s now = firstActive (\<lambda>h. stillAlive now (hb_Timestamp h) (hb_TtlSec h)) (hd_activeHubs s)"

definition GetActiveAuth :: "'h HubDiscoveryService \<Rightarrow> gotime \<Rightarrow> AuthBroadcast option" where
  "GetActiveAuth s now = firstActive (\<lambda>a. stillAlive now (ab_Timestamp a) (ab_TtlSec a)) (hd_activeAuth s)"

definition ListActiveHubs :: "'h HubDiscoveryService \<Rightarrow> gotime \<Rightarrow> HubBroadcast list" where
  "ListActiveHubs s now =
     filter (\<lambda>h. stillAlive now (hb_Timestamp h) (hb_TtlSec h)) (map snd (hd_activeHubs s))"

section \<open>Lemmas\<close>

lemma hubBroadcastMsg_sel [simp]:
  "hb_HubId (hubBroadcastMsg s t) = hd_peerId s" "hb_TtlSec (hubBroadcastMsg s t) = hd_ttlSec s"
  "hb_Timestamp (hubBroadcastMsg s t) = t"
  by (simp_all add: hubBroadcastMsg_def)

lemma stillAlive_iff:
  assumes "0 \<le> ttlSec" "ttlSec < 2 ^ 32"
  shows "stillAlive now timestamp ttlSec \<longleftrightarrow> now - timestamp \<le> ttlSec * Second"
proof -
  have "in_i64 (ttlSec * Second)" "ttlSec * Second < 2 ^ 63 - 1"
    using assms by (simp_all add: in_i64_def Second_def)
  then show ?thesis
    using time_sub_gt_iff [of "ttlSec * Second" now timestamp]
    by (auto simp: stillAlive_def dur_def wrap64_id not_less [symmetric])
qed

lemma firstActive_case:
  "case firstActive alive ms of
     None \<Rightarrow> \<nexists>m. m \<in> snd ` set ms \<and> alive m
   | Some m \<Rightarrow> m \<in> snd ` set ms \<and> alive m"
  by (induction ms) (auto split: option.splits if_splits intro: rev_image_eqI)

lemma GetActiveHub_listed:
  "case GetActiveHub s now of
     None \<Rightarrow> ListActiveHubs s now = []
   | Some h \<Rightarrow> h \<in> set (ListActiveHubs s now)"
  using firstActive_case [where alive = "\<lambda>h. stillAlive now (hb_Timestamp h) (hb_TtlSec h)" and ms = "hd_activeHubs s"]
  by (auto simp: GetActiveHub_def ListActiveHubs_def filter_empty_conv split: option.splits)

text \<open>The latest announcement of a sender in a run of payloads, the newest first.\<close>

fun latest :: "('m \<Rightarrow> string) \<Rightarrow> (bytes \<Rightarrow> 'm option) \<Rightarrow> string \<Rightarrow> bytes list \<Rightarrow> 'm option" where
  "latest ident unmarshal i [] = None"
| "latest ident unmarshal i (p # ps) =
     (case unmarshal p of
        None \<Rightarrow> latest ident unmarshal i ps
      | Some m \<Rightarrow> if ident m = i then Some m else latest ident unmarshal i ps)"

definition keyed_by :: "('m \<Rightarrow> string) \<Rightarrow> (string, 'm) gomap \<Rightarrow> bool" where
  "keyed_by ident tab \<longleftrightarrow> wf_gomap tab \<and> (\<forall>k m. map_of tab k = Some m \<longrightarrow> ident m = k)"

lemma keyed_by_Nil [simp]: "keyed_by ident []"
  by (simp add: keyed_by_def)

lemma keyed_by_set: "keyed_by ident tab \<Longrightarrow> keyed_by ident (gm_set (ident m) m tab)"
  by (simp add: keyed_by_def gomap_simps)

lemma keyed_by_values:
  assumes "keyed_by ident tab"
  shows "m \<in> snd ` set tab \<longleftrightarrow> map_of tab (ident m) = Some m"
proof -
  have "m \<in> snd ` set tab \<longleftrightarrow> (\<exists>k. map_of tab k = Some m)"
    using assms by (force simp: keyed_by_def simp flip: in_gomap_iff)
  also have "\<dots> \<longleftrightarrow> map_of tab (ident m) = Some m"
    using assms by (auto simp: keyed_by_def)
  finally show ?thesis .
qed

text \<open>The contract of a handler of announcements: a payload that decodes replaces what the
  table has of its sender, and every other payload is dropped. Hubs and authentication peers
  are announced the same way.\<close>

locale announcements =
  fixes ident :: "'m \<Rightarrow> string"
    and unmarshal :: "bytes \<Rightarrow> 'm option"
    and tab :: "'s \<Rightarrow> (string, 'm) gomap"
    and handle :: "'s \<Rightarrow> bytes \<Rightarrow> 's"
  assumes handled: "tab (handle s p) =
      (case unmarshal p of None \<Rightarrow> tab s | Some m \<Rightarrow> gm_set (ident m) m (tab s))"
begin

lemma keyed_fold: "keyed_by ident (tab s) \<Longrightarrow> keyed_by ident (tab (fold (\<lambda>p s. handle s p) ps s))"
  by (induction ps arbitrary: s) (simp_all add: handled keyed_by_set split: option.split)

lemma map_of_fold:
  "map_of (tab (fold (\<lambda>p s. handle s p) ps s)) i =
     (case latest ident unmarshal i (rev ps) of None \<Rightarrow> map_of (tab s) i | Some m \<Rightarrow> Some m)"
  by (induction ps rule: rev_induct) (auto simp: handled gomap_simps split: option.split)

lemma values_fold:
  assumes "tab s = []"
  shows "m \<in> snd ` set (tab (fold (\<lambda>p s. handle s p) ps s)) \<longleftrightarrow>
    latest ident unmarshal (ident m) (rev ps) = Some m"
  using keyed_by_values [OF keyed_fold, of s m ps] assms
  by (simp add: map_of_fold split: option.split)

end

interpretation hubs: announcements hb_HubId unmarshal hd_activeHubs
    "\<lambda>s p. fst (handleHubBroadcast unmarshal s p)" for unmarshal
  by unfold_locales (simp add: handleHubBroadcast_def Let_def split: option.split)

interpretation auths: announcements ab_AuthId unmarshal hd_activeAuth
    "\<lambda>s p. fst (handleAuthBroadcast unmarshal s p)" for unmarshal
  by unfold_locales (simp add: handleAuthBroadcast_def Let_def split: option.split)

text \<open>The state of an edge after a run of payloads on either topic.\<close>

definition receiveHubs ::
  "(bytes \<Rightarrow> HubBroadcast option) \<Rightarrow> 'h HubDiscoveryService \<Rightarrow> bytes list \<Rightarrow> 'h HubDiscoveryService" where
  "receiveHubs unmarshal s payloads = fold (\<lambda>p s. fst (handleHubBroadcast unmarshal s p)) payloads s"

definition receiveAuths ::
  "(bytes \<Rightarrow> AuthBroadcast option) \<Rightarrow> 'h HubDiscoveryService \<Rightarrow> bytes list \<Rightarrow> 'h HubDiscoveryService" where
  "receiveAuths unmarshal s payloads = fold (\<lambda>p s. fst (handleAuthBroadcast unmarshal s p)) payloads s"

definition hubs_inv :: "'h HubDiscoveryService \<Rightarrow> bool" where
  "hubs_inv s \<longleftrightarrow> keyed_by hb_HubId (hd_activeHubs s)"

lemma New_tables [simp]:
  "hd_activeHubs (NewHubDiscoveryService topics i n r d t) = []"
  "hd_activeAuth (NewHubDiscoveryService topics i n r d t) = []"
  by (simp_all add: NewHubDiscoveryService_def)

lemma hubs_inv_receive: "hubs_inv s \<Longrightarrow> hubs_inv (receiveHubs unmarshal s ps)"
  unfolding hubs_inv_def receiveHubs_def by (rule hubs.keyed_fold)

lemma in_ListActiveHubs:
  "h \<in> set (ListActiveHubs s now) \<longleftrightarrow>
     h \<in> snd ` set (hd_activeHubs s) \<and> stillAlive now (hb_Timestamp h) (hb_TtlSec h)"
  by (auto simp: ListActiveHubs_def)

lemma broadcastEvents_ticks:
  "broadcastEvents marshal s (map Tick ticks @ StopClosed # rest) =
     concat (map (hub_broadcast marshal s) ticks)"
  by (induction ticks) auto

lemma payloads_of_ticks:
  assumes "\<forall>t \<in> set ticks. marshal (hubBroadcastMsg s t) = Inr (enc t)"
  shows "map snd (concat (map (hub_broadcast marshal s) ticks)) = map enc ticks"
  using assms by (induction ticks) (auto simp: hub_broadcast_def Let_def)

lemma latest_of_ticks:
  assumes "\<forall>t \<in> set ticks. unmarshal (enc t) = Some (hubBroadcastMsg s t)" "ticks \<noteq> []"
  shows "latest hb_HubId unmarshal i (rev (map enc ticks)) =
    (if i = hd_peerId s then Some (hubBroadcastMsg s (last ticks)) else None)"
proof (cases "i = hd_peerId s")
  case True
  with assms show ?thesis
    by (cases ticks rule: rev_cases) auto
next
  case False
  with assms(1) show ?thesis
    by (induction ticks rule: rev_induct) auto
qed

section \<open>Properties\<close>

text \<open>
  C34: what an edge knows after any run of payloads, malformed ones included: the hubs
  it lists are exactly the latest broadcast of each sender, as long as it is not older than
  the lifetime it carries, and \<open>GetActiveHub\<close> finds one of them whenever there is one. The
  same holds of authentication peers and \<open>GetActiveAuth\<close>.
\<close>

theorem discovery_view_exact:
  "let edge = receiveHubs unmarshal (NewHubDiscoveryService topics i n r d t :: 'h HubDiscoveryService) payloads;
       edge' = receiveAuths unmarshal' (NewHubDiscoveryService topics i n r d t :: 'h HubDiscoveryService) payloads
   in (\<forall>h. h \<in> set (ListActiveHubs edge now) \<longleftrightarrow>
      latest hb_HubId unmarshal (hb_HubId h) (rev payloads) = Some h \<and>
      stillAlive now (hb_Timestamp h) (hb_TtlSec h)) \<and>
    (case GetActiveHub edge now of
       None \<Rightarrow> ListActiveHubs edge now = []
     | Some h \<Rightarrow> h \<in> set (ListActiveHubs edge now)) \<and>
    (case GetActiveAuth edge' now of
       None \<Rightarrow> \<nexists>a. latest ab_AuthId unmarshal' (ab_AuthId a) (rev payloads) = Some a \<and>
         stillAlive now (ab_Timestamp a) (ab_TtlSec a)
     | Some a \<Rightarrow> latest ab_AuthId unmarshal' (ab_AuthId a) (rev payloads) = Some a \<and>
         stillAlive now (ab_Timestamp a) (ab_TtlSec a))"
  unfolding Let_def
proof (intro conjI allI)
  let ?new = "NewHubDiscoveryService topics i n r d t :: 'h HubDiscoveryService"
  let ?edge = "receiveHubs unmarshal ?new payloads"
  let ?auth = "receiveAuths unmarshal' ?new payloads"
  show "h \<in> set (ListActiveHubs ?edge now) \<longleftrightarrow>
      latest hb_HubId unmarshal (hb_HubId h) (rev payloads) = Some h \<and>
      stillAlive now (hb_Timestamp h) (hb_TtlSec h)" for h
    unfolding in_ListActiveHubs receiveHubs_def by (simp add: hubs.values_fold)
  show "case GetActiveHub ?edge now of
       None \<Rightarrow> ListActiveHubs ?edge now = []
     | Some h \<Rightarrow> h \<in> set (ListActiveHubs ?edge now)"
    by (rule GetActiveHub_listed)
  have "a \<in> snd ` set (hd_activeAuth ?auth) \<longleftrightarrow>
      latest ab_AuthId unmarshal' (ab_AuthId a) (rev payloads) = Some a" for a
    unfolding receiveAuths_def by (simp add: auths.values_fold)
  then show "case GetActiveAuth ?auth now of
       None \<Rightarrow> \<nexists>a. latest ab_AuthId unmarshal' (ab_AuthId a) (rev payloads) = Some a \<and>
         stillAlive now (ab_Timestamp a) (ab_TtlSec a)
     | Some a \<Rightarrow> latest ab_AuthId unmarshal' (ab_AuthId a) (rev payloads) = Some a \<and>
         stillAlive now (ab_Timestamp a) (ab_TtlSec a)"
    using firstActive_case [where alive = "\<lambda>a. stillAlive now (ab_Timestamp a) (ab_TtlSec a)" and ms = "hd_activeAuth ?auth"]
    by (simp only: GetActiveAuth_def)
qed

text \<open>
  A hub that runs its broadcast loop is known to an edge that gets the broadcasts,
  whatever the edge heard before: the edge lists it, with the topics of the hub, up to and including
  \<open>ttl_sec\<close> seconds after the last tick, and no longer; the hubs with another id are
  not affected.
\<close>

lemma hub_announced:
  fixes edge :: "'e HubDiscoveryService" and hub :: "'h HubDiscoveryService"
  assumes json_writes: "\<forall>t \<in> set ticks. marshal (hubBroadcastMsg hub t) = Inr (enc t)"
    and json_reads_back: "\<forall>t \<in> set ticks. unmarshal (enc t) = Some (hubBroadcastMsg hub t)"
    and edge: "hubs_inv edge"
    and interval: "0 < hd_interval hub"
    and ttl: "0 \<le> hd_ttlSec hub" "hd_ttlSec hub < 2 ^ 32"
    and ticked: "ticks \<noteq> []"
  shows "\<exists>out. startBroadcastLoop marshal hub (map Tick ticks @ StopClosed # rest) = Some out \<and>
    (\<forall>h. h \<in> set (ListActiveHubs (receiveHubs unmarshal edge (map snd out)) now) \<longleftrightarrow>
      (if hb_HubId h = hd_peerId hub
       then h = hubBroadcastMsg hub (last ticks) \<and> now - last ticks \<le> hd_ttlSec hub * Second
       else h \<in> set (ListActiveHubs edge now)))"
proof (intro exI conjI)
  let ?out = "broadcastEvents marshal hub (map Tick ticks @ StopClosed # rest)"
  show "startBroadcastLoop marshal hub (map Tick ticks @ StopClosed # rest) = Some ?out"
    using interval by (simp add: startBroadcastLoop_def)
  have "map snd ?out = map enc ticks"
    by (simp only: broadcastEvents_ticks payloads_of_ticks [OF json_writes])
  then have "map_of (hd_activeHubs (receiveHubs unmarshal edge (map snd ?out))) i =
      (if i = hd_peerId hub then Some (hubBroadcastMsg hub (last ticks)) else map_of (hd_activeHubs edge) i)" for i
    using latest_of_ticks [OF json_reads_back ticked, of i]
    by (simp add: receiveHubs_def hubs.map_of_fold)
  moreover have "keyed_by hb_HubId (hd_activeHubs (receiveHubs unmarshal edge (map snd ?out)))"
      "keyed_by hb_HubId (hd_activeHubs edge)"
    using edge hubs_inv_receive [OF edge, of unmarshal] by (simp_all add: hubs_inv_def)
  ultimately show "\<forall>h. h \<in> set (ListActiveHubs (receiveHubs unmarshal edge (map snd ?out)) now) \<longleftrightarrow>
      (if hb_HubId h = hd_peerId hub
       then h = hubBroadcastMsg hub (last ticks) \<and> now - last ticks \<le> hd_ttlSec hub * Second
       else h \<in> set (ListActiveHubs edge now))"
    using stillAlive_iff [OF ttl] by (auto simp: in_ListActiveHubs keyed_by_values)
qed

end
