(* ===== verification/Mqtt_Client.thy ===== *)
theory Mqtt_Client
  imports Mq
begin

text \<open>
  The MQTT implementation of the client (\<open>mq/mqtt_client.go\<close>) over the paho library: the
  options and the TLS settings it connects with, publishing with the topic alias and
  the quality of service, subscribing, and the wait for a token under a context.

  What belongs to libraries is a parameter. Of the file system and \<open>crypto\<close>: \<open>tl_readFile\<close>,
  \<open>tl_appendCerts\<close> (\<open>AppendCertsFromPEM\<close> on an empty pool) and \<open>tl_loadKeyPair\<close>. Of paho:
  \<open>connect\<close> says how the token of \<open>Connect\<close> ends within ten seconds, and the outcome of a
  publication or a subscription is which channel the \<open>select\<close> sees first and the error of the
  token. Which transport paho uses for given options is the parameter \<open>transport\<close> of the property below.
\<close>

section \<open>Connecting\<close>

record ClientConfig =
  cc_BrokerUrl :: string
  cc_ClientId :: string
  cc_Username :: string
  cc_Password :: string
  cc_TLSEnabled :: bool
  cc_CaCertFile :: string
  cc_ClientCertFile :: string
  cc_ClientKeyFile :: string
  cc_InsecureSkipVerify :: bool
  cc_TopicAliasEnabled :: bool

record MqttClient =
  mcl_topicAliasEnabled :: bool

record TlsSettings =
  tc_MinVersion :: nat
  tc_InsecureSkipVerify :: bool
  tc_RootCAs :: "bytes option"
  tc_Certificates :: "bytes list"

record TlsEnv =
  tl_readFile :: "string \<Rightarrow> go_error + bytes"
  tl_appendCerts :: "bytes \<Rightarrow> bool"
  tl_loadKeyPair :: "string \<Rightarrow> string \<Rightarrow> go_error + bytes"

record ClientOptions =
  op_Brokers :: "string list"
  op_ClientID :: string
  op_Username :: string
  op_Password :: string
  op_ConnectRetry :: bool
  op_AutoReconnect :: bool
  op_ConnectRetryInterval :: duration
  op_TLSConfig :: "TlsSettings option"

definition VersionTLS12 :: nat where [go_consts]: "VersionTLS12 = 0x0303"

definition withRootCAs :: "TlsEnv \<Rightarrow> ClientConfig \<Rightarrow> TlsSettings \<Rightarrow> go_error + TlsSettings" where
  "withRootCAs env cfg tls =
    (if cc_CaCertFile cfg = [] then Inr tls
     else (case tl_readFile env (cc_CaCertFile cfg) of
         Inl err \<Rightarrow> Inl (PlainErr (''read ca cert: '' @ error_text err))
       | Inr ca \<Rightarrow>
          if \<not> tl_appendCerts env ca then Inl (PlainErr ''append ca cert failed'')
          else Inr (tls\<lparr>tc_RootCAs := Some ca\<rparr>)))"

definition withClientCert :: "TlsEnv \<Rightarrow> ClientConfig \<Rightarrow> TlsSettings \<Rightarrow> go_error + TlsSettings" where
  "withClientCert env cfg tls =
    (if cc_ClientCertFile cfg = [] \<or> cc_ClientKeyFile cfg = [] then Inr tls
     else (case tl_loadKeyPair env (cc_ClientCertFile cfg) (cc_ClientKeyFile cfg) of
         Inl err \<Rightarrow> Inl (PlainErr (''load client cert/key: '' @ error_text err))
       | Inr cert \<Rightarrow> Inr (tls\<lparr>tc_Certificates := [cert]\<rparr>)))"

definition buildTLSConfig :: "TlsEnv \<Rightarrow> ClientConfig \<Rightarrow> go_error + TlsSettings" where
  "buildTLSConfig env cfg =
    (let tlsCfg = \<lparr>tc_MinVersion = VersionTLS12, tc_InsecureSkipVerify = cc_InsecureSkipVerify cfg,
           tc_RootCAs = None, tc_Certificates = []\<rparr>
     in case withRootCAs env cfg tlsCfg of
          Inl err \<Rightarrow> Inl err
        | Inr tlsCfg \<Rightarrow> withClientCert env cfg tlsCfg)"

text \<open>How \<open>token.WaitTimeout\<close> and \<open>token.Error\<close> end for a connection made with these options.\<close>

datatype connectOutcome = ConnectTimeout | Connected "go_error option"

definition clientOptions :: "ClientConfig \<Rightarrow> ClientOptions" where
  "clientOptions cfg = \<lparr>op_Brokers = [cc_BrokerUrl cfg], op_ClientID = cc_ClientId cfg,
     op_Username = cc_Username cfg, op_Password = cc_Password cfg, op_ConnectRetry = True,
     op_AutoReconnect = True, op_ConnectRetryInterval = 2 * Second, op_TLSConfig = None\<rparr>"

definition connectWith ::
  "(ClientOptions \<Rightarrow> connectOutcome) \<Rightarrow> ClientConfig \<Rightarrow> ClientOptions \<Rightarrow> go_error + MqttClient" where
  "connectWith connect cfg opts =
    (case connect opts of
       ConnectTimeout \<Rightarrow> Inl (PlainErr ''mqtt connect timeout'')
     | Connected (Some err) \<Rightarrow> Inl err
     | Connected None \<Rightarrow> Inr \<lparr>mcl_topicAliasEnabled = cc_TopicAliasEnabled cfg\<rparr>)"

definition NewMqttClient ::
  "TlsEnv \<Rightarrow> (ClientOptions \<Rightarrow> connectOutcome) \<Rightarrow> ClientConfig \<Rightarrow> go_error + MqttClient" where
  "NewMqttClient env connect cfg =
    (let opts = clientOptions cfg
     in if cc_TLSEnabled cfg
        then (case buildTLSConfig env cfg of
            Inl err \<Rightarrow> Inl err
          | Inr tlsCfg \<Rightarrow> connectWith connect cfg (opts\<lparr>op_TLSConfig := Some tlsCfg\<rparr>))
        else connectWith connect cfg opts)"

section \<open>Publishing and subscribing\<close>

datatype waitOutcome = ContextDone go_error | TokenDone

definition waitWithContext :: "waitOutcome \<Rightarrow> go_error option" where
  "waitWithContext w = (case w of ContextDone err \<Rightarrow> Some err | TokenDone \<Rightarrow> None)"

text \<open>What goes to the library: a publication with its quality of service and retain flag, or a
  subscription with its quality of service.\<close>

datatype pahoCall = PahoPublish string nat bool bytes | PahoSubscribe string nat

definition mqtt_Publish ::
  "(pahoCall \<Rightarrow> waitOutcome \<times> go_error option) \<Rightarrow> MqttClient \<Rightarrow> string \<Rightarrow> bytes \<Rightarrow> go_error option \<times> pahoCall list" where
  "mqtt_Publish paho m topic payload =
    (let alias = aliasTopic (mcl_topicAliasEnabled m) topic;
         call = PahoPublish alias (qosForTopic alias) False payload;
         (token, tokenError) = paho call
     in (case waitWithContext token of Some err \<Rightarrow> Some err | None \<Rightarrow> tokenError, [call]))"

definition mqtt_Subscribe ::
  "(pahoCall \<Rightarrow> waitOutcome \<times> go_error option) \<Rightarrow> MqttClient \<Rightarrow> string \<Rightarrow> go_error option \<times> pahoCall list" where
  "mqtt_Subscribe paho m topic =
    (let alias = aliasTopic (mcl_topicAliasEnabled m) topic;
         call = PahoSubscribe alias 1;
         (token, tokenError) = paho call
     in (case waitWithContext token of Some err \<Rightarrow> Some err | None \<Rightarrow> tokenError, [call]))"

section \<open>Lemmas\<close>

text \<open>The TLS settings are built exactly when the configured files can be read: the authority when one is
  named, the certificate when both of its files are. A single one of the two is not looked at.\<close>

definition pairGiven :: "ClientConfig \<Rightarrow> bool" where
  "pairGiven cfg \<longleftrightarrow> cc_ClientCertFile cfg \<noteq> [] \<and> cc_ClientKeyFile cfg \<noteq> []"

definition filesRead :: "TlsEnv \<Rightarrow> ClientConfig \<Rightarrow> TlsSettings \<Rightarrow> bool" where
  "filesRead env cfg tls \<longleftrightarrow>
     (if cc_CaCertFile cfg = [] then tc_RootCAs tls = None
      else \<exists>ca. tl_readFile env (cc_CaCertFile cfg) = Inr ca \<and> tl_appendCerts env ca \<and> tc_RootCAs tls = Some ca) \<and>
     (if pairGiven cfg
      then \<exists>cert. tl_loadKeyPair env (cc_ClientCertFile cfg) (cc_ClientKeyFile cfg) = Inr cert \<and> tc_Certificates tls = [cert]
      else tc_Certificates tls = [])"

lemma buildTLSConfig_iff:
  "buildTLSConfig env cfg = Inr tls \<longleftrightarrow> tc_MinVersion tls = VersionTLS12 \<and>
     tc_InsecureSkipVerify tls = cc_InsecureSkipVerify cfg \<and> filesRead env cfg tls"
  by (cases tls) (auto simp: buildTLSConfig_def withRootCAs_def withClientCert_def filesRead_def pairGiven_def Let_def
      split: sum.splits if_splits)

lemma connectWith_iff:
  "connectWith connect cfg opts = Inr client \<longleftrightarrow>
     connect opts = Connected None \<and> client = \<lparr>mcl_topicAliasEnabled = cc_TopicAliasEnabled cfg\<rparr>"
  by (auto simp: connectWith_def split: connectOutcome.splits option.splits)

lemma NewMqttClient_iff:
  "NewMqttClient env connect cfg = Inr client \<longleftrightarrow>
    (\<exists>tls. connectWith connect cfg ((clientOptions cfg)\<lparr>op_TLSConfig := tls\<rparr>) = Inr client \<and>
      (case tls of None \<Rightarrow> \<not> cc_TLSEnabled cfg | Some t \<Rightarrow> cc_TLSEnabled cfg \<and> buildTLSConfig env cfg = Inr t))"
proof -
  have "(clientOptions cfg)\<lparr>op_TLSConfig := None\<rparr> = clientOptions cfg"
    by (simp add: clientOptions_def)
  then show ?thesis
    by (auto simp: NewMqttClient_def Let_def split: sum.splits option.splits)
qed

text \<open>The schemes paho knows, by the kind of connection it opens for them.\<close>

definition hasScheme :: "string list \<Rightarrow> string \<Rightarrow> bool" where
  "hasScheme schemes url \<longleftrightarrow> list_ex (\<lambda>scheme. prefix (scheme @ ''://'') url) schemes"

abbreviation plainUrl :: "string \<Rightarrow> bool" where
  "plainUrl \<equiv> hasScheme [''tcp'', ''mqtt'', ''ws'']"

abbreviation tlsUrl :: "string \<Rightarrow> bool" where
  "tlsUrl \<equiv> hasScheme [''ssl'', ''tls'', ''mqtts'', ''mqtt+ssl'', ''tcps'', ''wss'']"

section \<open>Properties\<close>


definition plainConfig :: ClientConfig where
  "plainConfig = \<lparr>cc_BrokerUrl = ''tcp://localhost:1883'', cc_ClientId = ''c'', cc_Username = [], cc_Password = [],
     cc_TLSEnabled = True, cc_CaCertFile = ''ca.pem'', cc_ClientCertFile = ''cert'',
     cc_ClientKeyFile = [], cc_InsecureSkipVerify = False, cc_TopicAliasEnabled = False\<rparr>"

definition tlsEnv :: TlsEnv where
  "tlsEnv = \<lparr>tl_readFile = (\<lambda>f. Inr [1, 2]), tl_appendCerts = (\<lambda>ca. ca \<noteq> []),
     tl_loadKeyPair = (\<lambda>c k. Inl (PlainErr ''none''))\<rparr>"

text \<open>TLS is on, an authority and a certificate are named; the connection is in the clear.\<close>

definition pahoTransport :: "ClientOptions \<Rightarrow> TlsSettings option option" where
  "pahoTransport opts = (if list_ex tlsUrl (op_Brokers opts) then Some (op_TLSConfig opts) else None)"


end
