(* ===== verification/Coap_Queue.thy ===== *)
theory Coap_Queue
  imports Bridges
begin

text \<open>
  The queue of the CoAP bridge (\<open>adapter/coap_bridge.go\<close>) under concurrency. \<open>enqueueTask\<close>, \<open>worker\<close> and
  \<open>Stop\<close> run in goroutines of their own, so each is cut where another can run in between: an
  enqueuer between its two \<open>select\<close>s, a worker between taking a task and returning to the channel,
  \<open>Stop\<close> between closing \<open>stopCh\<close>, closing \<open>reqCh\<close> and the end of \<open>wg.Wait\<close>. The fields of the
  bridge are those of \<open>CoapBridge\<close> in theory \<open>Bridges\<close>; a handler is one step. The lists of
  accepted, taken and handled tasks record what happened.
\<close>

section \<open>State and steps\<close>

record CoapQueue =
  cq_bridge :: CoapBridge
  cq_reqClosed :: bool
  cq_workers :: nat
  cq_checked :: "coapTask list"
  cq_busy :: "coapTask list"
  cq_accepted :: "coapTask list"
  cq_taken :: "coapTask list"
  cq_handled :: "coapTask list"
  cq_panicked :: bool

definition coapWorkerCount :: nat where [go_consts]: "coapWorkerCount = 8"

definition startQueue :: "TopicSet \<Rightarrow> string \<Rightarrow> string \<Rightarrow> CoapQueue" where
  "startQueue topics peerId url = \<lparr>cq_bridge = NewCoapBridge topics peerId url, cq_reqClosed = False,
     cq_workers = coapWorkerCount, cq_checked = [], cq_busy = [], cq_accepted = [], cq_taken = [],
     cq_handled = [], cq_panicked = False\<rparr>"

text \<open>The first \<open>select\<close> of \<open>enqueueTask\<close> returns when \<open>stopCh\<close> is closed. The second one puts the task
  in the channel, or dead-letters it when the channel is full; a send on a closed channel panics,
  in a \<open>select\<close> with a \<open>default\<close> as well.\<close>

definition enqueueCheck :: "coapTask \<Rightarrow> CoapQueue \<Rightarrow> CoapQueue" where
  "enqueueCheck task q = (if cbr_stopped (cq_bridge q) then q else q\<lparr>cq_checked := task # cq_checked q\<rparr>)"

definition enqueueSend :: "BridgeEnv \<Rightarrow> gotime \<Rightarrow> coapTask \<Rightarrow> CoapQueue \<Rightarrow> CoapQueue \<times> outbox" where
  "enqueueSend env now task q =
    (let b = cq_bridge q; q = q\<lparr>cq_checked := remove1 task (cq_checked q)\<rparr> in
     if cq_reqClosed q then (q\<lparr>cq_panicked := True\<rparr>, [])
     else if length (cbr_reqCh b) < cbr_queueSize b
     then (q\<lparr>cq_bridge := b\<lparr>cbr_reqCh := cbr_reqCh b @ [task]\<rparr>, cq_accepted := cq_accepted q @ [task]\<rparr>, [])
     else let (reason, mode) = (if ct_isSync task then (''sync_queue_full'', ''sync'')
                else (''async_queue_full'', ''async''))
          in (q\<lparr>cq_bridge := coapCount (BridgeRequestsTotal ''coap'' mode ''queue_full'') b\<rparr>,
              coap_publishDLQ env now b reason (ct_topic task) (ct_payload task)))"

text \<open>A worker takes the oldest task, handles it, and leaves when the channel is closed and empty.\<close>

definition takeTask :: "CoapQueue \<Rightarrow> CoapQueue" where
  "takeTask q = (case cbr_reqCh (cq_bridge q) of
      [] \<Rightarrow> q
    | task # tasks \<Rightarrow> q\<lparr>cq_bridge := (cq_bridge q)\<lparr>cbr_reqCh := tasks\<rparr>, cq_busy := task # cq_busy q,
        cq_taken := cq_taken q @ [task]\<rparr>)"

definition handleTask ::
  "BridgeEnv \<Rightarrow> (string \<Rightarrow> bool) \<Rightarrow> (nat \<Rightarrow> bytes \<Rightarrow> coapOutcome) \<Rightarrow> (nat \<Rightarrow> gotime) \<Rightarrow> gotime \<Rightarrow> gotime \<Rightarrow>
     coapTask \<Rightarrow> CoapQueue \<Rightarrow> CoapQueue \<times> outbox" where
  "handleTask env resolves call clock start now task q =
    (case (if ct_isSync task then coap_handleSyncRequest env resolves call clock start now (cq_bridge q)
             (ct_topic task) (ct_payload task)
           else coap_handleAsyncEvent env resolves call clock start now (cq_bridge q)
             (ct_topic task) (ct_payload task)) of
       None \<Rightarrow> (q\<lparr>cq_panicked := True\<rparr>, [])
     | Some (b, out) \<Rightarrow> (q\<lparr>cq_bridge := b, cq_busy := remove1 task (cq_busy q),
         cq_handled := cq_handled q @ [task]\<rparr>, out))"

text \<open>\<open>Stop\<close>, which \<open>stopOnce\<close> lets run once: it closes \<open>stopCh\<close>, then \<open>reqCh\<close>, and waits for the workers.\<close>

definition closeStopCh :: "CoapQueue \<Rightarrow> CoapQueue" where
  "closeStopCh q = q\<lparr>cq_bridge := coapStop (cq_bridge q)\<rparr>"

definition closeReqCh :: "CoapQueue \<Rightarrow> CoapQueue" where
  "closeReqCh q = q\<lparr>cq_reqClosed := True\<rparr>"

inductive queue_step :: "CoapQueue \<Rightarrow> CoapQueue \<Rightarrow> bool" where
  arrive: "\<not> cq_panicked q \<Longrightarrow> queue_step q (enqueueCheck task q)"
| send: "\<not> cq_panicked q \<Longrightarrow> task \<in> set (cq_checked q) \<Longrightarrow> queue_step q (fst (enqueueSend env now task q))"
| take_task: "\<not> cq_panicked q \<Longrightarrow> length (cq_busy q) < cq_workers q \<Longrightarrow> cbr_reqCh (cq_bridge q) \<noteq> [] \<Longrightarrow>
    queue_step q (takeTask q)"
| handle: "\<not> cq_panicked q \<Longrightarrow> task \<in> set (cq_busy q) \<Longrightarrow>
    queue_step q (fst (handleTask env resolves call clock start now task q))"
| leave: "\<not> cq_panicked q \<Longrightarrow> length (cq_busy q) < cq_workers q \<Longrightarrow> cbr_reqCh (cq_bridge q) = [] \<Longrightarrow>
    cq_reqClosed q \<Longrightarrow> queue_step q (q\<lparr>cq_workers := cq_workers q - 1\<rparr>)"
| stop: "\<not> cq_panicked q \<Longrightarrow> \<not> cbr_stopped (cq_bridge q) \<Longrightarrow> queue_step q (closeStopCh q)"
| close: "\<not> cq_panicked q \<Longrightarrow> cbr_stopped (cq_bridge q) \<Longrightarrow> \<not> cq_reqClosed q \<Longrightarrow> queue_step q (closeReqCh q)"

definition queue_reachable :: "CoapQueue \<Rightarrow> bool" where
  "queue_reachable q \<longleftrightarrow> (\<exists>topics peerId url. queue_step\<^sup>*\<^sup>* (startQueue topics peerId url) q)"

text \<open>\<open>Stop\<close> has returned when the last worker has left.\<close>

definition stopReturned :: "CoapQueue \<Rightarrow> bool" where
  "stopReturned q \<longleftrightarrow> cq_reqClosed q \<and> cq_workers q = 0"

text \<open>An enqueuer that nobody interrupts does what \<open>enqueueTask\<close> does.\<close>

lemma enqueueTask_uninterrupted:
  assumes "cq_reqClosed q \<longrightarrow> cbr_stopped (cq_bridge q)"
  shows "enqueueTask env now (cq_bridge q) task =
    (if cbr_stopped (cq_bridge q) then (cq_bridge q, [])
     else case enqueueSend env now task (enqueueCheck task q) of (q', out) \<Rightarrow> (cq_bridge q', out))"
proof -
  have "coap_publishDLQ env now (coapCount m b) reason topic payload = coap_publishDLQ env now b reason topic payload"
    for m b reason topic payload
    by (simp add: coap_publishDLQ_def coapCount_def split: sum.split)
  then show ?thesis
    using assms by (auto simp: enqueueTask_def enqueueCheck_def enqueueSend_def Let_def)
qed

text \<open>A worker that nobody interrupts does what \<open>coapWorker\<close> does.\<close>

lemma coapWorker_uninterrupted:
  assumes "\<not> cq_panicked q" "cbr_reqCh (cq_bridge q) = task # tasks"
  shows "coapWorker env resolves call clock start now (cq_bridge q) =
    (case handleTask env resolves call clock start now task (takeTask q) of
       (q', out) \<Rightarrow> if cq_panicked q' then None else Some (cq_bridge q', out))"
  using assms by (simp add: coapWorker_def handleTask_def takeTask_def Let_def split: option.split)

section \<open>What the handlers leave alone\<close>

definition same_queue :: "CoapBridge \<Rightarrow> CoapBridge \<Rightarrow> bool" where
  "same_queue b' b \<longleftrightarrow> cbr_reqCh b' = cbr_reqCh b \<and> cbr_stopped b' = cbr_stopped b \<and> cbr_queueSize b' = cbr_queueSize b"

lemma same_queue_simps [simp]:
  "same_queue b b" "same_queue (coapCount m b') b = same_queue b' b"
  "same_queue (coap_markFailure now b') b = same_queue b' b" "same_queue (coap_markSuccess b') b = same_queue b' b"
  "same_queue (b'\<lparr>cbr_msgIDCounter := n\<rparr>) b = same_queue b' b"
  by (simp_all add: same_queue_def coapCount_def coap_markFailure_def coap_markSuccess_def Let_def)


lemma coapLoop_queue: "coapLoop call clock pkt attempt b = Some (body, b') \<Longrightarrow> same_queue b' b"
proof (induction "cbr_retries b + 1 - attempt" arbitrary: attempt b rule: less_induct)
  case less
  let ?b = "coapCount (BridgeRetriesTotal ''coap'') (coap_markFailure (clock attempt) b)"
  have IH: "same_queue b' b" if "attempt < cbr_retries b"
    "coapLoop call clock pkt (Suc attempt) ?b = Some (body, b')"
  proof -
    have "same_queue b' ?b" using less.hyps [of ?b "Suc attempt"] that by (simp add: bridge_frame)
    then show ?thesis by (simp add: same_queue_def coapCount_def coap_markFailure_def Let_def)
  qed
  show ?case
    using less.prems IH
    by (subst (asm) coapLoop.simps)
      (auto simp: Let_def bridge_frame split: if_splits coapOutcome.splits option.splits)
qed

lemma doCoap_queue: "doCoap resolves call clock b msg = Some (body, b') \<Longrightarrow> same_queue b' b"
  by (auto simp: doCoap_def ProtocolFields_eq Let_def dest!: coapLoop_queue split: if_splits prod.splits)
    (simp_all add: same_queue_def)

lemma coap_handlers_queue:
  "coap_handleSyncRequest env resolves call clock start now b topic payload = Some (b', out) \<Longrightarrow> same_queue b' b"
  "coap_handleAsyncEvent env resolves call clock start now b topic payload = Some (b', out) \<Longrightarrow> same_queue b' b"
  by (auto simp: coap_handleSyncRequest_def coap_handleAsyncEvent_def Let_def dest!: doCoap_queue
      split: sum.splits prod.splits option.splits if_splits)

lemma handleTask_spec:
  "\<exists>b'. fst (handleTask env resolves call clock start now task q) = q\<lparr>cq_bridge := b',
     cq_busy := remove1 task (cq_busy q), cq_handled := cq_handled q @ [task]\<rparr> \<and> same_queue b' (cq_bridge q)"
  using coap_handlers_total [of env resolves call clock start now "cq_bridge q" "ct_topic task" "ct_payload task"]
  by (auto simp: handleTask_def dest: coap_handlers_queue split: option.splits)

section \<open>The invariant\<close>

definition queue_inv :: "CoapQueue \<Rightarrow> bool" where
  "queue_inv q \<longleftrightarrow> cq_accepted q = cq_taken q @ cbr_reqCh (cq_bridge q) \<and>
     mset (cq_taken q) = mset (cq_handled q) + mset (cq_busy q) \<and>
     length (cbr_reqCh (cq_bridge q)) \<le> 256 \<and> cbr_queueSize (cq_bridge q) = 256 \<and>
     length (cq_busy q) \<le> cq_workers q \<and> cq_workers q \<le> 8 \<and>
     (cq_reqClosed q \<longrightarrow> cbr_stopped (cq_bridge q)) \<and> (cq_panicked q \<longrightarrow> cq_reqClosed q) \<and>
     (cq_workers q < 8 \<longrightarrow> cq_reqClosed q \<and> cbr_reqCh (cq_bridge q) = [])"

lemma queue_step_inv: "queue_step q q' \<Longrightarrow> queue_inv q \<Longrightarrow> queue_inv q'"
proof (induction rule: queue_step.induct)
  case (arrive q task)
  then show ?case by (auto simp: enqueueCheck_def queue_inv_def)
next
  case (send q task env now)
  then show ?case
    by (cases "cq_workers q < 8")
      (auto simp: enqueueSend_def Let_def queue_inv_def coapCount_def)
next
  case (take_task q)
  then obtain t ts where "cbr_reqCh (cq_bridge q) = t # ts" by (cases "cbr_reqCh (cq_bridge q)") auto
  with take_task show ?case by (auto simp: takeTask_def queue_inv_def)
next
  case (handle q task env resolves call clock start now)
  obtain b' where "fst (handleTask env resolves call clock start now task q) = q\<lparr>cq_bridge := b',
     cq_busy := remove1 task (cq_busy q), cq_handled := cq_handled q @ [task]\<rparr>" "same_queue b' (cq_bridge q)"
    using handleTask_spec by blast
  then show ?case
    using handle by (auto simp: queue_inv_def same_queue_def length_remove1)
next
  case (leave q)
  then show ?case by (auto simp: queue_inv_def)
next
  case (stop q)
  then show ?case by (auto simp: closeStopCh_def coapStop_def queue_inv_def)
next
  case (close q)
  then show ?case by (auto simp: closeReqCh_def queue_inv_def)
qed

lemma queue_reachable_inv: "queue_reachable q \<Longrightarrow> queue_inv q"
proof -
  have "queue_inv (startQueue topics peerId url)" for topics peerId url
    by (simp add: startQueue_def queue_inv_def NewCoapBridge_def coapWorkerCount_def)
  moreover assume "queue_reachable q"
  ultimately show ?thesis
    unfolding queue_reachable_def by (metis (no_types, lifting) queue_step_inv rtranclp_induct)
qed

lemma queue_reachable_step: "queue_reachable q \<Longrightarrow> queue_step q q' \<Longrightarrow> queue_reachable q'"
  unfolding queue_reachable_def by (meson rtranclp.rtrancl_into_rtrancl)

text \<open>What is left for the workers to do.\<close>

definition queue_work :: "CoapQueue \<Rightarrow> nat" where
  "queue_work q = 2 * length (cbr_reqCh (cq_bridge q)) + length (cq_busy q) + cq_workers q"

lemma work_step:
  assumes "queue_inv q" "cq_reqClosed q" "\<not> cq_panicked q" "0 < queue_work q"
  shows "\<exists>q'. queue_step q q' \<and> queue_work q = Suc (queue_work q') \<and> cq_reqClosed q' \<and> \<not> cq_panicked q' \<and>
    cq_accepted q' = cq_accepted q"
proof -
  consider t ts where "cq_busy q = t # ts" | "cq_busy q = []" "cbr_reqCh (cq_bridge q) \<noteq> []"
    | "cq_busy q = []" "cbr_reqCh (cq_bridge q) = []" "0 < cq_workers q"
    using assms(4) by (cases "cq_busy q") (auto simp: queue_work_def)
  then show ?thesis
  proof cases
    case 1
    define q' where "q' = fst (handleTask undefined undefined undefined undefined undefined undefined t q)"
    have "queue_step q q'"
      unfolding q'_def using assms(3) 1 by (intro handle) auto
    moreover obtain b' where "q' = q\<lparr>cq_bridge := b', cq_busy := remove1 t (cq_busy q),
       cq_handled := cq_handled q @ [t]\<rparr>" "same_queue b' (cq_bridge q)"
      unfolding q'_def using handleTask_spec by blast
    ultimately show ?thesis
      using assms(2,3) 1 by (intro exI [of _ q']) (simp add: queue_work_def same_queue_def)
  next
    case 2
    then obtain t ts where "cbr_reqCh (cq_bridge q) = t # ts" by (cases "cbr_reqCh (cq_bridge q)") auto
    moreover have "0 < cq_workers q"
      using assms(1) 2 by (cases "cq_workers q < 8") (auto simp: queue_inv_def)
    ultimately show ?thesis
      using assms(2,3) 2 take_task [of q] by (intro exI [of _ "takeTask q"]) (simp add: takeTask_def queue_work_def)
  next
    case 3
    then show ?thesis
      using assms(2,3) leave [of q] by (intro exI [of _ "q\<lparr>cq_workers := cq_workers q - 1\<rparr>"]) (simp add: queue_work_def)
  qed
qed

lemma workers_drain:
  assumes "queue_inv q" "cq_reqClosed q" "\<not> cq_panicked q"
  shows "\<exists>q'. (queue_step ^^ queue_work q) q q' \<and> queue_work q' = 0 \<and> queue_inv q' \<and> cq_reqClosed q' \<and>
    \<not> cq_panicked q' \<and> cq_accepted q' = cq_accepted q"
  using assms
proof (induction "queue_work q" arbitrary: q)
  case 0
  then show ?case by (intro exI [of _ q]) simp
next
  case (Suc n)
  obtain q1 where q1: "queue_step q q1" "queue_work q = Suc (queue_work q1)" "cq_reqClosed q1" "\<not> cq_panicked q1"
    "cq_accepted q1 = cq_accepted q"
    using work_step [OF Suc(3-5)] Suc(2) by auto
  obtain q' where "(queue_step ^^ queue_work q1) q1 q'" "queue_work q' = 0" "queue_inv q'" "cq_reqClosed q'"
    "\<not> cq_panicked q'" "cq_accepted q' = cq_accepted q1"
    using Suc(1) [of q1] Suc(2) q1 queue_step_inv [OF q1(1) Suc(3)] by auto
  with q1 show ?case
    using relpowp_Suc_I2 [of queue_step q q1 "queue_work q1" q'] by (intro exI [of _ q']) simp
qed

section \<open>Properties\<close>

text \<open>
  C14: no accepted task of the CoAP bridge is lost or done twice. In every state the enqueuers, the eight
  workers and \<open>Stop\<close> can reach, the accepted tasks are those taken, in the order they were accepted,
  followed by those in the channel; the taken ones are those handled and those in a worker's
  hands; the channel holds at most 256 tasks and at most eight are being handled. Once the
  channel is closed and nothing has panicked, the workers can finish on their own in as many steps as
  \<open>queue_work\<close> says, and when \<open>Stop\<close> has returned every accepted task has been handled.
\<close>

theorem coap_queue_accounts:
  assumes "queue_reachable q"
  shows "cq_accepted q = cq_taken q @ cbr_reqCh (cq_bridge q) \<and>
    mset (cq_taken q) = mset (cq_handled q) + mset (cq_busy q) \<and>
    length (cbr_reqCh (cq_bridge q)) \<le> 256 \<and> length (cq_busy q) \<le> 8 \<and>
    (stopReturned q \<longrightarrow> mset (cq_handled q) = mset (cq_accepted q)) \<and>
    (cq_reqClosed q \<and> \<not> cq_panicked q \<longrightarrow> (\<exists>q'. (queue_step ^^ queue_work q) q q' \<and> stopReturned q' \<and>
      mset (cq_handled q') = mset (cq_accepted q)))"
proof -
  note inv = queue_reachable_inv [OF assms]
  have all_handled: "mset (cq_handled q) = mset (cq_accepted q)" if "queue_inv q" "stopReturned q" for q
    using that by (cases "cq_workers q < 8") (auto simp: queue_inv_def stopReturned_def)
  have "\<exists>q'. (queue_step ^^ queue_work q) q q' \<and> stopReturned q' \<and> mset (cq_handled q') = mset (cq_accepted q)"
    if "cq_reqClosed q \<and> \<not> cq_panicked q"
  proof -
    obtain q' where "(queue_step ^^ queue_work q) q q'" "queue_work q' = 0" "queue_inv q'" "cq_reqClosed q'"
      "cq_accepted q' = cq_accepted q"
      using workers_drain [OF inv] \<open>cq_reqClosed q \<and> \<not> cq_panicked q\<close> by auto
    with all_handled [of q'] show ?thesis
      by (intro exI [of _ q']) (simp add: stopReturned_def queue_work_def)
  qed
  with inv all_handled [OF inv] show ?thesis
    by (auto simp: queue_inv_def)
qed

definition demoTask :: coapTask where
  "demoTask = \<lparr>ct_topic = ''t'', ct_payload = [], ct_isSync = True\<rparr>"

definition demoQueue :: CoapQueue where
  "demoQueue = startQueue (NewDefaultTopicSet ''default'') ''p'' ''coap://h''"

lemma demo_reachable: "queue_reachable demoQueue"
  unfolding queue_reachable_def demoQueue_def by blast

theorem coap_queue_accounts_witness:
  "length (cbr_reqCh (cq_bridge (closeReqCh (closeStopCh demoQueue)))) \<le> 256 \<and>
   (\<exists>q'. (queue_step ^^ 8) (closeReqCh (closeStopCh demoQueue)) q' \<and> stopReturned q' \<and>
      mset (cq_handled q') = mset (cq_accepted (closeReqCh (closeStopCh demoQueue))))"
proof -
  have ev: "\<not> cq_panicked demoQueue" "\<not> cbr_stopped (cq_bridge demoQueue)" "\<not> cq_reqClosed demoQueue"
    "queue_work (closeReqCh (closeStopCh demoQueue)) = 8"
    by (simp_all add: demoQueue_def startQueue_def NewCoapBridge_def closeReqCh_def closeStopCh_def coapStop_def
        queue_work_def coapWorkerCount_def)
  then have "queue_step demoQueue (closeStopCh demoQueue)"
    and "queue_step (closeStopCh demoQueue) (closeReqCh (closeStopCh demoQueue))"
    by (intro queue_step.stop queue_step.close; simp add: closeStopCh_def coapStop_def)+
  then have reach: "queue_reachable (closeReqCh (closeStopCh demoQueue))"
    using demo_reachable queue_reachable_step by blast
  have closed: "cq_reqClosed (closeReqCh (closeStopCh demoQueue))" "\<not> cq_panicked (closeReqCh (closeStopCh demoQueue))"
    using ev(1) by (simp_all add: closeReqCh_def closeStopCh_def)
  from coap_queue_accounts [OF reach] show ?thesis
    unfolding ev(4) using closed by blast
qed

text \<open>Between its two \<open>select\<close>s an enqueuer can be overtaken by \<open>Stop\<close>.\<close>

lemma stop_overtakes:
  assumes "queue_inv q" "\<not> cq_panicked q" "\<not> cbr_stopped (cq_bridge q)"
  shows "\<exists>q'. (queue_step ^^ 4) q q' \<and> cq_panicked q'"
proof -
  let ?q1 = "enqueueCheck demoTask q"
  let ?q2 = "closeStopCh ?q1"
  let ?q3 = "closeReqCh ?q2"
  define q4 where "q4 = fst (enqueueSend undefined undefined demoTask ?q3)"
  have flags: "\<not> cq_panicked ?q1" "\<not> cbr_stopped (cq_bridge ?q1)" "\<not> cq_panicked ?q2" "cbr_stopped (cq_bridge ?q2)"
    "\<not> cq_reqClosed ?q2" "\<not> cq_panicked ?q3" "demoTask \<in> set (cq_checked ?q3)" "cq_panicked q4"
    using assms by (auto simp: q4_def enqueueCheck_def closeStopCh_def closeReqCh_def coapStop_def enqueueSend_def
        Let_def queue_inv_def)
  have "queue_step q ?q1" "queue_step ?q1 ?q2" "queue_step ?q2 ?q3"
    by (intro queue_step.intros assms flags)+
  moreover have "queue_step ?q3 q4"
    unfolding q4_def by (intro queue_step.intros flags)
  ultimately have "(queue_step ^^ 4) q q4"
    by (auto simp: eval_nat_numeral)
  with flags(8) show ?thesis by blast
qed

lemma settled_safe:
  assumes "queue_step\<^sup>*\<^sup>* q q'" "queue_inv q" "\<not> cq_panicked q" "cbr_stopped (cq_bridge q)" "cq_checked q = []"
  shows "queue_inv q' \<and> \<not> cq_panicked q' \<and> cbr_stopped (cq_bridge q') \<and> cq_checked q' = []"
  using assms
proof (induction rule: rtranclp_induct)
  case (step y z)
  then have "queue_inv z" using queue_step_inv by blast
  with step show ?case
  proof (cases rule: queue_step.cases [OF step(2)])
    case (4 q task env resolves call clock start now)
    then show ?thesis
      using handleTask_spec [of env resolves call clock start now task q] step \<open>queue_inv z\<close>
      by (auto simp: same_queue_def)
  qed (auto simp: enqueueCheck_def takeTask_def closeReqCh_def split: list.splits)
qed simp

lemma queue_panics_iff:
  assumes "\<not> cq_panicked q" "queue_step q q'"
  shows "cq_panicked q' \<longleftrightarrow>
    (\<exists>env now task. task \<in> set (cq_checked q) \<and> cq_reqClosed q \<and> q' = fst (enqueueSend env now task q))"
proof -
  have sent: "cq_panicked (fst (enqueueSend env now task q)) = cq_reqClosed q" for env now task
    using assms(1) by (auto simp: enqueueSend_def Let_def)
  have "\<exists>env now task. task \<in> set (cq_checked q) \<and> cq_reqClosed q \<and> q' = fst (enqueueSend env now task q)"
    if "cq_panicked q'"
    using assms(2)
  proof cases
    case (handle task env resolves call clock start now)
    then show ?thesis
      using handleTask_spec [of env resolves call clock start now task q] assms(1) that by auto
  next
    case (send task env now)
    then show ?thesis using sent that by auto
  qed (use assms(1) that in \<open>auto simp: enqueueCheck_def takeTask_def closeStopCh_def closeReqCh_def split: list.splits if_splits\<close>)
  with sent show ?thesis by metis
qed

text \<open>
  C15: when the CoAP bridge panics. A step from a reachable state ends in a panic exactly when it is the send
  of an enqueuer that had found \<open>stopCh\<close> open and now finds \<open>reqCh\<close> closed: no handler and no worker ever
  panics. As long as \<open>Stop\<close> has not been called, four steps lead there: an enqueuer passes its check,
  \<open>Stop\<close> closes both channels, the enqueuer sends. When \<open>stopCh\<close> is closed and no enqueuer is
  between its checks, nothing can panic any more.
\<close>

theorem coap_stop_race:
  assumes "queue_reachable q" "\<not> cq_panicked q"
  shows "(\<forall>q'. queue_step q q' \<longrightarrow> cq_panicked q' =
      (\<exists>env now task. task \<in> set (cq_checked q) \<and> cq_reqClosed q \<and> q' = fst (enqueueSend env now task q))) \<and>
    (\<not> cbr_stopped (cq_bridge q) \<longrightarrow> (\<exists>q'. (queue_step ^^ 4) q q' \<and> cq_panicked q')) \<and>
    (cbr_stopped (cq_bridge q) \<and> cq_checked q = [] \<longrightarrow> (\<forall>q'. queue_step\<^sup>*\<^sup>* q q' \<longrightarrow> \<not> cq_panicked q'))"
proof -
  have "\<forall>q'. queue_step q q' \<longrightarrow> cq_panicked q' =
      (\<exists>env now task. task \<in> set (cq_checked q) \<and> cq_reqClosed q \<and> q' = fst (enqueueSend env now task q))"
    using queue_panics_iff [OF assms(2)] by simp
  with queue_reachable_inv [OF assms(1)] assms(2) stop_overtakes settled_safe show ?thesis by blast
qed

theorem coap_stop_race_witness: "\<exists>q'. (queue_step ^^ 4) demoQueue q' \<and> cq_panicked q'"
  using coap_stop_race [OF demo_reachable]
  by (simp add: demoQueue_def startQueue_def NewCoapBridge_def)

end
