(* ===== verification/Protocol_Bridge.thy ===== *)
theory Protocol_Bridge
  imports Coap_Queue
begin

text \<open>
  The interface of the bridges (\<open>adapter/bridge.go\<close>) as the locale \<open>protocol_bridge\<close>, interpreted for the
  HTTP, the CoAP and the MQTT bridge, and the value of the interface type that \<open>main\<close> keeps in its
  slice \<open>bridges\<close>, which is a bridge again. The MQTT bridge is its list of mappings.
\<close>

section \<open>The interface\<close>

text \<open>What \<open>main\<close> relies on: a start subscribes the bridge's topics in order and gives up at the first that
  is refused; a stop does not fail, can be repeated, and leaves the protocol alone.\<close>

locale protocol_bridge =
  fixes start :: "(string \<Rightarrow> go_error option) \<Rightarrow> 'b \<Rightarrow> go_error option \<times> (string \<times> 'h) list"
    and stop :: "'b \<Rightarrow> go_error option \<times> 'b"
    and protocol :: "'b \<Rightarrow> DdProtocol"
    and topicsOf :: "'b \<Rightarrow> (string \<times> 'h) list"
  assumes start_subscribes: "snd (start subscribe b) = snd (subscribeAll subscribe (topicsOf b)) \<and>
        (fst (start subscribe b) = None \<longleftrightarrow> fst (subscribeAll subscribe (topicsOf b)) = None)"
    and stop_ok: "fst (stop b) = None"
    and stop_again: "stop (snd (stop b)) = (None, snd (stop b))"
    and stop_protocol: "protocol (snd (stop b)) = protocol b"
    and stop_topics: "topicsOf (snd (stop b)) = topicsOf b"
begin

lemma start_prefix: "prefix (snd (start subscribe b)) (topicsOf b)"
  using start_subscribes subscribeAll_prefix by metis

lemma started: "(\<And>t. subscribe t = None) \<Longrightarrow> start subscribe b = (None, topicsOf b)"
  using start_subscribes [of subscribe b] by (simp add: subscribeAll_ok prod_eq_iff)

text \<open>A stopped bridge subscribes like a fresh one.\<close>

lemma restart: "snd (start subscribe (snd (stop b))) = snd (start subscribe b)"
  using start_subscribes stop_topics by metis

end

section \<open>The bridges\<close>

definition httpProtocol :: "HttpBridge \<Rightarrow> DdProtocol" where
  "httpProtocol b = DdProtocolHttp"

definition httpStop :: "HttpBridge \<Rightarrow> go_error option \<times> HttpBridge" where
  "httpStop b = (None, b)"

definition coapProtocol :: "CoapBridge \<Rightarrow> DdProtocol" where
  "coapProtocol b = DdProtocolCoap"

definition mqttProtocol :: "MqttMapping list \<Rightarrow> DdProtocol" where
  "mqttProtocol b = DdProtocolMq"

definition mqttStop :: "MqttMapping list \<Rightarrow> go_error option \<times> MqttMapping list" where
  "mqttStop b = (None, b)"

text \<open>The value of the interface type.\<close>

datatype ProtocolBridge = AnHttpBridge HttpBridge | ACoapBridge CoapBridge | AnMqttBridge "MqttMapping list"
datatype anyHandler = FromHttp bridgeHandler | FromCoap bridgeHandler | FromMapping MqttMapping

fun bridge_Start :: "(string \<Rightarrow> go_error option) \<Rightarrow> ProtocolBridge \<Rightarrow> go_error option \<times> (string \<times> anyHandler) list" where
  "bridge_Start subscribe (AnHttpBridge b) = (case httpStart subscribe b of (e, subs) \<Rightarrow> (e, map (\<lambda>(t, h). (t, FromHttp h)) subs))"
| "bridge_Start subscribe (ACoapBridge b) = (case coapStart subscribe b of (e, subs) \<Rightarrow> (e, map (\<lambda>(t, h). (t, FromCoap h)) subs))"
| "bridge_Start subscribe (AnMqttBridge b) = (case mqttStart subscribe b of (e, subs) \<Rightarrow> (e, map (\<lambda>(t, h). (t, FromMapping h)) subs))"

fun bridge_Stop :: "ProtocolBridge \<Rightarrow> go_error option \<times> ProtocolBridge" where
  "bridge_Stop (AnHttpBridge b) = map_prod id AnHttpBridge (httpStop b)"
| "bridge_Stop (ACoapBridge b) = (None, ACoapBridge (coapStop b))"
| "bridge_Stop (AnMqttBridge b) = map_prod id AnMqttBridge (mqttStop b)"

fun bridge_Protocol :: "ProtocolBridge \<Rightarrow> DdProtocol" where
  "bridge_Protocol (AnHttpBridge b) = httpProtocol b"
| "bridge_Protocol (ACoapBridge b) = coapProtocol b"
| "bridge_Protocol (AnMqttBridge b) = mqttProtocol b"

text \<open>The loop of \<open>main\<close> after a signal: every bridge is stopped, and one that fails is logged with its protocol.\<close>

fun stopLoop :: "ProtocolBridge list \<Rightarrow> (DdProtocol \<times> go_error) list \<times> ProtocolBridge list" where
  "stopLoop [] = ([], [])"
| "stopLoop (b # bs) =
    (case bridge_Stop b of (e, b') \<Rightarrow> case stopLoop bs of (warnings, bs') \<Rightarrow>
       (case e of Some err \<Rightarrow> (bridge_Protocol b', err) # warnings | None \<Rightarrow> warnings, b' # bs'))"

section \<open>The interpretations\<close>

definition bridgePair :: "TopicSet \<Rightarrow> string \<Rightarrow> (string \<times> bridgeHandler) list" where
  "bridgePair ts peerId = [(TransferRequest ts peerId, HSyncRequest), (EventPublish ts peerId, HAsyncEvent)]"

lemma mapping_labels:
  "map snd (map (\<lambda>(i, m). (''subscribe mapping['' @ nat_str i @ '']'', mm_Source m, m)) (enumerate 0 ms)) =
    map (\<lambda>m. (mm_Source m, m)) ms"
  by (rule nth_equalityI) (auto simp: nth_enumerate_eq)

lemma subscribes_pair:
  "snd (subscribeLabelled subscribe [(w, TransferRequest ts p, HSyncRequest), (w', EventPublish ts p, HAsyncEvent)]) =
     snd (subscribeAll subscribe (bridgePair ts p)) \<and>
   (fst (subscribeLabelled subscribe [(w, TransferRequest ts p, HSyncRequest), (w', EventPublish ts p, HAsyncEvent)]) = None) =
     (fst (subscribeAll subscribe (bridgePair ts p)) = None)"
  by (simp only: subscribeLabelled_all bridgePair_def list.map snd_conv simp_thms)

interpretation http_bridge: protocol_bridge httpStart httpStop httpProtocol "\<lambda>b. bridgePair (hbr_topics b) (hbr_peerId b)"
  by unfold_locales
    (simp_all only: httpStart_def httpStop_def httpProtocol_def subscribes_pair simp_thms fst_conv snd_conv)

interpretation coap_bridge: protocol_bridge coapStart "\<lambda>b. (None, coapStop b)" coapProtocol
  "\<lambda>b. bridgePair (cbr_topics b) (cbr_peerId b)"
proof unfold_locales
  show "snd (coapStart subscribe b) = snd (subscribeAll subscribe (bridgePair (cbr_topics b) (cbr_peerId b))) \<and>
      (fst (coapStart subscribe b) = None \<longleftrightarrow>
       fst (subscribeAll subscribe (bridgePair (cbr_topics b) (cbr_peerId b))) = None)" for subscribe b
    by (simp only: coapStart_def subscribes_pair simp_thms)
qed (simp_all add: coapStop_def coapProtocol_def)

interpretation mqtt_bridge: protocol_bridge mqttStart mqttStop mqttProtocol "map (\<lambda>m. (mm_Source m, m))"
proof unfold_locales
  show "snd (mqttStart subscribe b) = snd (subscribeAll subscribe (map (\<lambda>m. (mm_Source m, m)) b)) \<and>
      (fst (mqttStart subscribe b) = None \<longleftrightarrow>
       fst (subscribeAll subscribe (map (\<lambda>m. (mm_Source m, m)) b)) = None)" for subscribe b
    unfolding mqttStart_def subscribeLabelled_all mapping_labels by simp
qed (simp_all add: mqttStop_def mqttProtocol_def)

fun topicsOfAny :: "ProtocolBridge \<Rightarrow> (string \<times> anyHandler) list" where
  "topicsOfAny (AnHttpBridge b) = map (\<lambda>(t, h). (t, FromHttp h)) (bridgePair (hbr_topics b) (hbr_peerId b))"
| "topicsOfAny (ACoapBridge b) = map (\<lambda>(t, h). (t, FromCoap h)) (bridgePair (cbr_topics b) (cbr_peerId b))"
| "topicsOfAny (AnMqttBridge b) = map (\<lambda>(t, h). (t, FromMapping h)) (map (\<lambda>m. (mm_Source m, m)) b)"

lemma subscribeAll_tagged:
  "snd (subscribeAll subscribe (map (\<lambda>(t, h). (t, f h)) subs)) = map (\<lambda>(t, h). (t, f h)) (snd (subscribeAll subscribe subs))"
  "fst (subscribeAll subscribe (map (\<lambda>(t, h). (t, f h)) subs)) = fst (subscribeAll subscribe subs)"
  by (induction subs) (auto split: option.split prod.split)

interpretation any_bridge: protocol_bridge bridge_Start bridge_Stop bridge_Protocol topicsOfAny
proof unfold_locales
  show "snd (bridge_Start subscribe b) = snd (subscribeAll subscribe (topicsOfAny b)) \<and>
      (fst (bridge_Start subscribe b) = None \<longleftrightarrow> fst (subscribeAll subscribe (topicsOfAny b)) = None)" for subscribe b
  proof (cases b)
    case (AnHttpBridge x)
    with http_bridge.start_subscribes [of subscribe x] show ?thesis
      by (cases "httpStart subscribe x") (simp only: bridge_Start.simps topicsOfAny.simps subscribeAll_tagged prod.case fst_conv snd_conv simp_thms)
  next
    case (ACoapBridge x)
    with coap_bridge.start_subscribes [of subscribe x] show ?thesis
      by (cases "coapStart subscribe x") (simp only: bridge_Start.simps topicsOfAny.simps subscribeAll_tagged prod.case fst_conv snd_conv simp_thms)
  next
    case (AnMqttBridge x)
    with mqtt_bridge.start_subscribes [of subscribe x] show ?thesis
      by (cases "mqttStart subscribe x") (simp only: bridge_Start.simps topicsOfAny.simps subscribeAll_tagged prod.case fst_conv snd_conv simp_thms)
  qed
  show "fst (bridge_Stop b) = None" "bridge_Stop (snd (bridge_Stop b)) = (None, snd (bridge_Stop b))"
    "bridge_Protocol (snd (bridge_Stop b)) = bridge_Protocol b" "topicsOfAny (snd (bridge_Stop b)) = topicsOfAny b" for b
    by (cases b; simp add: httpStop_def mqttStop_def coapStop_def httpProtocol_def coapProtocol_def mqttProtocol_def)+
qed

text \<open>The loop stops every bridge, logs nothing, and can be run again to no effect.\<close>

lemma stopLoop_clean: "stopLoop bs = ([], map (\<lambda>b. snd (bridge_Stop b)) bs)"
proof (induction bs)
  case (Cons b bs)
  with any_bridge.stop_ok [of b] show ?case by (cases "bridge_Stop b") simp
qed simp

lemma stopLoop_again: "stopLoop (snd (stopLoop bs)) = ([], snd (stopLoop bs))"
  using any_bridge.stop_again by (simp add: stopLoop_clean comp_def)

end
