(* ===== verification/Startup.thy ===== *)
theory Startup
  imports Cli Api_Run Peer_List Auth_Peer Hub_Discovery Mqtt_Client Protocol_Bridge Coap_Queue
begin

text \<open>
  The program entry (\<open>cmd/main.go\<close>): how a configuration becomes services, in which order they
  subscribe, and where a failure ends the process. \<open>os.Exit(1)\<close> is the error of the result, with the
  message that is logged; the subscriptions made until then are kept, so that what a
  process that gave up had already asked of the broker is visible. The goroutines \<open>main\<close> starts
  (the broadcast loop, the HTTP server) are the operations of their components; after the start \<open>main\<close> waits for
  a signal (\<open>serve\<close>). Services that \<open>main\<close> hands to more than one holder are objects on a heap
  (\<open>allocServices\<close>); \<open>newServices\<close> is what the holders then see.
\<close>

section \<open>Logging and configuration\<close>

datatype LogLevel = LevelDebug | LevelInfo | LevelWarn | LevelError
datatype LogFormat = JSONHandler | TextHandler

definition setupLogging :: "Config \<Rightarrow> LogFormat \<times> LogLevel" where
  "setupLogging cfg =
    (let l = lg_Level (cf_Logging cfg);
         level = (if l = ''debug'' then LevelDebug else if l = ''warn'' then LevelWarn
                  else if l = ''error'' then LevelError else LevelInfo)
     in if lg_Format (cf_Logging cfg) = ''json'' then (JSONHandler, level) else (TextHandler, level))"

text \<open>The handler drops records below its level; the levels are ordered as their numbers in \<open>log/slog\<close> are.\<close>

fun slogLevel :: "LogLevel \<Rightarrow> int" where
  "slogLevel LevelDebug = -4"
| "slogLevel LevelInfo = 0"
| "slogLevel LevelWarn = 4"
| "slogLevel LevelError = 8"

instantiation LogLevel :: linorder
begin

definition "l \<le> l' \<longleftrightarrow> slogLevel l \<le> slogLevel l'"
definition "l < l' \<longleftrightarrow> slogLevel l < slogLevel l'"

instance
proof
  show "l \<le> l' \<Longrightarrow> l' \<le> l \<Longrightarrow> l = l'" for l l' :: LogLevel
    by (cases l; cases l') (simp_all add: less_eq_LogLevel_def)
qed (auto simp: less_eq_LogLevel_def less_LogLevel_def)

end

definition logged :: "Config \<Rightarrow> LogLevel \<Rightarrow> bool" where
  "logged cfg level \<longleftrightarrow> snd (setupLogging cfg) \<le> level"

text \<open>Errors are logged whatever the configuration says, and a level that is logged takes those above with it.\<close>

lemma logged_up:
  "logged cfg LevelError" "logged cfg l \<Longrightarrow> l \<le> l' \<Longrightarrow> logged cfg l'"
  by (auto simp: logged_def setupLogging_def Let_def less_eq_LogLevel_def)

lemma debug_logged_iff: "logged cfg LevelDebug \<longleftrightarrow> lg_Level (cf_Logging cfg) = ''debug''"
  by (simp add: logged_def setupLogging_def Let_def less_eq_LogLevel_def)

definition buildAclService :: "Config \<Rightarrow> TopicAclService" where
  "buildAclService cfg =
    (let acl = NewTopicAclService;
         rules = map (\<lambda>r. \<lparr>r_PeerId = al_PeerId r, r_Action = al_Action r, r_Pattern = al_Pattern r,
           r_Allow = al_Allow r\<rparr>) (cf_AclRules cfg)
     in if length rules > 0 then SetRules acl rules else acl)"

definition buildPeerInfo :: "Config \<Rightarrow> DdPeerInfo" where
  "buildPeerInfo cfg = \<lparr>p_Id = pc_Id (cf_Peer cfg), p_Name = pc_Name (cf_Peer cfg),
     p_Role = pc_Role (cf_Peer cfg), p_Key = [], p_Secret = [], p_Status = [], p_Resources = [],
     p_Capabilities = [], p_ResourceSchemas = [], p_Tags = [], p_LastHeartbeatAt = 0,
     p_CreatedAt = 0, p_UpdatedAt = 0\<rparr>"

definition clientConfig :: "Config \<Rightarrow> ClientConfig" where
  "clientConfig cfg =
    (let m = mq_Mqtt (cf_Mq cfg); t = mqc_TLS m
     in \<lparr>cc_BrokerUrl = mqc_BrokerUrl m, cc_ClientId = mqc_ClientId m, cc_Username = mqc_Username m,
         cc_Password = mqc_Password m, cc_TLSEnabled = tls_Enabled t, cc_CaCertFile = tls_CaCertFile t,
         cc_ClientCertFile = tls_ClientCertFile t, cc_ClientKeyFile = tls_ClientKeyFile t,
         cc_InsecureSkipVerify = tls_InsecureSkipVerify t,
         cc_TopicAliasEnabled = mqc_TopicAliasEnabled m\<rparr>)"

definition broadcastInterval :: "Config \<Rightarrow> duration" where
  "broadcastInterval cfg =
    (let interval = dur (bc_IntervalSec (pc_Broadcast (cf_Peer cfg))) Second
     in if interval \<le> 0 then 10 * Second else interval)"

definition broadcastTtl :: "Config \<Rightarrow> int" where
  "broadcastTtl cfg =
    (let ttl = bc_TtlSec (pc_Broadcast (cf_Peer cfg)) in if ttl \<le> 0 then 30 else ttl)"

section \<open>The services\<close>

datatype procHandler =
    OnResponse | OnRegistry registryHandler | OnStream streamHandler | OnHub hubHandler
  | OnVerify | OnListQuery | OnHttp bridgeHandler | OnCoap bridgeHandler | OnMapping MqttMapping

record Process =
  ps_peerRegistry :: PeerRegistryService
  ps_dataService :: DdDataService
  ps_streamService :: StreamService
  ps_hubDiscovery :: "unit HubDiscoveryService"
  ps_authPeerService :: AuthPeerService
  ps_peerListService :: PeerListService
  ps_httpBridge :: "HttpBridge option"
  ps_coapQueue :: "CoapQueue option"
  ps_mqttBridge :: "MqttMapping list option"
  ps_server :: Server

definition ps_coapBridge :: "Process \<Rightarrow> CoapBridge option" where
  "ps_coapBridge p = map_option cq_bridge (ps_coapQueue p)"

text \<open>Four of the services have several holders: \<open>main\<close> hands the pointer on. They are objects on a heap, and an
  address is a position in the list of its type. \<open>Pointers\<close> has every variable and field that points to
  one of them; what a \<open>Process\<close> has in its place is what is read there through it.\<close>

type_synonym addr = nat

record Heap =
  hp_registries :: "PeerRegistryService list"
  hp_dataServices :: "DdDataService list"
  hp_streamServices :: "StreamService list"
  hp_catalogs :: "ResourceCatalog list"

record Pointers =
  pt_peerRegistry :: addr
  pt_dataService :: addr
  pt_streamService :: addr
  pt_listRegistry :: addr
  pt_serverRegistry :: addr
  pt_serverData :: addr
  pt_serverStreams :: addr
  pt_serverCatalog :: addr
  pt_indexRegistry :: addr
  pt_indexCatalog :: addr

definition emptyHeap :: Heap where
  "emptyHeap = \<lparr>hp_registries = [], hp_dataServices = [], hp_streamServices = [], hp_catalogs = []\<rparr>"

definition allocRegistry :: "PeerRegistryService \<Rightarrow> Heap \<Rightarrow> addr \<times> Heap" where
  "allocRegistry x h = (length (hp_registries h), h\<lparr>hp_registries := hp_registries h @ [x]\<rparr>)"

definition allocData :: "DdDataService \<Rightarrow> Heap \<Rightarrow> addr \<times> Heap" where
  "allocData x h = (length (hp_dataServices h), h\<lparr>hp_dataServices := hp_dataServices h @ [x]\<rparr>)"

definition allocStreams :: "StreamService \<Rightarrow> Heap \<Rightarrow> addr \<times> Heap" where
  "allocStreams x h = (length (hp_streamServices h), h\<lparr>hp_streamServices := hp_streamServices h @ [x]\<rparr>)"

definition allocCatalog :: "ResourceCatalog \<Rightarrow> Heap \<Rightarrow> addr \<times> Heap" where
  "allocCatalog x h = (length (hp_catalogs h), h\<lparr>hp_catalogs := hp_catalogs h @ [x]\<rparr>)"

lemmas alloc_defs = emptyHeap_def allocRegistry_def allocData_def allocStreams_def allocCatalog_def

definition readServer :: "Heap \<Rightarrow> Pointers \<Rightarrow> Server \<Rightarrow> Server" where
  "readServer h pt s = s\<lparr>sr_peerRegistry := hp_registries h ! pt_serverRegistry pt,
     sr_dataService := Some (hp_dataServices h ! pt_serverData pt),
     sr_streamService := hp_streamServices h ! pt_serverStreams pt,
     sr_resourceCatalog := hp_catalogs h ! pt_serverCatalog pt\<rparr>"

definition readProcess :: "Heap \<Rightarrow> Pointers \<Rightarrow> Process \<Rightarrow> Process" where
  "readProcess h pt p = p\<lparr>ps_peerRegistry := hp_registries h ! pt_peerRegistry pt,
     ps_dataService := hp_dataServices h ! pt_dataService pt,
     ps_streamService := hp_streamServices h ! pt_streamService pt,
     ps_peerListService := (ps_peerListService p)\<lparr>pl_peerRegistry := hp_registries h ! pt_listRegistry pt\<rparr>,
     ps_server := readServer h pt (ps_server p)\<rparr>"

definition newAuthService :: "Config \<Rightarrow> AuthPeerService" where
  "newAuthService cfg =
    (let s = NewAuthPeerService (NewDefaultTopicSet (cf_Tenant cfg)) [] (ac_Secret (pc_Auth (cf_Peer cfg)))
     in if pc_Key (cf_Peer cfg) \<noteq> [] \<and> pc_Secret (cf_Peer cfg) \<noteq> []
        then SetSecret s (pc_Key (cf_Peer cfg)) (pc_Secret (cf_Peer cfg)) else s)"

definition allocServices :: "gotime \<Rightarrow> Config \<Rightarrow> Heap \<times> Pointers \<times> Process" where
  "allocServices boot cfg =
    (let aclService = buildAclService cfg;
         topics = NewDefaultTopicSet (cf_Tenant cfg);
         (peerRegistry, h) = allocRegistry (NewPeerRegistryService topics
           (dur (di_LeaseTtlSec (cf_Discovery cfg)) Second) [WithAclService aclService]) emptyHeap;
         (dataService, h) = allocData (NewDdDataService (dur (sy_DefaultTimeoutMs (cf_Sync cfg)) Millisecond)
           [WithDataAclService aclService]) h;
         (streamService, h) = allocStreams (NewStreamService topics) h;
         hubDiscovery = NewHubDiscoveryService topics (pc_Id (cf_Peer cfg)) (pc_Name (cf_Peer cfg))
           (pc_Role (cf_Peer cfg)) (broadcastInterval cfg) (broadcastTtl cfg);
         peerListService = NewPeerListService topics (hp_registries h ! peerRegistry) (Some aclService)
           (di_MaxPageSize (cf_Discovery cfg));
         (resourceCatalog, h) = allocCatalog NewResourceCatalog h;
         protocolResourceIndex = NewProtocolResourceIndex cfg topics (hp_registries h ! peerRegistry)
           (hp_catalogs h ! resourceCatalog);
         http = bg_Http (cf_Bridges cfg); coap = bg_Coap (cf_Bridges cfg);
         mappings = bg_MqttMappings (cf_Bridges cfg);
         httpServer = NewServer boot (Some cfg) topics (hp_registries h ! peerRegistry)
           (Some (hp_dataServices h ! dataService)) (Some aclService) (hp_streamServices h ! streamService)
           (hp_catalogs h ! resourceCatalog) (Some protocolResourceIndex)
     in (h,
         \<lparr>pt_peerRegistry = peerRegistry, pt_dataService = dataService, pt_streamService = streamService,
          pt_listRegistry = peerRegistry,
          pt_serverRegistry = peerRegistry, pt_serverData = dataService, pt_serverStreams = streamService,
          pt_serverCatalog = resourceCatalog,
          pt_indexRegistry = peerRegistry, pt_indexCatalog = resourceCatalog\<rparr>,
         \<lparr>ps_peerRegistry = hp_registries h ! peerRegistry, ps_dataService = hp_dataServices h ! dataService,
          ps_streamService = hp_streamServices h ! streamService, ps_hubDiscovery = hubDiscovery,
          ps_authPeerService = newAuthService cfg, ps_peerListService = peerListService,
          ps_httpBridge = (if bt_Enabled http \<and> bt_TargetUrl http \<noteq> []
            then Some (NewHttpBridge topics (pc_Id (cf_Peer cfg)) (bt_TargetUrl http)) else None),
          ps_coapQueue = (if bt_Enabled coap \<and> bt_TargetUrl coap \<noteq> []
            then Some (startQueue topics (pc_Id (cf_Peer cfg)) (bt_TargetUrl coap)) else None),
          ps_mqttBridge = (if length mappings > 0
            then Some (map (\<lambda>(source, target). \<lparr>mm_Source = source, mm_Target = target\<rparr>) mappings) else None),
          ps_server = httpServer\<rparr>))"

text \<open>The services of a process as their holders see them when \<open>main\<close> has constructed them.\<close>

definition newServices :: "gotime \<Rightarrow> Config \<Rightarrow> Process" where
  "newServices boot cfg = (case allocServices boot cfg of (h, pt, p) \<Rightarrow> readProcess h pt p)"

section \<open>The order of the starts\<close>

type_synonym startResult = "(string \<times> go_error) option \<times> (string \<times> procHandler) list"

text \<open>\<open>if err := x.Start(ctx); err != nil { slog.Error(msg); os.Exit(1) }\<close>, then the rest.\<close>

definition starting :: "string \<Rightarrow> ('h \<Rightarrow> procHandler) \<Rightarrow> go_error option \<times> (string \<times> 'h) list \<Rightarrow> startResult" where
  "starting msg on r = (case r of (err, subs) \<Rightarrow>
     (map_option (Pair msg) err, map (\<lambda>(t, h). (t, on h)) subs))"

definition andThen :: "startResult \<Rightarrow> startResult \<Rightarrow> startResult" where
  "andThen a b = (case a of
      (Some err, subs) \<Rightarrow> (Some err, subs)
    | (None, subs) \<Rightarrow> (case b of (r, subs') \<Rightarrow> (r, subs @ subs')))"

definition hubStarted :: "go_error option \<times> (string \<times> hubHandler) list \<times> bool \<Rightarrow>
    go_error option \<times> (string \<times> hubHandler) list" where
  "hubStarted r = (case r of (err, subs, loop) \<Rightarrow> (err, subs))"

definition startSteps :: "(string \<Rightarrow> go_error option) \<Rightarrow> Process \<Rightarrow> startResult list" where
  "startSteps subscribe p =
    (let topics = sr_topics (ps_server p) in
     [starting ''failed to subscribe sync response stream'' (\<lambda>_. OnResponse)
        (subscribeAll subscribe [(TransferResponseStream topics, ())]),
      starting ''failed to subscribe request response stream'' (\<lambda>_. OnResponse)
        (subscribeAll subscribe [(TransferResponseByRequestStream topics, ())]),
      starting ''failed to start peer registry'' OnRegistry (registryStart subscribe (ps_peerRegistry p)),
      starting ''failed to start stream service'' OnStream (streamStart subscribe (ps_streamService p)),
      starting ''failed to start hub discovery'' OnHub (hubStarted (hubStart subscribe (ps_hubDiscovery p))),
      starting ''failed to start auth peer service'' (\<lambda>_. OnVerify) (authStart subscribe (ps_authPeerService p)),
      starting ''failed to start peer list service'' (\<lambda>_. OnListQuery)
        (peerListStart subscribe (ps_peerListService p)),
      (case ps_httpBridge p of None \<Rightarrow> (None, [])
       | Some b \<Rightarrow> starting ''failed to start http bridge'' OnHttp (httpStart subscribe b)),
      (case ps_coapBridge p of None \<Rightarrow> (None, [])
       | Some b \<Rightarrow> starting ''failed to start coap bridge'' OnCoap (coapStart subscribe b)),
      (case ps_mqttBridge p of None \<Rightarrow> (None, [])
       | Some b \<Rightarrow> starting ''failed to start mqtt bridge'' OnMapping (mqttStart subscribe b))])"

definition startAll :: "(string \<Rightarrow> go_error option) \<Rightarrow> Process \<Rightarrow> startResult" where
  "startAll subscribe p = foldr andThen (startSteps subscribe p) (None, [])"

text \<open>\<open>main\<close> up to the point where it serves: the configuration, the client, the services, the
  starts. The broadcast of an authentication peer is made once, when its service is up.\<close>

definition main_start ::
  "gotime \<Rightarrow> ConfigEnv \<Rightarrow> TlsEnv \<Rightarrow> (ClientOptions \<Rightarrow> connectOutcome) \<Rightarrow> (string \<Rightarrow> go_error option) \<Rightarrow> string list \<Rightarrow>
     (string \<times> go_error + Config \<times> MqttClient \<times> Process) \<times> (string \<times> procHandler) list" where
  "main_start boot cenv tenv connect subscribe args =
    (case LoadWithArgs cenv (snd (ParseCliArgs args)) of
       Inl err \<Rightarrow> (Inl (''failed to load config'', err), [])
     | Inr cfg \<Rightarrow>
        (case NewMqttClient tenv connect (clientConfig cfg) of
           Inl err \<Rightarrow> (Inl (''failed to connect to MQTT broker'', err), [])
         | Inr client \<Rightarrow>
            (case startAll subscribe (newServices boot cfg) of
               (Some err, subs) \<Rightarrow> (Inl err, subs)
             | (None, subs) \<Rightarrow> (Inr (cfg, client, newServices boot cfg), subs))))"

definition authAnnouncement ::
  "(AuthBroadcast \<Rightarrow> go_error + bytes) \<Rightarrow> gotime \<Rightarrow> Config \<Rightarrow> Process \<Rightarrow> outbox" where
  "authAnnouncement marshal now cfg p =
    (if pc_Role (cf_Peer cfg) = ''auth''
     then BroadcastAuth marshal (ps_hubDiscovery p) now (ac_VerifyTopicSuffix (pc_Auth (cf_Peer cfg))) []
     else [])"

definition autoRegister ::
  "(DdPeerRegisterEvent \<Rightarrow> go_error + bytes) \<Rightarrow> publisher \<Rightarrow> gotime \<Rightarrow> Config \<Rightarrow> Process \<Rightarrow>
     go_error option \<times> PeerRegistryService \<times> outbox" where
  "autoRegister marshal publish now cfg p =
    (if pc_Id (cf_Peer cfg) = [] then (None, ps_peerRegistry p, [])
     else RegisterPeer marshal publish now (ps_peerRegistry p) (buildPeerInfo cfg))"

text \<open>The goroutine that sweeps the streams: one sweep for each tick, at the time the tick carries.\<close>

definition streamSweeper :: "gotime list \<Rightarrow> Process \<Rightarrow> Process" where
  "streamSweeper ticks p = p\<lparr>ps_streamService := fold (\<lambda>now. SweepIdle now (15 * Second)) ticks (ps_streamService p)\<rparr>"

text \<open>The slice \<open>bridges\<close> holds the enabled bridges; after a signal every one is stopped. The \<open>Stop\<close> of the
  CoAP bridge, seen here from \<open>main\<close>, which waits for it, leaves both channels closed.\<close>

definition bridges :: "Process \<Rightarrow> ProtocolBridge list" where
  "bridges p = (case ps_httpBridge p of None \<Rightarrow> [] | Some b \<Rightarrow> [AnHttpBridge b]) @
     (case ps_coapBridge p of None \<Rightarrow> [] | Some b \<Rightarrow> [ACoapBridge b]) @
     (case ps_mqttBridge p of None \<Rightarrow> [] | Some b \<Rightarrow> [AnMqttBridge b])"

fun storeBridge :: "ProtocolBridge \<Rightarrow> Process \<Rightarrow> Process" where
  "storeBridge (AnHttpBridge b) p = p\<lparr>ps_httpBridge := Some b\<rparr>"
| "storeBridge (ACoapBridge b) p =
    p\<lparr>ps_coapQueue := map_option (\<lambda>q. q\<lparr>cq_bridge := b, cq_reqClosed := cbr_stopped b\<rparr>) (ps_coapQueue p)\<rparr>"
| "storeBridge (AnMqttBridge b) p = p\<lparr>ps_mqttBridge := Some b\<rparr>"

definition stopBridges :: "Process \<Rightarrow> (DdProtocol \<times> go_error) list \<times> Process" where
  "stopBridges p = (case stopLoop (bridges p) of (warnings, bs) \<Rightarrow> (warnings, fold storeBridge bs p))"

lemma stopBridges_eq: "stopBridges p = ([], p\<lparr>ps_coapQueue := map_option (\<lambda>q. closeReqCh (closeStopCh q)) (ps_coapQueue p)\<rparr>)"
  by (cases p) (auto simp: stopBridges_def stopLoop_clean bridges_def httpStop_def mqttStop_def ps_coapBridge_def
      closeReqCh_def closeStopCh_def coapStop_def split: option.split)

text \<open>From serving to the end of the process: either the HTTP server fails, which exits with status 1 and stops
  nothing, or a signal comes, and then the server is shut down, the bridges are stopped and \<open>main\<close>
  returns. What the log says of it is the list of strings. \<open>ErrServerClosed\<close>, which \<open>ListenAndServe\<close>
  returns after a shutdown, is no failure.\<close>

datatype serveEvent = ListenReturned "go_error option" | GotSignal string

definition shutdown :: "go_error option \<Rightarrow> Process \<Rightarrow> string list \<times> Process" where
  "shutdown shutdownErr p =
    (let log = (case shutdownErr of Some err \<Rightarrow> [''HTTP server shutdown error'', error_text err] | None \<Rightarrow> []);
         (warnings, p) = stopBridges p
     in (log @ concat (map (\<lambda>(protocol, err). [''bridge stop failed'', protocol, error_text err]) warnings) @
         [''dd-core stopped''], p))"

fun serve :: "(go_error \<Rightarrow> bool) \<Rightarrow> go_error option \<Rightarrow> serveEvent list \<Rightarrow> Process \<Rightarrow> (nat \<times> string list \<times> Process) option" where
  "serve serverClosed shutdownErr [] p = None"
| "serve serverClosed shutdownErr (ListenReturned err # events) p =
    (case err of
       Some e \<Rightarrow> if \<not> serverClosed e then Some (1, [''HTTP server error'', error_text e], p)
         else serve serverClosed shutdownErr events p
     | None \<Rightarrow> serve serverClosed shutdownErr events p)"
| "serve serverClosed shutdownErr (GotSignal sig # events) p =
    (case shutdown shutdownErr p of (log, p) \<Rightarrow> Some (0, ''shutting down'' # sig # log, p))"

section \<open>Lemmas\<close>

text \<open>A process that ends with status 0 has been given a signal and has stopped every bridge; one that ends
  with status 1 has stopped none.\<close>

lemma serve_ends:
  assumes "serve serverClosed shutdownErr events p = Some (status, log, p')"
  shows "status = 0 \<and> (\<exists>sig. GotSignal sig \<in> set events) \<and> last log = ''dd-core stopped'' \<and> p' = snd (stopBridges p) \<or>
    status = 1 \<and> p' = p \<and> (\<exists>e. ListenReturned (Some e) \<in> set events \<and> \<not> serverClosed e)"
  using assms
  by (induction serverClosed shutdownErr events p rule: serve.induct)
    (auto simp: shutdown_def Let_def split: option.splits if_splits prod.splits)

lemma serve_quiet: "serve serverClosed shutdownErr events p = None \<longleftrightarrow>
    (\<forall>ev \<in> set events. \<exists>err. ev = ListenReturned err \<and> pred_option serverClosed err)"
  by (induction serverClosed shutdownErr events p rule: serve.induct)
    (auto split: option.splits prod.splits)

text \<open>The chain of starts subscribes like one list of subscriptions would.\<close>

definition subscribes :: "(string \<Rightarrow> go_error option) \<Rightarrow> (string \<times> procHandler) list \<Rightarrow> startResult \<Rightarrow> bool" where
  "subscribes subscribe subs r \<longleftrightarrow> snd r = snd (subscribeAll subscribe subs) \<and>
     (fst r = None \<longleftrightarrow> fst (subscribeAll subscribe subs) = None)"

lemma subscribeAll_append:
  "subscribeAll subscribe (xs @ ys) =
    (case subscribeAll subscribe xs of
       (Some err, done) \<Rightarrow> (Some err, done)
     | (None, done) \<Rightarrow> (case subscribeAll subscribe ys of (r, done') \<Rightarrow> (r, done @ done')))"
  by (induction xs) (auto split: option.split prod.split)

lemma subscribeAll_None: "fst (subscribeAll subscribe subs) = None \<Longrightarrow> snd (subscribeAll subscribe subs) = subs"
  by (induction subs) (auto split: option.splits prod.splits)

lemma subscribes_nothing: "subscribes subscribe [] (None, [])"
  by (simp add: subscribes_def)

lemma subscribes_andThen:
  "subscribes subscribe xs a \<Longrightarrow> subscribes subscribe ys b \<Longrightarrow> subscribes subscribe (xs @ ys) (andThen a b)"
  by (auto simp: subscribes_def andThen_def subscribeAll_append split: option.splits prod.splits)

lemma subscribes_starting:
  assumes "snd r = snd (subscribeAll subscribe subs)" "fst r = None \<longleftrightarrow> fst (subscribeAll subscribe subs) = None"
  shows "subscribes subscribe (map (\<lambda>(t, h). (t, on h)) subs) (starting msg on r)"
  using assms by (cases r) (simp add: subscribes_def starting_def subscribeAll_tagged)

text \<open>The subscriptions of a process, in the order of \<open>main\<close>, as the services name them; what the broker sees of a topic is
  what \<open>aliasTopic\<close> of the client makes of it.\<close>

definition bridgeTopics :: "TopicSet \<Rightarrow> string \<Rightarrow> (bridgeHandler \<Rightarrow> procHandler) \<Rightarrow> (string \<times> procHandler) list" where
  "bridgeTopics ts peerId on = [(TransferRequest ts peerId, on HSyncRequest), (EventPublish ts peerId, on HAsyncEvent)]"

definition subscriptions :: "Config \<Rightarrow> (string \<times> procHandler) list" where
  "subscriptions cfg =
    (let ts = NewDefaultTopicSet (cf_Tenant cfg); peerId = pc_Id (cf_Peer cfg);
         on = (\<lambda>t. bt_Enabled t \<and> bt_TargetUrl t \<noteq> []); b = cf_Bridges cfg
     in [(TransferResponseStream ts, OnResponse), (TransferResponseByRequestStream ts, OnResponse),
         (ts_PeerRegister ts, OnRegistry HRegister), (ts_PeerHeartbeat ts, OnRegistry HHeartbeat),
         (ts_PeerQuery ts, OnRegistry HQuery), (ts_PeerResourceReport ts, OnRegistry HResourceReport),
         (ts_PeerUnregister ts, OnRegistry HUnregister),
         (StreamOpen ts ''*'', OnStream HStreamOpen), (StreamClose ts ''*'', OnStream HStreamClose),
         (ts_HubBroadcast ts, OnHub HandleHub), (ts_AuthBroadcast ts, OnHub HandleAuth),
         (ts_PeerAuthVerify ts, OnVerify), (ts_PeerListQuery ts, OnListQuery)] @
        (if on (bg_Http b) then bridgeTopics ts peerId OnHttp else []) @
        (if on (bg_Coap b) then bridgeTopics ts peerId OnCoap else []) @
        map (\<lambda>(source, target). (source, OnMapping \<lparr>mm_Source = source, mm_Target = target\<rparr>)) (bg_MqttMappings b))"

lemma subscribes_chain:
  "list_all2 (subscribes subscribe) subss rs \<Longrightarrow> subscribes subscribe (concat subss) (foldr andThen rs (None, []))"
  by (induction rule: list_all2_induct) (simp_all add: subscribes_nothing subscribes_andThen)

lemma subscribes_all:
  "subs' = map (\<lambda>(t, h). (t, on h)) subs \<Longrightarrow> subscribes subscribe subs' (starting msg on (subscribeAll subscribe subs))"
  by (simp add: subscribes_starting)

lemma subscribes_labelled:
  "subs' = map (\<lambda>(t, h). (t, on h)) (map snd subs) \<Longrightarrow>
     subscribes subscribe subs' (starting msg on (subscribeLabelled subscribe subs))"
  by (simp only: subscribes_starting subscribeLabelled_all)

lemma hubStarted_eq:
  "hubStarted (hubStart subscribe s) = subscribeAll subscribe
     [(ts_HubBroadcast (hd_topics s), HandleHub), (ts_AuthBroadcast (hd_topics s), HandleAuth)]"
  by (simp add: hubStarted_def hubStart_def split: option.split)

lemma newServices_eq:
  "newServices boot cfg =
    (let aclService = buildAclService cfg;
         topics = NewDefaultTopicSet (cf_Tenant cfg);
         peerRegistry = NewPeerRegistryService topics (dur (di_LeaseTtlSec (cf_Discovery cfg)) Second)
           [WithAclService aclService];
         dataService = NewDdDataService (dur (sy_DefaultTimeoutMs (cf_Sync cfg)) Millisecond)
           [WithDataAclService aclService];
         http = bg_Http (cf_Bridges cfg); coap = bg_Coap (cf_Bridges cfg);
         mappings = bg_MqttMappings (cf_Bridges cfg)
     in \<lparr>ps_peerRegistry = peerRegistry, ps_dataService = dataService,
         ps_streamService = NewStreamService topics,
         ps_hubDiscovery = NewHubDiscoveryService topics (pc_Id (cf_Peer cfg)) (pc_Name (cf_Peer cfg))
           (pc_Role (cf_Peer cfg)) (broadcastInterval cfg) (broadcastTtl cfg),
         ps_authPeerService = newAuthService cfg,
         ps_peerListService = NewPeerListService topics peerRegistry (Some aclService)
           (di_MaxPageSize (cf_Discovery cfg)),
         ps_httpBridge = (if bt_Enabled http \<and> bt_TargetUrl http \<noteq> []
           then Some (NewHttpBridge topics (pc_Id (cf_Peer cfg)) (bt_TargetUrl http)) else None),
         ps_coapQueue = (if bt_Enabled coap \<and> bt_TargetUrl coap \<noteq> []
           then Some (startQueue topics (pc_Id (cf_Peer cfg)) (bt_TargetUrl coap)) else None),
         ps_mqttBridge = (if length mappings > 0
           then Some (map (\<lambda>(source, target). \<lparr>mm_Source = source, mm_Target = target\<rparr>) mappings) else None),
         ps_server = NewServer boot (Some cfg) topics peerRegistry (Some dataService) (Some aclService)
           (NewStreamService topics) NewResourceCatalog
           (Some (NewProtocolResourceIndex cfg topics peerRegistry NewResourceCatalog))\<rparr>)"
  by (simp add: newServices_def allocServices_def alloc_defs readProcess_def readServer_def NewPeerListService_def
      NewServer_def Let_def)

lemmas new_service_defs = newServices_eq newAuthService_def NewPeerRegistryService_def WithAclService_def
  NewStreamService_def NewHubDiscoveryService_def NewAuthPeerService_def SetSecret_def NewPeerListService_def
  NewHttpBridge_def NewCoapBridge_def NewServer_def

lemma newServices_sel:
  "sr_topics (ps_server (newServices boot cfg)) = NewDefaultTopicSet (cf_Tenant cfg)"
  "pr_topics (ps_peerRegistry (newServices boot cfg)) = NewDefaultTopicSet (cf_Tenant cfg)"
  "st_topics (ps_streamService (newServices boot cfg)) = NewDefaultTopicSet (cf_Tenant cfg)"
  "hd_topics (ps_hubDiscovery (newServices boot cfg)) = NewDefaultTopicSet (cf_Tenant cfg)"
  "au_topics (ps_authPeerService (newServices boot cfg)) = NewDefaultTopicSet (cf_Tenant cfg)"
  "pl_topics (ps_peerListService (newServices boot cfg)) = NewDefaultTopicSet (cf_Tenant cfg)"
  "ds_aclService (ps_dataService (newServices boot cfg)) = Some (buildAclService cfg)"
  by (simp_all add: new_service_defs NewDdDataService_def WithDataAclService_def Let_def)

abbreviation enabled_target :: "BridgeTargetCfg \<Rightarrow> bool" where
  "enabled_target t \<equiv> bt_Enabled t \<and> bt_TargetUrl t \<noteq> []"

lemma httpBridge_starts:
  "subscribes subscribe
     (if enabled_target (bg_Http (cf_Bridges cfg))
      then bridgeTopics (NewDefaultTopicSet (cf_Tenant cfg)) (pc_Id (cf_Peer cfg)) OnHttp else [])
     (case ps_httpBridge (newServices boot cfg) of None \<Rightarrow> (None, [])
      | Some b \<Rightarrow> starting msg OnHttp (httpStart subscribe b))"
  unfolding httpStart_def
  by (auto simp: newServices_eq Let_def NewHttpBridge_def bridgeTopics_def
      simp del: subscribeLabelled.simps intro!: subscribes_labelled subscribes_nothing)

lemma coapBridge_starts:
  "subscribes subscribe
     (if enabled_target (bg_Coap (cf_Bridges cfg))
      then bridgeTopics (NewDefaultTopicSet (cf_Tenant cfg)) (pc_Id (cf_Peer cfg)) OnCoap else [])
     (case ps_coapBridge (newServices boot cfg) of None \<Rightarrow> (None, [])
      | Some b \<Rightarrow> starting msg OnCoap (coapStart subscribe b))"
  unfolding coapStart_def
  by (auto simp: newServices_eq Let_def ps_coapBridge_def startQueue_def NewCoapBridge_def bridgeTopics_def
      simp del: subscribeLabelled.simps intro!: subscribes_labelled subscribes_nothing)

lemma mqttBridge_starts:
  "subscribes subscribe
     (map (\<lambda>(source, target). (source, OnMapping \<lparr>mm_Source = source, mm_Target = target\<rparr>))
       (bg_MqttMappings (cf_Bridges cfg)))
     (case ps_mqttBridge (newServices boot cfg) of None \<Rightarrow> (None, [])
      | Some b \<Rightarrow> starting msg OnMapping (mqttStart subscribe b))"
proof -
  let ?ms = "map (\<lambda>(source, target). \<lparr>mm_Source = source, mm_Target = target\<rparr>) (bg_MqttMappings (cf_Bridges cfg))"
  have "subscribes subscribe (map (\<lambda>(t, h). (t, OnMapping h)) (map (\<lambda>m. (mm_Source m, m)) ?ms))
      (starting msg OnMapping (mqttStart subscribe ?ms))"
    unfolding mqttStart_def by (rule subscribes_labelled) (simp only: mapping_labels)
  then show ?thesis
    by (auto simp: newServices_eq Let_def subscribes_nothing comp_def case_prod_unfold)
qed

lemma startAll_subscribes: "subscribes subscribe (subscriptions cfg) (startAll subscribe (newServices boot cfg))"
proof -
  let ?ts = "NewDefaultTopicSet (cf_Tenant cfg)" and ?b = "cf_Bridges cfg"
  have "list_all2 (subscribes subscribe)
      [[(TransferResponseStream ?ts, OnResponse)], [(TransferResponseByRequestStream ?ts, OnResponse)],
       [(ts_PeerRegister ?ts, OnRegistry HRegister), (ts_PeerHeartbeat ?ts, OnRegistry HHeartbeat),
        (ts_PeerQuery ?ts, OnRegistry HQuery), (ts_PeerResourceReport ?ts, OnRegistry HResourceReport),
        (ts_PeerUnregister ?ts, OnRegistry HUnregister)],
       [(StreamOpen ?ts ''*'', OnStream HStreamOpen), (StreamClose ?ts ''*'', OnStream HStreamClose)],
       [(ts_HubBroadcast ?ts, OnHub HandleHub), (ts_AuthBroadcast ?ts, OnHub HandleAuth)],
       [(ts_PeerAuthVerify ?ts, OnVerify)], [(ts_PeerListQuery ?ts, OnListQuery)],
       if enabled_target (bg_Http ?b) then bridgeTopics ?ts (pc_Id (cf_Peer cfg)) OnHttp else [],
       if enabled_target (bg_Coap ?b) then bridgeTopics ?ts (pc_Id (cf_Peer cfg)) OnCoap else [],
       map (\<lambda>(source, target). (source, OnMapping \<lparr>mm_Source = source, mm_Target = target\<rparr>)) (bg_MqttMappings ?b)]
      (startSteps subscribe (newServices boot cfg))"
    unfolding startSteps_def Let_def registryStart_def streamStart_def authStart_def peerListStart_def
      hubStarted_eq newServices_sel
    by (intro list_all2_Cons [THEN iffD2] conjI list.rel_intros httpBridge_starts coapBridge_starts
        mqttBridge_starts subscribes_all) simp_all
  from subscribes_chain [OF this] show ?thesis
    by (simp add: startAll_def subscriptions_def Let_def)
qed

text \<open>A run of subscriptions that stops, stops at a topic the broker refuses.\<close>

lemma subscribeAll_stop:
  assumes "subscribeAll subscribe subs = (Some err, done)"
  shows "\<exists>t h rest. subs = done @ (t, h) # rest \<and> subscribe t = Some err"
  using assms
proof (induction subs arbitrary: "done")
  case (Cons s subs)
  then show ?case by (cases s) (fastforce split: option.splits prod.splits)
qed simp

lemma subscribeAll_accepts:
  "fst (subscribeAll subscribe subs) = None \<Longrightarrow> (t, h) \<in> set subs \<Longrightarrow> subscribe t = None"
  by (induction subs) (auto split: option.splits prod.splits)

lemma buildAclService_denies:
  assumes "list_all (\<lambda>r. al_PeerId r \<noteq> peer) (cf_AclRules cfg)"
  shows "\<not> Authorize (buildAclService cfg) peer action topic"
  using assms
  by (auto simp: Authorize_iff applies_def buildAclService_def SetRules_def NewTopicAclService_def Let_def list_all_iff)

lemma main_start_Inr:
  assumes "main_start boot cenv tenv connect subscribe args = (Inr (cfg, client, p), subs)"
  shows "LoadWithArgs cenv (snd (ParseCliArgs args)) = Inr cfg" "p = newServices boot cfg" "subs = subscriptions cfg"
    "(t, h) \<in> set (subscriptions cfg) \<Longrightarrow> subscribe t = None"
  using assms startAll_subscribes [of subscribe cfg boot] subscribeAll_None [of subscribe "subscriptions cfg"]
    subscribeAll_accepts [of subscribe "subscriptions cfg" t h]
  by (auto simp: main_start_def subscribes_def split: sum.splits prod.splits option.splits)

text \<open>A run with the defaults, an environment and a command line.\<close>

definition authCli :: CliConfig where
  "authCli = demoCli\<lparr>cl_Role := ''auth''\<rparr>"

definition authArgs :: "string list" where
  "authArgs = flagsOf (\<lambda>name. True) authCli"

definition demoLoaded :: Config where
  "demoLoaded = (case LoadWithArgs demoCfgEnv authCli of Inl err \<Rightarrow> zeroConfig | Inr cfg \<Rightarrow> cfg)"

lemma demoLoaded_loads: "LoadWithArgs demoCfgEnv authCli = Inr demoLoaded"
  by (simp add: demoLoaded_def LoadWithArgs_def LoadPath_def MergeJson_def demoCfgEnv_def authCli_def demoCli_def)

lemma demoLoaded_sel:
  "cf_Tenant demoLoaded = ''cli''" "cf_AclRules demoLoaded = []" "tls_Enabled (mqc_TLS (mq_Mqtt (cf_Mq demoLoaded))) = False"
  "mqc_TopicAliasEnabled (mq_Mqtt (cf_Mq demoLoaded)) = False" "pc_Role (cf_Peer demoLoaded) = ''auth''"
  "bc_TtlSec (pc_Broadcast (cf_Peer demoLoaded)) = 30"
  by (simp_all add: demoLoaded_def LoadWithArgs_def LoadPath_def MergeJson_def demoCfgEnv_def authCli_def demoCli_def
      applyCliOverrides_def overStr_def merge_defs applyEnvOverrides_def envMqtt_def defaultConfig_def
      zeroConfig_def zeroTLS_def envTrue_def overInt_def)

abbreviation demo_main where
  "demo_main \<equiv> main_start 3 demoCfgEnv tlsEnv (\<lambda>opts. Connected None) (\<lambda>topic. None) authArgs"

lemma demo_up:
  "demo_main = (Inr (demoLoaded, \<lparr>mcl_topicAliasEnabled = False\<rparr>, newServices 3 demoLoaded), subscriptions demoLoaded)"
proof -
  have "NewMqttClient tlsEnv (\<lambda>opts. Connected None) (clientConfig demoLoaded) = Inr \<lparr>mcl_topicAliasEnabled = False\<rparr>"
    by (simp add: NewMqttClient_def connectWith_def clientConfig_def demoLoaded_sel Let_def)
  moreover have "startAll (\<lambda>topic. None) (newServices 3 demoLoaded) = (None, subscriptions demoLoaded)"
    using startAll_subscribes [of "\<lambda>topic. None" demoLoaded 3] subscribeAll_ok [of "\<lambda>topic. None" "subscriptions demoLoaded"]
    by (simp add: subscribes_def prod_eq_iff)
  ultimately show ?thesis
    by (simp add: main_start_def authArgs_def ParseCliArgs_flagsOf demoLoaded_loads)
qed

text \<open>No subscription of a process, the mappings aside, matches the topic a hub announces for
  registrations: they differ in the third level, or behind \<open>peer\<close>.\<close>

lemma register_topic_unmatched:
  assumes "CHR ''/'' \<notin> set t" "t \<noteq> ''#''" "cf_Tenant cfg = t" "(pattern, h) \<in> set (subscriptions cfg)"
    and "\<And>m. h \<noteq> OnMapping m"
  shows "\<not> matchMQTTTopic pattern (ts_PeerResourceRegister (NewDefaultTopicSet t))"
proof -
  define reg where "reg = ts_PeerResourceRegister (NewDefaultTopicSet t)"
  have levels: "split_on CHR ''/'' reg = [''dd'', t, ''peer'', ''resource'', ''register'']"
    using assms(1) by (simp add: reg_def NewDefaultTopicSet_def split_on_append split_on_no_sep)
  have "\<not> matchMQTTTopic pattern reg"
    using assms
    by (auto simp: subscriptions_def Let_def bridgeTopics_def topic_defs NewDefaultTopicSet_def
        matchMQTTTopic_def levels split_on_append split_on_no_sep split: if_splits)
  then show ?thesis by (simp add: reg_def)
qed

section \<open>Properties\<close>

text \<open>
  C16: the start of the process is all or nothing in what it serves: a process that comes up has
  made exactly the subscriptions of its configuration, in the order of \<open>main\<close>, and the broker took
  all of them; a process that exits has made a proper prefix of them and stopped at a topic the
  broker refused, unless it never got to subscribe.
\<close>

theorem startup_subscriptions:
  "case main_start boot cenv tenv connect subscribe args of
     (Inr (cfg, client, p), subs) \<Rightarrow> LoadWithArgs cenv (snd (ParseCliArgs args)) = Inr cfg \<and> subs = subscriptions cfg \<and>
       (\<forall>(t, h) \<in> set subs. subscribe t = None)
   | (Inl err, subs) \<Rightarrow> subs = [] \<or> (\<exists>cfg t h rest. LoadWithArgs cenv (snd (ParseCliArgs args)) = Inr cfg \<and>
       subscriptions cfg = subs @ (t, h) # rest \<and> subscribe t \<noteq> None)"
proof (cases "main_start boot cenv tenv connect subscribe args")
  case (Pair r subs)
  show ?thesis
  proof (cases r)
    case (Inr x)
    obtain cfg client p where "x = (cfg, client, p)" by (cases x)
    with Pair Inr main_start_Inr [of boot cenv tenv connect subscribe args cfg client p subs] show ?thesis by auto
  next
    case (Inl err)
    with Pair consider "subs = []" | cfg where "LoadWithArgs cenv (snd (ParseCliArgs args)) = Inr cfg"
      "startAll subscribe (newServices boot cfg) = (Some err, subs)"
      by (auto simp: main_start_def split: sum.splits prod.splits option.splits)
    then show ?thesis
    proof cases
      case 2
      then obtain e where "subscribeAll subscribe (subscriptions cfg) = (Some e, subs)"
        using startAll_subscribes [of subscribe cfg boot] by (cases "subscribeAll subscribe (subscriptions cfg)") (auto simp: subscribes_def)
      with subscribeAll_stop [of subscribe "subscriptions cfg" e subs] 2 Pair Inl show ?thesis by auto
    qed (simp add: Pair Inl)
  qed
qed

theorem startup_subscriptions_witness:
  "LoadWithArgs demoCfgEnv (snd (ParseCliArgs authArgs)) = Inr demoLoaded \<and>
   snd demo_main = subscriptions demoLoaded \<and> (''dd/cli/peer/query'', OnRegistry HQuery) \<in> set (snd demo_main)"
proof -
  have "LoadWithArgs demoCfgEnv (snd (ParseCliArgs authArgs)) = Inr demoLoaded \<and> snd demo_main = subscriptions demoLoaded"
    using startup_subscriptions [where boot = 3 and cenv = demoCfgEnv and tenv = tlsEnv and
        connect = "\<lambda>opts. Connected None" and subscribe = "\<lambda>topic. None" and args = authArgs]
    unfolding demo_up by simp
  then show ?thesis
    by (simp add: subscriptions_def Let_def NewDefaultTopicSet_def demoLoaded_sel)
qed

text \<open>
  C17: peers the access rules do not name can send nothing: in a process that came up, a message whose
  source peer is the peer of no rule is refused by both send operations, with the
  ACL error and nothing published. So a configuration without rules, or one with
  rules for the peer \<open>*\<close> only, refuses every transfer of a peer with an ordinary name.
\<close>

theorem unnamed_peer_refused:
  assumes up: "main_start boot cenv tenv connect subscribe args = (Inr (cfg, client, p), subs)"
    and unnamed: "list_all (\<lambda>r. al_PeerId r \<noteq> h_SourcePeerId (m_Header (Normalize msg))) (cf_AclRules cfg)"
  shows "let denied = ErrAclDeniedMsg (h_SourcePeerId (m_Header (Normalize msg))) ''pub'' topic in
    (\<exists>s' msg'. SendSync_begin env now (ps_dataService p) topic (Some msg) = (Some (Inl denied), s', msg', [])) \<and>
    (\<exists>s'. SendAsync env now (ps_dataService p) topic (Some msg) = (Some denied, s', []))"
proof -
  have "ds_aclService (ps_dataService p) = Some (buildAclService cfg)"
    using main_start_Inr(2) [OF up] by (simp add: newServices_sel)
  from send_refused [OF this buildAclService_denies [OF unnamed], of env now topic] show ?thesis
    by (auto simp: Let_def)
qed

theorem unnamed_peer_refused_witness:
  "let denied = ErrAclDeniedMsg (h_SourcePeerId (m_Header (Normalize pingMsg))) ''pub'' ''t'' in
    (\<exists>s' msg'. SendSync_begin okEnv 7 (ps_dataService (newServices 3 demoLoaded)) ''t'' (Some pingMsg) =
      (Some (Inl denied), s', msg', [])) \<and>
    (\<exists>s'. SendAsync okEnv 7 (ps_dataService (newServices 3 demoLoaded)) ''t'' (Some pingMsg) = (Some denied, s', []))"
  by (rule unnamed_peer_refused [OF demo_up]) (simp add: demoLoaded_sel)

text \<open>
  C18: a process that came up hears the reply to a request exactly when its client does not alias
  topics: under the MQTT rules, and with what the client makes of both sides, some subscription that
  leads to the data service matches the topic of the reply when the alias is off, whatever the
  request id (of one level), and none does when it is on.
\<close>

theorem process_hears_replies:
  assumes up: "main_start boot cenv tenv connect subscribe args = (Inr (cfg, client, p), subs)"
    and tenant: "CHR ''/'' \<notin> set (cf_Tenant cfg)" "plain_topic (cf_Tenant cfg)"
    and names: "CHR ''#'' \<notin> set (cf_Tenant cfg @ rid)" "CHR ''+'' \<notin> set (cf_Tenant cfg @ rid)" "CHR ''/'' \<notin> set rid"
  shows "(\<exists>pattern. (pattern, OnResponse) \<in> set subs \<and>
      matchMQTTTopic (aliasTopic (mcl_topicAliasEnabled client) pattern)
        (aliasTopic (mcl_topicAliasEnabled client) (TransferResponseByRequest (sr_topics (ps_server p)) rid))) \<longleftrightarrow>
    \<not> mcl_topicAliasEnabled client"
proof -
  let ?ts = "NewDefaultTopicSet (cf_Tenant cfg)"
  let ?reply = "TransferResponseByRequest ?ts rid"
  have ts: "sr_topics (ps_server p) = ?ts" "ts_tenant ?ts = cf_Tenant cfg"
    using main_start_Inr(2) [OF up] by (simp_all add: newServices_sel NewDefaultTopicSet_def)
  have patterns: "(pattern, OnResponse) \<in> set subs \<longleftrightarrow>
      pattern = TransferResponseStream ?ts \<or> pattern = TransferResponseByRequestStream ?ts" for pattern
    unfolding main_start_Inr(3) [OF up] by (auto simp: subscriptions_def Let_def bridgeTopics_def)
  show ?thesis
  proof (cases "mcl_topicAliasEnabled client")
    case False
    then have "matchMQTTTopic (aliasTopic (mcl_topicAliasEnabled client) (TransferResponseByRequestStream ?ts))
        (aliasTopic (mcl_topicAliasEnabled client) ?reply)"
      using tenant names(3) by (auto simp: aliasTopic_def svc_match.response_by_request_iff ts(2))
    with False show ?thesis by (auto simp: patterns ts(1))
  next
    case True
    obtain h where "split_on CHR ''/'' (aliasTopic True ?reply) = [''dd'', cf_Tenant cfg, ''ta'', h]"
      using alias_response_levels [of ?ts rid] tenant names by (auto simp: ts(2))
    moreover have "aliasTopic True (TransferResponseStream ?ts) = TransferResponseStream ?ts"
      "aliasTopic True (TransferResponseByRequestStream ?ts) = TransferResponseByRequestStream ?ts"
      by (simp_all add: aliasTopic_def topic_defs)
    moreover have "cf_Tenant cfg \<noteq> ''#''" using names(1) by auto
    moreover have "split_on CHR ''/'' (TransferResponseStream ?ts) = [''dd'', cf_Tenant cfg, ''transfer'', ''+'', ''response'']"
      using tenant(1) by (simp add: topic_defs split_on_append ts(2))
    ultimately show ?thesis
      using True tenant(1) by (auto simp: patterns ts matchMQTTTopic_def response_stream_levels split: if_splits)
  qed
qed

theorem process_hears_replies_witness:
  "(\<exists>pattern. (pattern, OnResponse) \<in> set (subscriptions demoLoaded) \<and>
      matchMQTTTopic (aliasTopic (mcl_topicAliasEnabled \<lparr>mcl_topicAliasEnabled = False\<rparr>) pattern)
        (aliasTopic (mcl_topicAliasEnabled \<lparr>mcl_topicAliasEnabled = False\<rparr>)
          (TransferResponseByRequest (sr_topics (ps_server (newServices 3 demoLoaded))) ''req-1''))) \<longleftrightarrow>
    \<not> mcl_topicAliasEnabled \<lparr>mcl_topicAliasEnabled = False\<rparr>"
  by (rule process_hears_replies [OF demo_up]) (simp_all add: demoLoaded_sel plain_topic_level)

text \<open>
  The numbers a process runs with are sound whatever the configuration says: the broadcast
  interval and the lifetime of a broadcast are positive, so the broadcast loop never panics, the
  largest page is positive and within 64 bits when the configured one is, and no more
  than 1024 calls wait.
\<close>

lemma startup_bounds:
  assumes "main_start boot cenv tenv connect subscribe args = (Inr (cfg, client, p), subs)"
  shows "0 < hd_interval (ps_hubDiscovery p) \<and> in_i64 (hd_interval (ps_hubDiscovery p)) \<and>
    0 < hd_ttlSec (ps_hubDiscovery p) \<and>
    startBroadcastLoop marshal (ps_hubDiscovery p) events \<noteq> None \<and>
    0 < pl_maxPageSize (ps_peerListService p) \<and>
    (in_i64 (di_MaxPageSize (cf_Discovery cfg)) \<longrightarrow> in_i64 (pl_maxPageSize (ps_peerListService p))) \<and>
    ds_maxPendingRequests (ps_dataService p) = 1024"
proof -
  have "in_i64 (10 * Second)" "in_i64 100" by (simp_all add: in_i64_def Second_def)
  then show ?thesis
    unfolding main_start_Inr(2) [OF assms]
    by (simp add: newServices_eq Let_def NewHubDiscoveryService_def broadcastInterval_def broadcastTtl_def
        NewPeerListService_def NewDdDataService_def WithDataAclService_def startBroadcastLoop_def
        dur_def Second_def)
qed

text \<open>
  C33: what a hub announces against what it serves: a process that came up has subscribed the announced
  topics for verify requests and for list queries with their handlers, but no subscription
  of it, other than a configured mapping, matches the announced topic for registrations: an
  edge that registers where the broadcast tells it to is heard by nobody.
\<close>

theorem announced_topics_served:
  assumes up: "main_start boot cenv tenv connect subscribe args = (Inr (cfg, client, p), subs)"
    and tenant: "CHR ''/'' \<notin> set (cf_Tenant cfg)" "cf_Tenant cfg \<noteq> ''#''"
  shows "let msg = hubBroadcastMsg (ps_hubDiscovery p) now in
    (hb_AuthTopic msg, OnVerify) \<in> set subs \<and> (hb_QueryTopic msg, OnListQuery) \<in> set subs \<and>
    (\<forall>(pattern, h) \<in> set subs. matchMQTTTopic pattern (hb_RegisterTopic msg) \<longrightarrow> (\<exists>m. h = OnMapping m))"
proof -
  let ?ts = "NewDefaultTopicSet (cf_Tenant cfg)"
  have ts: "hd_topics (ps_hubDiscovery p) = ?ts"
    unfolding main_start_Inr(2) [OF up] by (simp add: newServices_sel)
  have "\<not> matchMQTTTopic pattern (ts_PeerResourceRegister ?ts)"
    if "(pattern, h) \<in> set subs" "\<And>m. h \<noteq> OnMapping m" for pattern h
    using that register_topic_unmatched [OF tenant refl] main_start_Inr(3) [OF up] by simp
  then show ?thesis
    unfolding main_start_Inr(3) [OF up]
    by (auto simp: hubBroadcastMsg_def ts subscriptions_def Let_def)
qed

theorem announced_topics_served_witness:
  "let msg = hubBroadcastMsg (ps_hubDiscovery (newServices 3 demoLoaded)) 5 in
    (hb_AuthTopic msg, OnVerify) \<in> set (subscriptions demoLoaded) \<and>
    (hb_QueryTopic msg, OnListQuery) \<in> set (subscriptions demoLoaded) \<and>
    (\<forall>(pattern, h) \<in> set (subscriptions demoLoaded).
      matchMQTTTopic pattern (hb_RegisterTopic msg) \<longrightarrow> (\<exists>m. h = OnMapping m))"
  by (rule announced_topics_served [OF demo_up]) (simp_all add: demoLoaded_sel)

text \<open>
  An authentication peer announces itself once, when it starts, and with the configured suffix
  as the topic to ask on, as it stands: an edge that hears it knows it for the lifetime of that one
  announcement and then knows no authentication peer, however long the process goes on; and the
  announced topic is one the process subscribed for verify requests only when the whole topic
  was configured.
\<close>

lemma auth_announced_once:
  assumes up: "main_start boot cenv tenv connect subscribe args = (Inr (cfg, client, p), subs)"
    and role: "pc_Role (cf_Peer cfg) = ''auth''"
    and json_writes: "marshal (authBroadcastMsg (ps_hubDiscovery p) start
          (ac_VerifyTopicSuffix (pc_Auth (cf_Peer cfg))) []) = Inr raw"
    and json_reads_back: "unmarshal raw = Some (authBroadcastMsg (ps_hubDiscovery p) start
          (ac_VerifyTopicSuffix (pc_Auth (cf_Peer cfg))) [])"
    and ttl: "broadcastTtl cfg < 2 ^ 32"
  shows "let out = authAnnouncement marshal start cfg p;
      edge = receiveAuths unmarshal (NewHubDiscoveryService topics i n r d t :: 'h HubDiscoveryService) (map snd out)
    in length out = 1 \<and>
      (GetActiveAuth edge now \<noteq> None \<longleftrightarrow> now - start \<le> broadcastTtl cfg * Second) \<and>
      (\<forall>a. GetActiveAuth edge now = Some a \<longrightarrow>
        ab_VerifyTopic a = ac_VerifyTopicSuffix (pc_Auth (cf_Peer cfg)) \<and>
        ((ab_VerifyTopic a, OnVerify) \<in> set subs \<longleftrightarrow>
          ac_VerifyTopicSuffix (pc_Auth (cf_Peer cfg)) = ''dd/'' @ cf_Tenant cfg @ ''/peer/auth/verify''))"
proof -
  have p: "hd_ttlSec (ps_hubDiscovery p) = broadcastTtl cfg" and ttl0: "0 \<le> broadcastTtl cfg"
    unfolding main_start_Inr(2) [OF up]
    by (simp_all add: newServices_eq Let_def NewHubDiscoveryService_def broadcastTtl_def)
  have "(v, OnVerify) \<in> set subs \<longleftrightarrow> v = ''dd/'' @ cf_Tenant cfg @ ''/peer/auth/verify''" for v
    unfolding main_start_Inr(3) [OF up]
    by (auto simp: subscriptions_def Let_def bridgeTopics_def NewDefaultTopicSet_def)
  then show ?thesis
    using role json_writes json_reads_back stillAlive_iff [OF ttl0 ttl]
    by (auto simp: authAnnouncement_def BroadcastAuth_def Let_def receiveAuths_def handleAuthBroadcast_def
        GetActiveAuth_def NewHubDiscoveryService_def gm_set_def authBroadcastMsg_def p)
qed

end
