(* ===== verification/Process_Run.thy ===== *)
theory Process_Run
  imports Startup
begin

text \<open>
  The running process: what \<open>main\<close> has put together (theory \<open>Startup\<close>), message by message. A step is one
  thing the process does to its services: a message the broker hands to a subscribed handler, a request
  of the HTTP API, the end of a waiting call, a move of the CoAP queue, a tick of a sweeper, the
  registration of the process itself. The registry, the data service, the stream service and the catalog are objects on the heap of theory
  \<open>Startup\<close>: a handler reads and writes them through the pointer of the one that owns it
  (\<open>mainWrites\<close>, \<open>serverWrites\<close>), and nobody else is told.
\<close>

section \<open>The state\<close>

text \<open>What the process uses from elsewhere: the decoders and encoders of its messages.\<close>

record ProcEnv =
  pe_data :: DataEnv
  pe_bridge :: BridgeEnv
  pe_register :: "bytes \<Rightarrow> DdPeerRegisterEvent option"
  pe_heartbeat :: "bytes \<Rightarrow> DdPeerHeartbeatEvent option"
  pe_report :: "bytes \<Rightarrow> DdPeerResourceReportEvent option"
  pe_query :: "bytes \<Rightarrow> DdPeerQueryRequest option"
  pe_queryResponse :: "DdPeerQueryResponse \<Rightarrow> go_error + bytes"
  pe_streamOpen :: "bytes \<Rightarrow> StreamOpenEvent option"
  pe_streamClose :: "bytes \<Rightarrow> StreamCloseEvent option"
  pe_hub :: "bytes \<Rightarrow> HubBroadcast option"
  pe_auth :: "bytes \<Rightarrow> AuthBroadcast option"
  pe_hmac :: "string \<Rightarrow> string \<Rightarrow> bytes"
  pe_b64 :: "bytes \<Rightarrow> string"
  pe_verify :: "bytes \<Rightarrow> PeerAuthRequest option"
  pe_verifyResponse :: "PeerAuthResponse \<Rightarrow> bytes"
  pe_list :: "bytes \<Rightarrow> PeerListQuery option"
  pe_listResponse :: "PeerListResponse \<Rightarrow> go_error + bytes"

text \<open>The heap and the pointers into it, what \<open>main\<close> keeps besides, the calls of \<open>SendSync\<close> that wait, and what
  was registered over the API. \<open>rn_proc\<close> is the process as its holders see it, each through its own pointers.\<close>

record Running =
  rn_heap :: Heap
  rn_ptrs :: Pointers
  rn_local :: Process
  rn_calls :: "(DdMessage \<times> gotime) list"
  rn_regs :: "(string \<times> string) list"

definition rn_proc :: "Running \<Rightarrow> Process" where
  "rn_proc r = readProcess (rn_heap r) (rn_ptrs r) (rn_local r)"

definition startRunning :: "gotime \<Rightarrow> Config \<Rightarrow> Running" where
  "startRunning boot cfg = (case allocServices boot cfg of (h, pt, p) \<Rightarrow>
     \<lparr>rn_heap = h, rn_ptrs = pt, rn_local = p, rn_calls = [], rn_regs = []\<rparr>)"

text \<open>A method that \<open>main\<close> or a subscription of a service has run writes the object \<open>main\<close> points to; a handler
  of the API writes the objects the server points to.\<close>

definition mainWrites :: "Process \<Rightarrow> Running \<Rightarrow> Running" where
  "mainWrites p r = r\<lparr>rn_heap := (rn_heap r)
     \<lparr>hp_registries := (hp_registries (rn_heap r))[pt_peerRegistry (rn_ptrs r) := ps_peerRegistry p],
      hp_dataServices := (hp_dataServices (rn_heap r))[pt_dataService (rn_ptrs r) := ps_dataService p],
      hp_streamServices := (hp_streamServices (rn_heap r))[pt_streamService (rn_ptrs r) := ps_streamService p]\<rparr>,
     rn_local := p\<rparr>"

definition serverWrites :: "Server \<Rightarrow> Running \<Rightarrow> Running" where
  "serverWrites s r = r\<lparr>rn_heap := (rn_heap r)
     \<lparr>hp_registries := (hp_registries (rn_heap r))[pt_serverRegistry (rn_ptrs r) := sr_peerRegistry s],
      hp_dataServices := (case sr_dataService s of None \<Rightarrow> hp_dataServices (rn_heap r)
        | Some ds \<Rightarrow> (hp_dataServices (rn_heap r))[pt_serverData (rn_ptrs r) := ds]),
      hp_streamServices := (hp_streamServices (rn_heap r))[pt_serverStreams (rn_ptrs r) := sr_streamService s],
      hp_catalogs := (hp_catalogs (rn_heap r))[pt_serverCatalog (rn_ptrs r) := sr_resourceCatalog s]\<rparr>,
     rn_local := (rn_local r)\<lparr>ps_server := s\<rparr>\<rparr>"

section \<open>Messages from the broker\<close>

text \<open>The handlers subscribed by the services. What the HTTP target of a bridge does is a parameter, and so is the order
  in which a list query finds the peers; the handler of the CoAP bridge passes the first \<open>select\<close> of
  \<open>enqueueTask\<close>, what it does from there on is a step of the queue. \<open>None\<close> is a panic, which ends the process.\<close>

fun onRegistry :: "ProcEnv \<Rightarrow> gotime \<Rightarrow> registryHandler \<Rightarrow> bytes \<Rightarrow> PeerRegistryService \<Rightarrow> PeerRegistryService \<times> outbox" where
  "onRegistry env now HRegister payload s = (handleRegister (pe_register env) now s payload, [])"
| "onRegistry env now HHeartbeat payload s = (handleHeartbeat (pe_heartbeat env) now s payload, [])"
| "onRegistry env now HQuery payload s = (s, handleQuery (pe_query env) (pe_queryResponse env) now s payload)"
| "onRegistry env now HResourceReport payload s = (handleResourceReport (pe_report env) now s payload, [])"
| "onRegistry env now HUnregister payload s = (handleUnregister (pe_heartbeat env) s payload, [])"

fun onStream :: "ProcEnv \<Rightarrow> gotime \<Rightarrow> streamHandler \<Rightarrow> bytes \<Rightarrow> StreamService \<Rightarrow> StreamService" where
  "onStream env now HStreamOpen payload s = handleStreamOpen (pe_streamOpen env) now s payload"
| "onStream env now HStreamClose payload s = handleStreamClose (pe_streamClose env) now s payload"

fun onHub :: "ProcEnv \<Rightarrow> hubHandler \<Rightarrow> bytes \<Rightarrow> 'h HubDiscoveryService \<Rightarrow> 'h HubDiscoveryService" where
  "onHub env HandleHub payload s = fst (handleHubBroadcast (pe_hub env) s payload)"
| "onHub env HandleAuth payload s = fst (handleAuthBroadcast (pe_auth env) s payload)"

fun onHttp :: "ProcEnv \<Rightarrow> (nat \<Rightarrow> httpRequest \<Rightarrow> httpOutcome) \<Rightarrow> (nat \<Rightarrow> gotime) \<Rightarrow> gotime \<Rightarrow> gotime \<Rightarrow> bridgeHandler \<Rightarrow>
    string \<Rightarrow> bytes \<Rightarrow> HttpBridge \<Rightarrow> HttpBridge \<times> outbox" where
  "onHttp env call clock start now HSyncRequest topic payload b =
     http_handleSyncRequest (pe_bridge env) call clock start now b topic payload"
| "onHttp env call clock start now HAsyncEvent topic payload b =
     http_handleAsyncEvent (pe_bridge env) call clock start now b topic payload"

fun deliver :: "ProcEnv \<Rightarrow> (nat \<Rightarrow> httpRequest \<Rightarrow> httpOutcome) \<Rightarrow> (nat \<Rightarrow> gotime) \<Rightarrow> peerOrder \<Rightarrow> gotime \<Rightarrow> gotime \<Rightarrow>
    procHandler \<Rightarrow> string \<Rightarrow> bytes \<Rightarrow> Process \<Rightarrow> (Process \<times> outbox) option" where
  "deliver env call clock visit start now OnResponse topic payload p =
     Some (p\<lparr>ps_dataService := handleSyncResponse (be_unmarshal (pe_bridge env)) (be_gunzip (pe_bridge env))
       (ps_dataService p) payload\<rparr>, [])"
| "deliver env call clock visit start now (OnRegistry h) topic payload p =
     (case onRegistry env now h payload (ps_peerRegistry p) of (reg, out) \<Rightarrow> Some (p\<lparr>ps_peerRegistry := reg\<rparr>, out))"
| "deliver env call clock visit start now (OnStream h) topic payload p =
     Some (p\<lparr>ps_streamService := onStream env now h payload (ps_streamService p)\<rparr>, [])"
| "deliver env call clock visit start now (OnHub h) topic payload p =
     Some (p\<lparr>ps_hubDiscovery := onHub env h payload (ps_hubDiscovery p)\<rparr>, [])"
| "deliver env call clock visit start now OnVerify topic payload p =
     Some (p, handleVerifyReq (pe_hmac env) (pe_b64 env) (pe_verify env) (pe_verifyResponse env) (ps_authPeerService p) payload)"
| "deliver env call clock visit start now OnListQuery topic payload p =
     map_option (Pair p) (handleListQuery (pe_list env) (pe_listResponse env) visit now (ps_peerListService p) payload)"
| "deliver env call clock visit start now (OnHttp h) topic payload p =
     Some (case ps_httpBridge p of None \<Rightarrow> (p, [])
       | Some b \<Rightarrow> (case onHttp env call clock start now h topic payload b of (b, out) \<Rightarrow> (p\<lparr>ps_httpBridge := Some b\<rparr>, out)))"
| "deliver env call clock visit start now (OnCoap h) topic payload p =
     Some (p\<lparr>ps_coapQueue := map_option
       (enqueueCheck \<lparr>ct_topic = topic, ct_payload = payload, ct_isSync = (h = HSyncRequest)\<rparr>) (ps_coapQueue p)\<rparr>, [])"
| "deliver env call clock visit start now (OnMapping m) topic payload p =
     Some (p, snd (mqttForward (be_publish (pe_bridge env)) start now m topic payload))"

section \<open>Runs\<close>

text \<open>The requests that only read, apart from the counts of the index.\<close>

definition indexReads :: "IndexEnv \<Rightarrow> string \<Rightarrow> string \<Rightarrow> string \<Rightarrow> Server \<Rightarrow> Server set" where
  "indexReads ienv name dir qos s =
     {snd (handleHTTPProtocolResources ienv s), snd (handleHTTPProtocolResourceByName ienv s name),
      snd (handleCoapProtocolResources ienv s), snd (handleCoapProtocolResourceByName ienv s name),
      snd (handleMqttProtocolTopics ienv s dir name qos), snd (handleMqttProtocolTopicByName ienv s name)}"

text \<open>In \<open>coap\<close> an enqueuer sends, a worker takes, handles or leaves, or \<open>main\<close>, after a signal, is inside \<open>Stop\<close>; a new
  task comes in by a message only. A panic is no step: it ends the process.\<close>

inductive process_run :: "ProcEnv \<Rightarrow> gotime \<Rightarrow> Config \<Rightarrow> Running \<Rightarrow> bool" for penv boot cfg where
  up: "process_run penv boot cfg (startRunning boot cfg)"
| message: "process_run penv boot cfg r \<Longrightarrow> (pattern, h) \<in> set (subscriptions cfg) \<Longrightarrow>
    deliver penv call clock visit start now h topic payload (rn_proc r) = Some (p, out) \<Longrightarrow>
    process_run penv boot cfg (mainWrites p r)"
| coap: "process_run penv boot cfg r \<Longrightarrow> ps_coapQueue (rn_proc r) = Some q \<Longrightarrow> queue_step q q' \<Longrightarrow>
    length (cq_checked q') \<le> length (cq_checked q) \<Longrightarrow> \<not> cq_panicked q' \<Longrightarrow>
    process_run penv boot cfg (mainWrites ((rn_proc r)\<lparr>ps_coapQueue := Some q'\<rparr>) r)"
| api_register: "process_run penv boot cfg r \<Longrightarrow> ae_data env = pe_data penv \<Longrightarrow>
    handlePeerRegister env now (ps_server (rn_proc r)) ro = (resp, s, out) \<Longrightarrow>
    process_run penv boot cfg (serverWrites s (r\<lparr>rn_regs := registeredBy ro resp @ rn_regs r\<rparr>))"
| api_unregister: "process_run penv boot cfg r \<Longrightarrow> ae_data env = pe_data penv \<Longrightarrow>
    handlePeerUnregister env now (ps_server (rn_proc r)) k = (resp', s, out) \<Longrightarrow>
    process_run penv boot cfg (serverWrites s r)"
| api_sync: "process_run penv boot cfg r \<Longrightarrow> ae_data env = pe_data penv \<Longrightarrow>
    handleTransferSync env now (ps_server (rn_proc r)) x req = Some (answer, s, msg, out) \<Longrightarrow>
    process_run penv boot cfg (serverWrites s (r\<lparr>rn_calls :=
      if answer = None then rn_calls r @ [(msg, now)] else rn_calls r\<rparr>))"
| api_async: "process_run penv boot cfg r \<Longrightarrow> ae_data env = pe_data penv \<Longrightarrow>
    handleTransferAsync env now (ps_server (rn_proc r)) x req = Some (resp, s, out) \<Longrightarrow>
    process_run penv boot cfg (serverWrites s r)"
| api_batch: "process_run penv boot cfg r \<Longrightarrow> ae_data env = pe_data penv \<Longrightarrow>
    handleTransferAsyncBatch env now (ps_server (rn_proc r)) x items = Some (resp, s, out) \<Longrightarrow>
    process_run penv boot cfg (serverWrites s r)"
| api_index: "process_run penv boot cfg r \<Longrightarrow> s \<in> indexReads ienv name dir qos (ps_server (rn_proc r)) \<Longrightarrow>
    process_run penv boot cfg (serverWrites s r)"
| call_ends: "process_run penv boot cfg r \<Longrightarrow> (msg, start) \<in> set (rn_calls r) \<Longrightarrow>
    sr_dataService (ps_server (rn_proc r)) = Some ds \<Longrightarrow> selectReady ds start now msg ev \<Longrightarrow>
    SendSync_finish start now ds msg ev = (result, ds') \<Longrightarrow>
    process_run penv boot cfg (serverWrites ((ps_server (rn_proc r))\<lparr>sr_dataService := Some ds'\<rparr>)
      (r\<lparr>rn_calls := remove1 (msg, start) (rn_calls r)\<rparr>))"
| auto_register: "process_run penv boot cfg r \<Longrightarrow>
    autoRegister mr (en_publish (pe_data penv)) now cfg (rn_proc r) = (err, reg, out) \<Longrightarrow>
    process_run penv boot cfg (mainWrites ((rn_proc r)\<lparr>ps_peerRegistry := reg\<rparr>) r)"
| peer_sweep: "process_run penv boot cfg r \<Longrightarrow>
    process_run penv boot cfg (mainWrites ((rn_proc r)\<lparr>ps_peerRegistry := sweepStale (ps_peerRegistry (rn_proc r)) now\<rparr>) r)"
| stream_sweep: "process_run penv boot cfg r \<Longrightarrow>
    process_run penv boot cfg (mainWrites (streamSweeper [now] (rn_proc r)) r)"
| key_sweep: "process_run penv boot cfg r \<Longrightarrow>
    process_run penv boot cfg (mainWrites ((rn_proc r)\<lparr>ps_dataService := sweepIdempotent now (ps_dataService (rn_proc r))\<rparr>) r)"
| status_sweep: "process_run penv boot cfg r \<Longrightarrow>
    process_run penv boot cfg (mainWrites ((rn_proc r)\<lparr>ps_dataService := sweepTransferStatuses now (ps_dataService (rn_proc r))\<rparr>) r)"

section \<open>What the transfers of the API do to the data service\<close>

lemma syncBroker_data:
  assumes "syncBroker env now s resource m = (answer, s', msg, out)"
  shows "sr_dataService s' = sr_dataService s \<and> answer \<noteq> None \<or>
    (\<exists>ds ds' topic r. sr_dataService s = Some ds \<and> sr_dataService s' = Some ds' \<and>
      SendSync_begin (ae_data env) now ds topic (Some m) = (r, ds', msg, out) \<and> (answer = None \<longleftrightarrow> r = None))"
proof (cases "sr_dataService s")
  case None
  with assms show ?thesis by (auto simp: syncBroker_def srvCount_def)
next
  case (Some ds)
  obtain r ds' m' out' where "SendSync_begin (ae_data env) now ds (TransferRequest (sr_topics s) resource) (Some m) =
      (r, ds', m', out')" by (metis prod_cases4)
  with assms Some show ?thesis
    by (intro disjI2 exI [of _ ds] exI [of _ ds'] exI [of _ "TransferRequest (sr_topics s) resource"] exI [of _ r])
      (auto simp: syncBroker_def srvCount_def)
qed

lemma sync_data:
  assumes "handleTransferSync env now s x ro = Some (answer, s', msg, out)"
  shows "sr_dataService s' = sr_dataService s \<and> answer \<noteq> None \<or>
    (\<exists>ds ds' topic m r. sr_dataService s = Some ds \<and> sr_dataService s' = Some ds' \<and>
      SendSync_begin (ae_data env) now ds topic (Some m) = (r, ds', msg, out) \<and> (answer = None \<longleftrightarrow> r = None))"
proof -
  have "sr_dataService s' = sr_dataService s \<and> answer \<noteq> None \<or>
    (\<exists>s1 resource m. syncBroker env now s1 resource m = (answer, s', msg, out) \<and> sr_dataService s1 = sr_dataService s)"
    using assms
    by (fastforce simp: handleTransferSync_def srvCount_def dest!: validateRequestMeta_server
        split: option.splits prod.splits sum.splits if_splits)
  then show ?thesis
    using syncBroker_data by metis
qed

lemma asyncBroker_data:
  assumes "asyncBroker env now s resource m = (resp, s', out)"
  shows "sr_dataService s' = sr_dataService s \<or>
    (\<exists>ds ds' topic mo e. sr_dataService s = Some ds \<and> sr_dataService s' = Some ds' \<and>
      SendAsync (ae_data env) now ds topic mo = (e, ds', out))"
  using assms by (auto simp: asyncBroker_def Let_def srvCount_def split: option.splits prod.splits)

lemma async_data:
  assumes "handleTransferAsync env now s x ro = Some (resp, s', out)"
  shows "sr_dataService s' = sr_dataService s \<or>
    (\<exists>ds ds' topic mo e. sr_dataService s = Some ds \<and> sr_dataService s' = Some ds' \<and>
      SendAsync (ae_data env) now ds topic mo = (e, ds', out))"
  using assms
  by (auto 0 3 simp: handleTransferAsync_def srvCount_def dest!: validateRequestMeta_server
      dest: asyncBroker_data split: option.splits prod.splits if_splits)

text \<open>A batch is a run of asynchronous sends.\<close>

abbreviation sends :: "DataEnv \<Rightarrow> gotime \<Rightarrow> DdDataService \<Rightarrow> DdDataService \<Rightarrow> bool" where
  "sends env now \<equiv> (\<lambda>ds ds'. \<exists>topic m e out. SendAsync env now ds topic m = (e, ds', out))\<^sup>*\<^sup>*"

lemma batchItem_data:
  "batchItem env now x i item s ds = Some (res, s', ds', out) \<Longrightarrow> sends (ae_data env) now ds ds'"
  by (fastforce simp: batchItem_def batchSend_def Let_def split: option.splits prod.splits if_splits)

lemma batchLoop_data:
  "batchLoop env now x i items acc s ds = Some (res, s', ds', out) \<Longrightarrow> sends (ae_data env) now ds ds'"
proof (induction env now x i items acc s ds arbitrary: res s' ds' out rule: batchLoop.induct)
  case (2 env now x i item items accepted failed results s ds)
  then obtain ok r s1 ds1 out1 where item: "batchItem env now x i item s ds = Some ((ok, r), s1, ds1, out1)"
    by (auto split: option.splits prod.splits)
  with 2 have "sends (ae_data env) now ds1 ds'"
    by (auto split: option.splits)
  with batchItem_data [OF item] show ?case by (rule rtranclp_trans)
qed simp

lemma batch_data:
  "handleTransferAsyncBatch env now s x items = Some (resp, s', out) \<Longrightarrow>
    sr_dataService s' = sr_dataService s \<or>
    (\<exists>ds ds'. sr_dataService s = Some ds \<and> sr_dataService s' = Some ds' \<and> sends (ae_data env) now ds ds')"
  by (auto simp: handleTransferAsyncBatch_def Let_def srvCount_def dest!: batchLoop_data
      split: option.splits prod.splits if_splits)

lemma index_frame:
  "sr_dataService (storeIndex s i) = sr_dataService s" "sr_dataService (srvCount c s) = sr_dataService s"
  by (simp_all add: storeIndex_def srvCount_def)

lemma index_data: "s' \<in> indexReads ienv name dir qos s \<Longrightarrow> sr_dataService s' = sr_dataService s"
  unfolding indexReads_def index_handler_defs
  by (elim insertE emptyE; hypsubst; simp only: index_frame snd_conv simp_thms split: option.split if_split)

lemma peers_data:
  "handlePeerRegister env now s ro = (resp, s', out) \<Longrightarrow> sr_dataService s' = sr_dataService s"
  "handlePeerUnregister env now s k = (resp, s', out) \<Longrightarrow> sr_dataService s' = sr_dataService s"
  by (auto simp: handlePeerRegister_def handlePeerUnregister_def split: option.splits prod.splits if_splits)

section \<open>Seen from its services\<close>

text \<open>The data service with the calls that wait has come about by steps of theory \<open>Data_Service\<close>.\<close>

definition data_run :: "ProcEnv \<Rightarrow> Config \<Rightarrow> DdDataService \<Rightarrow> (DdMessage \<times> gotime) list \<Rightarrow> bool" where
  "data_run penv cfg ds calls \<longleftrightarrow> (\<exists>done. dd_reachable (pe_data penv) (be_unmarshal (pe_bridge penv))
     (be_gunzip (pe_bridge penv)) (dur (sy_DefaultTimeoutMs (cf_Sync cfg)) Millisecond) (Some (buildAclService cfg))
     \<lparr>sy_svc = ds, sy_calls = calls, sy_done = done\<rparr>)"

lemma data_run_step:
  assumes "data_run penv cfg ds calls"
  shows "\<exists>y. sy_svc y = ds \<and> sy_calls y = calls \<and> (\<forall>t y'. dd_step (pe_data penv) (be_unmarshal (pe_bridge penv))
    (be_gunzip (pe_bridge penv)) t y y' \<longrightarrow> data_run penv cfg (sy_svc y') (sy_calls y'))"
proof -
  obtain "done" where reach: "dd_reachable (pe_data penv) (be_unmarshal (pe_bridge penv)) (be_gunzip (pe_bridge penv))
     (dur (sy_DefaultTimeoutMs (cf_Sync cfg)) Millisecond) (Some (buildAclService cfg))
     \<lparr>sy_svc = ds, sy_calls = calls, sy_done = done\<rparr>"
    using assms by (auto simp: data_run_def)
  have "\<lparr>sy_svc = sy_svc y, sy_calls = sy_calls y, sy_done = sy_done y\<rparr> = y" for y :: DdSystem by simp
  with dd_reachable_step [OF reach] show ?thesis
    unfolding data_run_def by (intro exI [of _ "\<lparr>sy_svc = ds, sy_calls = calls, sy_done = done\<rparr>"]) (metis DdSystem.select_convs(1,2))
qed

lemma data_run_begin:
  assumes "data_run penv cfg ds calls" "SendSync_begin (pe_data penv) now ds topic mo = (r, ds', msg, out)"
  shows "data_run penv cfg ds' (if r = None then calls @ [(msg, now)] else calls)"
proof -
  obtain y where y: "sy_svc y = ds" "sy_calls y = calls" "\<And>t y'. dd_step (pe_data penv) (be_unmarshal (pe_bridge penv))
    (be_gunzip (pe_bridge penv)) t y y' \<Longrightarrow> data_run penv cfg (sy_svc y') (sy_calls y')"
    using data_run_step [OF assms(1)] by blast
  show ?thesis
    using y(3) [OF dd_step.wait [of "pe_data penv" now y topic mo ds' msg out]]
      y(3) [OF dd_step.return [of "pe_data penv" now y topic mo "the r" ds' msg out]] assms(2) y(1,2)
    by (cases r) auto
qed

lemma data_run_end:
  assumes "data_run penv cfg ds calls" "(msg, start) \<in> set calls" "selectReady ds start now msg ev"
    "SendSync_finish start now ds msg ev = (result, ds')"
  shows "data_run penv cfg ds' (remove1 (msg, start) calls)"
proof -
  obtain y where y: "sy_svc y = ds" "sy_calls y = calls" "\<And>t y'. dd_step (pe_data penv) (be_unmarshal (pe_bridge penv))
    (be_gunzip (pe_bridge penv)) t y y' \<Longrightarrow> data_run penv cfg (sy_svc y') (sy_calls y')"
    using data_run_step [OF assms(1)] by blast
  show ?thesis
    using y(3) [OF dd_step.ends [of msg start y now ev result ds']] assms(2-4) y(1,2) by simp
qed

lemma data_run_own:
  assumes "data_run penv cfg ds calls"
  shows "data_run penv cfg (handleSyncResponse (be_unmarshal (pe_bridge penv)) (be_gunzip (pe_bridge penv)) ds payload) calls"
    "data_run penv cfg (sweepIdempotent now ds) calls" "data_run penv cfg (sweepTransferStatuses now ds) calls"
    "SendAsync (pe_data penv) now ds topic mo = (e, ds', out) \<Longrightarrow> data_run penv cfg ds' calls"
proof -
  obtain y where y: "sy_svc y = ds" "sy_calls y = calls" "\<And>t y'. dd_step (pe_data penv) (be_unmarshal (pe_bridge penv))
    (be_gunzip (pe_bridge penv)) t y y' \<Longrightarrow> data_run penv cfg (sy_svc y') (sy_calls y')"
    using data_run_step [OF assms(1)] by blast
  show "data_run penv cfg (handleSyncResponse (be_unmarshal (pe_bridge penv)) (be_gunzip (pe_bridge penv)) ds payload) calls"
    "data_run penv cfg (sweepIdempotent now ds) calls" "data_run penv cfg (sweepTransferStatuses now ds) calls"
    using y(3) [OF dd_step.reply] y(3) [OF dd_step.sweep_keys] y(3) [OF dd_step.sweep_statuses] y(1,2) by auto
  show "data_run penv cfg ds' calls" if "SendAsync (pe_data penv) now ds topic mo = (e, ds', out)"
    using y(3) [OF dd_step.async [of "pe_data penv" now y topic mo e ds' out]] that y(1,2) by auto
qed

lemma data_run_sends: "sends (pe_data penv) now ds ds' \<Longrightarrow> data_run penv cfg ds calls \<Longrightarrow> data_run penv cfg ds' calls"
  by (induction rule: rtranclp_induct) (auto intro: data_run_own(4))

text \<open>What \<open>main\<close> has wired stays wired: the holders of a shared service point to the same object, which is there.\<close>

definition wired :: "Running \<Rightarrow> bool" where
  "wired r \<longleftrightarrow> (let pt = rn_ptrs r; h = rn_heap r in
     pt_listRegistry pt = pt_peerRegistry pt \<and> pt_serverRegistry pt = pt_peerRegistry pt \<and>
     pt_indexRegistry pt = pt_peerRegistry pt \<and> pt_serverData pt = pt_dataService pt \<and>
     pt_serverStreams pt = pt_streamService pt \<and> pt_indexCatalog pt = pt_serverCatalog pt \<and>
     pt_peerRegistry pt < length (hp_registries h) \<and> pt_dataService pt < length (hp_dataServices h) \<and>
     pt_streamService pt < length (hp_streamServices h) \<and> pt_serverCatalog pt < length (hp_catalogs h))"

lemma wired_writes:
  "wired r \<Longrightarrow> wired (mainWrites p r)" "wired r \<Longrightarrow> wired (serverWrites s r)"
  "wired (r\<lparr>rn_calls := calls\<rparr>) = wired r" "wired (r\<lparr>rn_regs := regs\<rparr>) = wired r"
  by (simp_all add: wired_def mainWrites_def serverWrites_def Let_def split: option.split)

lemma start_wired: "wired (startRunning boot cfg)" "rn_proc (startRunning boot cfg) = newServices boot cfg"
  by (simp_all add: wired_def startRunning_def allocServices_def alloc_defs rn_proc_def newServices_def Let_def)

text \<open>So one write is seen by every holder. In a wired process the view changes as follows.\<close>

definition setRegistry :: "PeerRegistryService \<Rightarrow> Process \<Rightarrow> Process" where
  "setRegistry reg p = p\<lparr>ps_peerRegistry := reg, ps_server := (ps_server p)\<lparr>sr_peerRegistry := reg\<rparr>,
     ps_peerListService := (ps_peerListService p)\<lparr>pl_peerRegistry := reg\<rparr>\<rparr>"

definition setData :: "DdDataService \<Rightarrow> Process \<Rightarrow> Process" where
  "setData ds p = p\<lparr>ps_dataService := ds, ps_server := (ps_server p)\<lparr>sr_dataService := Some ds\<rparr>\<rparr>"

definition setStreams :: "StreamService \<Rightarrow> Process \<Rightarrow> Process" where
  "setStreams st p = p\<lparr>ps_streamService := st, ps_server := (ps_server p)\<lparr>sr_streamService := st\<rparr>\<rparr>"

definition setServer :: "Server \<Rightarrow> DdDataService \<Rightarrow> Process \<Rightarrow> Process" where
  "setServer s ds p = p\<lparr>ps_server := s, ps_peerRegistry := sr_peerRegistry s, ps_streamService := sr_streamService s,
     ps_peerListService := (ps_peerListService p)\<lparr>pl_peerRegistry := sr_peerRegistry s\<rparr>, ps_dataService := ds\<rparr>"

lemma seen_fields:
  "rn_calls (mainWrites p r) = rn_calls r" "rn_regs (mainWrites p r) = rn_regs r" "rn_ptrs (mainWrites p r) = rn_ptrs r"
  "rn_calls (serverWrites s r) = rn_calls r" "rn_regs (serverWrites s r) = rn_regs r" "rn_ptrs (serverWrites s r) = rn_ptrs r"
  "rn_proc (r\<lparr>rn_calls := calls\<rparr>) = rn_proc r" "rn_proc (r\<lparr>rn_regs := regs\<rparr>) = rn_proc r"
  "rn_calls (startRunning boot cfg) = []" "rn_regs (startRunning boot cfg) = []"
  by (simp_all add: mainWrites_def serverWrites_def rn_proc_def startRunning_def split: prod.split)

lemma seen_main:
  assumes "wired r"
  shows "rn_proc (mainWrites (rn_proc r) r) = rn_proc r"
    "rn_proc (mainWrites ((rn_proc r)\<lparr>ps_peerRegistry := reg\<rparr>) r) = setRegistry reg (rn_proc r)"
    "rn_proc (mainWrites ((rn_proc r)\<lparr>ps_dataService := ds\<rparr>) r) = setData ds (rn_proc r)"
    "rn_proc (mainWrites ((rn_proc r)\<lparr>ps_streamService := st\<rparr>) r) = setStreams st (rn_proc r)"
    "rn_proc (mainWrites ((rn_proc r)\<lparr>ps_hubDiscovery := hub\<rparr>) r) = (rn_proc r)\<lparr>ps_hubDiscovery := hub\<rparr>"
    "rn_proc (mainWrites ((rn_proc r)\<lparr>ps_httpBridge := hb\<rparr>) r) = (rn_proc r)\<lparr>ps_httpBridge := hb\<rparr>"
    "rn_proc (mainWrites ((rn_proc r)\<lparr>ps_coapQueue := q\<rparr>) r) = (rn_proc r)\<lparr>ps_coapQueue := q\<rparr>"
  using assms
  by (simp_all add: wired_def Let_def rn_proc_def mainWrites_def readProcess_def readServer_def
      setRegistry_def setData_def setStreams_def)

lemma seen_server:
  assumes "wired r" "sr_dataService s = Some ds"
  shows "rn_proc (serverWrites s r) = setServer s ds (rn_proc r)"
  using assms
  by (simp add: wired_def Let_def rn_proc_def serverWrites_def readProcess_def readServer_def setServer_def)

text \<open>What every state of a process has: the holders of a service agree, the API server is in a
  state that theory \<open>Api_Run\<close> reaches, the data service in one that theory \<open>Data_Service\<close> reaches and the CoAP
  queue in one that theory \<open>Coap_Queue\<close> reaches; the tables of hub discovery are keyed by sender, the bridges are there
  when they were started, and the page limit is the configured one.\<close>

definition coherent :: "Process \<Rightarrow> bool" where
  "coherent p \<longleftrightarrow> sr_peerRegistry (ps_server p) = ps_peerRegistry p \<and>
     pl_peerRegistry (ps_peerListService p) = ps_peerRegistry p \<and>
     sr_dataService (ps_server p) = Some (ps_dataService p) \<and>
     sr_streamService (ps_server p) = ps_streamService p"

definition coap_ok :: "CoapQueue \<Rightarrow> bool" where
  "coap_ok q \<longleftrightarrow> queue_reachable q \<and> \<not> cq_panicked q"

definition process_ok :: "ProcEnv \<Rightarrow> gotime \<Rightarrow> Config \<Rightarrow> Process \<Rightarrow> (DdMessage \<times> gotime) list \<Rightarrow> (string \<times> string) list \<Rightarrow> bool" where
  "process_ok penv boot cfg p calls regs \<longleftrightarrow> (let p0 = newServices boot cfg in
     coherent p \<and> server_run (ps_server p0) regs (ps_server p) \<and>
     data_run penv cfg (ps_dataService p) calls \<and>
     keyed_by hb_HubId (hd_activeHubs (ps_hubDiscovery p)) \<and> keyed_by ab_AuthId (hd_activeAuth (ps_hubDiscovery p)) \<and>
     pred_option coap_ok (ps_coapQueue p) \<and> (ps_coapQueue p = None \<longleftrightarrow> ps_coapQueue p0 = None) \<and>
     (ps_httpBridge p = None \<longleftrightarrow> ps_httpBridge p0 = None) \<and>
     pl_maxPageSize (ps_peerListService p) = pl_maxPageSize (ps_peerListService p0))"

abbreviation run_ok :: "ProcEnv \<Rightarrow> gotime \<Rightarrow> Config \<Rightarrow> Running \<Rightarrow> bool" where
  "run_ok penv boot cfg r \<equiv> wired r \<and> process_ok penv boot cfg (rn_proc r) (rn_calls r) (rn_regs r)"

lemma process_ok_sel:
  assumes "process_ok penv boot cfg p calls regs"
  shows "server_run (ps_server (newServices boot cfg)) regs (ps_server p)"
    "sr_dataService (ps_server p) = Some (ps_dataService p)" "data_run penv cfg (ps_dataService p) calls"
    "setRegistry (ps_peerRegistry p) p = p"
  using assms by (simp_all add: process_ok_def Let_def coherent_def setRegistry_def)

lemma process_ok_registry:
  assumes "process_ok penv boot cfg p calls regs" "registry_step (ps_peerRegistry p) reg \<or> reg = ps_peerRegistry p"
  shows "process_ok penv boot cfg (setRegistry reg p) calls regs"
  using assms(2)
proof
  assume "registry_step (ps_peerRegistry p) reg"
  then show ?thesis
    using assms(1) server_run.broker [of "ps_server (newServices boot cfg)" regs "ps_server p" reg]
    by (simp add: process_ok_def Let_def coherent_def setRegistry_def)
qed (use assms(1) process_ok_sel(4) in simp)

lemma process_ok_streams:
  assumes "process_ok penv boot cfg p calls regs" "stream_step unopen unclose (ps_streamService p) st"
  shows "process_ok penv boot cfg (setStreams st p) calls regs"
  using assms server_run.streams [of "ps_server (newServices boot cfg)" regs "ps_server p" unopen unclose st]
  by (simp add: process_ok_def Let_def coherent_def setStreams_def)

lemma process_ok_data:
  assumes "process_ok penv boot cfg p calls regs" "data_run penv cfg ds calls'"
  shows "process_ok penv boot cfg (setData ds p) calls' regs"
  using assms server_run.data [of "ps_server (newServices boot cfg)" regs "ps_server p" "Some ds"]
  by (simp add: process_ok_def Let_def coherent_def setData_def)

text \<open>A request of the API is a step of the server, and a step of the data service or none.\<close>

lemma run_ok_api:
  assumes "run_ok penv boot cfg r" "server_run (ps_server (newServices boot cfg)) regs s"
    "sr_dataService s = sr_dataService (ps_server (rn_proc r)) \<and> calls = rn_calls r \<or>
     (\<exists>ds'. sr_dataService s = Some ds' \<and> data_run penv cfg ds' calls)"
  shows "run_ok penv boot cfg (serverWrites s (r\<lparr>rn_calls := calls, rn_regs := regs\<rparr>))"
proof -
  have ok: "process_ok penv boot cfg (rn_proc r) (rn_calls r) (rn_regs r)" using assms(1) by blast
  obtain ds where ds: "sr_dataService s = Some ds" "data_run penv cfg ds calls"
    using assms(3) process_ok_sel(2,3) [OF ok] by auto
  have "process_ok penv boot cfg (setServer s ds (rn_proc r)) calls regs"
    using ok assms(2) ds by (simp add: process_ok_def Let_def coherent_def setServer_def)
  then show ?thesis
    using assms(1) ds by (simp add: wired_writes seen_server seen_fields)
qed

text \<open>The requests that leave the data service alone, and those that leave the registrations alone.\<close>

lemma run_ok_quiet:
  assumes "run_ok penv boot cfg r" "server_run (ps_server (newServices boot cfg)) regs s"
    "sr_dataService s = sr_dataService (ps_server (rn_proc r))"
  shows "run_ok penv boot cfg (serverWrites s (r\<lparr>rn_regs := regs\<rparr>))"
  using run_ok_api [OF assms(1,2), of "rn_calls r"] assms(3) by simp

lemma run_ok_calls:
  assumes "run_ok penv boot cfg r" "server_run (ps_server (newServices boot cfg)) (rn_regs r) s"
    "sr_dataService s = sr_dataService (ps_server (rn_proc r)) \<and> calls = rn_calls r \<or>
     (\<exists>ds'. sr_dataService s = Some ds' \<and> data_run penv cfg ds' calls)"
  shows "run_ok penv boot cfg (serverWrites s (r\<lparr>rn_calls := calls\<rparr>))"
  using run_ok_api [OF assms] by simp

lemma run_ok_read:
  assumes "run_ok penv boot cfg r" "server_run (ps_server (newServices boot cfg)) (rn_regs r) s"
    "sr_dataService s = sr_dataService (ps_server (rn_proc r)) \<or>
     (\<exists>ds'. sr_dataService s = Some ds' \<and> data_run penv cfg ds' (rn_calls r))"
  shows "run_ok penv boot cfg (serverWrites s r)"
  using run_ok_api [OF assms(1,2), of "rn_calls r"] assms(3) by auto

lemma run_ok_up: "run_ok penv boot cfg (startRunning boot cfg)"
proof -
  have "data_run penv cfg (ps_dataService (newServices boot cfg)) []"
    unfolding data_run_def dd_reachable_def
    by (intro exI [of _ "[]"]) (simp add: newServices_eq Let_def initSystem_def)
  moreover have "coap_ok (startQueue topics peerId url)" for topics peerId url
    by (auto simp: coap_ok_def queue_reachable_def startQueue_def)
  ultimately show ?thesis
    by (simp add: start_wired seen_fields process_ok_def Let_def server_run.started)
      (simp add: newServices_eq Let_def coherent_def NewServer_def NewPeerListService_def NewHubDiscoveryService_def)
qed

lemma onRegistry_step:
  "onRegistry env now h payload s = (reg, out) \<Longrightarrow> registry_step s reg \<or> reg = s"
  by (cases h) (auto intro: registry_step.intros)

lemma onStream_step: "stream_step (pe_streamOpen env) (pe_streamClose env) s (onStream env now h payload s)"
  by (cases h) (auto intro: stream_step.intros)

lemma onHub_keyed:
  "keyed_by hb_HubId (hd_activeHubs s) \<Longrightarrow> keyed_by hb_HubId (hd_activeHubs (onHub env h payload s))"
  "keyed_by ab_AuthId (hd_activeAuth s) \<Longrightarrow> keyed_by ab_AuthId (hd_activeAuth (onHub env h payload s))"
  by (cases h; auto simp: handleHubBroadcast_def handleAuthBroadcast_def Let_def keyed_by_set split: option.split)+

lemma run_ok_queue:
  assumes "run_ok penv boot cfg r" "ps_coapQueue (rn_proc r) \<noteq> None" "coap_ok q"
  shows "run_ok penv boot cfg (mainWrites ((rn_proc r)\<lparr>ps_coapQueue := Some q\<rparr>) r)"
  using assms by (simp add: wired_writes seen_main seen_fields process_ok_def Let_def coherent_def)

lemma run_ok_deliver:
  assumes "run_ok penv boot cfg r" "deliver penv call clock visit start now h topic payload (rn_proc r) = Some (p, out)"
  shows "run_ok penv boot cfg (mainWrites p r)"
proof (cases h)
  case OnResponse
  then show ?thesis
    using assms process_ok_data [OF _ data_run_own(1) [OF process_ok_sel(3)]]
    by (force simp: wired_writes seen_main seen_fields)
next
  case (OnRegistry x)
  then obtain reg where "p = (rn_proc r)\<lparr>ps_peerRegistry := reg\<rparr>"
    "registry_step (ps_peerRegistry (rn_proc r)) reg \<or> reg = ps_peerRegistry (rn_proc r)"
    using assms(2) by (auto dest: onRegistry_step split: prod.splits)
  then show ?thesis
    using assms(1) process_ok_registry by (simp add: wired_writes seen_main seen_fields)
next
  case (OnStream x)
  then show ?thesis
    using assms process_ok_streams [OF _ onStream_step] by (auto simp: wired_writes seen_main seen_fields)
next
  case (OnHub x)
  with assms show ?thesis
    by (auto simp: wired_writes seen_main seen_fields process_ok_def Let_def coherent_def onHub_keyed)
next
  case (OnHttp x)
  with assms show ?thesis
    by (auto simp: wired_writes seen_main seen_fields process_ok_def Let_def coherent_def split: option.splits prod.splits)
next
  case (OnCoap x)
  have "coap_ok (enqueueCheck task q)" if "coap_ok q" for task q
    using that queue_step.arrive [of q task] queue_reachable_step by (auto simp: coap_ok_def enqueueCheck_def)
  with OnCoap assms show ?thesis
    by (cases "ps_coapQueue (rn_proc r)")
      (auto simp: wired_writes seen_main seen_fields process_ok_def Let_def coherent_def)
qed (use assms in \<open>auto simp: wired_writes seen_main seen_fields\<close>)

lemma run_ok_auto:
  assumes "run_ok penv boot cfg r" "autoRegister mr publish now cfg (rn_proc r) = (err, reg, out)"
  shows "run_ok penv boot cfg (mainWrites ((rn_proc r)\<lparr>ps_peerRegistry := reg\<rparr>) r)"
proof -
  have "registry_step (ps_peerRegistry (rn_proc r)) reg \<or> reg = ps_peerRegistry (rn_proc r)"
    using assms(2) registry_step.st_RegisterPeer by (auto simp: autoRegister_def split: if_splits) (metis fst_conv snd_conv)
  with assms(1) process_ok_registry show ?thesis by (simp add: wired_writes seen_main seen_fields)
qed

lemma run_ok_transfers:
  assumes "run_ok penv boot cfg r" "ae_data env = pe_data penv"
  shows "handleTransferSync env now (ps_server (rn_proc r)) x req = Some (answer, s, msg, out) \<Longrightarrow>
      run_ok penv boot cfg (serverWrites s (r\<lparr>rn_calls := if answer = None then rn_calls r @ [(msg, now)] else rn_calls r\<rparr>))"
    "handleTransferAsync env now (ps_server (rn_proc r)) x req = Some (resp, s, out) \<Longrightarrow>
      run_ok penv boot cfg (serverWrites s r)"
    "handleTransferAsyncBatch env now (ps_server (rn_proc r)) x items = Some (resp, s, out) \<Longrightarrow>
      run_ok penv boot cfg (serverWrites s r)"
proof -
  have ok: "process_ok penv boot cfg (rn_proc r) (rn_calls r) (rn_regs r)" using assms(1) by blast
  note ok = process_ok_sel [OF ok]
  let ?calls = "if answer = None then rn_calls r @ [(msg, now)] else rn_calls r"
  show "run_ok penv boot cfg (serverWrites s (r\<lparr>rn_calls := ?calls\<rparr>))"
    if "handleTransferSync env now (ps_server (rn_proc r)) x req = Some (answer, s, msg, out)"
  proof -
    have "sr_dataService s = sr_dataService (ps_server (rn_proc r)) \<and> ?calls = rn_calls r \<or>
       (\<exists>ds'. sr_dataService s = Some ds' \<and> data_run penv cfg ds' ?calls)"
      using sync_data [OF that] assms(2) ok(2) data_run_begin [OF ok(3)] by force
    with run_ok_calls [OF assms(1) server_run.sync [OF ok(1) that], of ?calls] show ?thesis by simp
  qed
  show "run_ok penv boot cfg (serverWrites s r)"
    if "handleTransferAsync env now (ps_server (rn_proc r)) x req = Some (resp, s, out)"
  proof -
    have "sr_dataService s = sr_dataService (ps_server (rn_proc r)) \<or>
       (\<exists>ds'. sr_dataService s = Some ds' \<and> data_run penv cfg ds' (rn_calls r))"
      using async_data [OF that] assms(2) ok(2) data_run_own(4) [OF ok(3)] by force
    with run_ok_read [OF assms(1) server_run.async [OF ok(1) that]] show ?thesis by simp
  qed
  show "run_ok penv boot cfg (serverWrites s r)"
    if "handleTransferAsyncBatch env now (ps_server (rn_proc r)) x items = Some (resp, s, out)"
  proof -
    have "sr_dataService s = sr_dataService (ps_server (rn_proc r)) \<or>
       (\<exists>ds'. sr_dataService s = Some ds' \<and> data_run penv cfg ds' (rn_calls r))"
      using batch_data [OF that] assms(2) ok(2) data_run_sends [OF _ ok(3)] by force
    with run_ok_read [OF assms(1) server_run.batch [OF ok(1) that]] show ?thesis by simp
  qed
qed

lemma index_run: "server_run s0 regs s \<Longrightarrow> s' \<in> indexReads ienv name dir qos s \<Longrightarrow> server_run s0 regs s'"
  by (auto simp: indexReads_def intro: server_run.intros)

lemma run_ok_end:
  assumes "run_ok penv boot cfg r" "(msg, start) \<in> set (rn_calls r)" "sr_dataService (ps_server (rn_proc r)) = Some ds"
    "selectReady ds start now msg ev" "SendSync_finish start now ds msg ev = (result, ds')"
  shows "run_ok penv boot cfg (serverWrites ((ps_server (rn_proc r))\<lparr>sr_dataService := Some ds'\<rparr>)
    (r\<lparr>rn_calls := remove1 (msg, start) (rn_calls r)\<rparr>))"
proof -
  have ok: "process_ok penv boot cfg (rn_proc r) (rn_calls r) (rn_regs r)" using assms(1) by blast
  have "data_run penv cfg ds' (remove1 (msg, start) (rn_calls r))"
    using data_run_end [OF process_ok_sel(3) [OF ok] assms(2)] process_ok_sel(2) [OF ok] assms(3-5) by simp
  with run_ok_calls [OF assms(1) server_run.data [OF process_ok_sel(1) [OF ok]]] show ?thesis by simp
qed

lemma process_run_ok: "process_run penv boot cfg r \<Longrightarrow> run_ok penv boot cfg r"
proof (induction rule: process_run.induct)
  case up
  show ?case by (rule run_ok_up)
next
  case (message r pattern h call clock visit start now topic payload p out)
  then show ?case by (intro run_ok_deliver)
next
  case (coap r q q')
  then have "coap_ok q'"
    by (auto simp: process_ok_def Let_def coap_ok_def intro: queue_reachable_step)
  with coap show ?case by (intro run_ok_queue) simp_all
next
  case (api_register r env now ro resp s out)
  then have ok: "process_ok penv boot cfg (rn_proc r) (rn_calls r) (rn_regs r)" by blast
  from run_ok_quiet [OF api_register.IH server_run.register [OF process_ok_sel(1) [OF ok] api_register(3)]
      peers_data(1) [OF api_register(3)]] show ?case .
next
  case (api_unregister r env now k resp' s out)
  then have ok: "process_ok penv boot cfg (rn_proc r) (rn_calls r) (rn_regs r)" by blast
  from run_ok_read [OF api_unregister.IH server_run.unregister [OF process_ok_sel(1) [OF ok] api_unregister(3)]
      disjI1 [OF peers_data(2) [OF api_unregister(3)]]] show ?case .
next
  case (api_sync r env now x req answer s msg out)
  then show ?case by (intro run_ok_transfers(1))
next
  case (api_async r env now x req resp s out)
  then show ?case by (intro run_ok_transfers(2))
next
  case (api_batch r env now x items resp s out)
  then show ?case by (intro run_ok_transfers(3))
next
  case (api_index r s ienv name dir qos)
  then have ok: "process_ok penv boot cfg (rn_proc r) (rn_calls r) (rn_regs r)" by blast
  from run_ok_read [OF api_index.IH index_run [OF process_ok_sel(1) [OF ok] api_index(2)]
      disjI1 [OF index_data [OF api_index(2)]]] show ?case .
next
  case (call_ends r msg start ds now ev result ds')
  then show ?case by (intro run_ok_end)
next
  case (auto_register r mr now err reg out)
  then show ?case by (intro run_ok_auto)
next
  case (stream_sweep r now)
  then show ?case
    using process_ok_streams [OF _ stream_step.swept] by (auto simp: wired_writes seen_main seen_fields streamSweeper_def)
next
  case (key_sweep r now)
  then show ?case
    using process_ok_data [OF _ data_run_own(2) [OF process_ok_sel(3)]] by (force simp: wired_writes seen_main seen_fields)
next
  case (status_sweep r now)
  then show ?case
    using process_ok_data [OF _ data_run_own(3) [OF process_ok_sel(3)]] by (force simp: wired_writes seen_main seen_fields)
qed (simp_all add: wired_writes seen_main seen_fields process_ok_registry registry_step.intros)

lemma process_projections:
  assumes "process_run penv boot cfg r"
  shows "process_ok penv boot cfg (rn_proc r) (rn_calls r) (rn_regs r)" "wired r"
  using process_run_ok [OF assms] by blast+

lemma server_run_topics: "server_run s0 regs s \<Longrightarrow> sr_topics s = sr_topics s0"
proof (induction rule: server_run.induct)
  case (register regs s env now ro resp s' out)
  then show ?case by (auto simp: handlePeerRegister_def split: option.splits prod.splits if_splits)
next
  case (unregister regs s env now k resp s' out)
  then show ?case by (auto simp: handlePeerUnregister_def split: option.splits prod.splits if_splits)
next
  case (sync regs s env now x req resp s' msg out)
  then show ?case using transfer_peers(1) by metis
next
  case (async regs s env now x req resp s' out)
  then show ?case using transfer_peers(2) by metis
next
  case (batch regs s env now x items resp s' out)
  then show ?case using batch_peers by metis
qed (simp_all add: index_handlers_peers)

lemma process_topics: "process_run penv boot cfg r \<Longrightarrow> sr_topics (ps_server (rn_proc r)) = NewDefaultTopicSet (cf_Tenant cfg)"
  using server_run_topics [OF process_ok_sel(1) [OF process_projections(1)]] by (simp add: newServices_sel)

section \<open>What cannot panic\<close>

lemma batchLoop_total: "batchLoop env now x i items acc s ds \<noteq> None"
proof (induction items arbitrary: i acc s ds)
  case (Cons item items)
  have "batchItem env now x i item s ds \<noteq> None"
    by (simp add: batchItem_def Let_def sendDirect_total del: not_None_eq split: prod.split option.split)
  with Cons.IH show ?case
    by (cases acc) (simp del: not_None_eq split: option.split prod.split)
qed simp

lemma transfers_total:
  "handleTransferSync env now s x ro \<noteq> None" "handleTransferAsync env now s x ro \<noteq> None"
  "handleTransferAsyncBatch env now s x items \<noteq> None"
  by (simp_all add: handleTransferSync_def handleTransferAsync_def handleTransferAsyncBatch_def Let_def
      sendDirect_total batchLoop_total del: not_None_eq split: option.split prod.split sum.split)

section \<open>Properties\<close>

text \<open>A process with the defaults that a peer registers with, over the broker.\<close>

definition demoProcEnv :: ProcEnv where
  "demoProcEnv = \<lparr>pe_data = okEnv, pe_bridge = bridgeEnv, pe_register = \<lambda>_. Some \<lparr>re_Peer = demoPeer ''p''\<rparr>,
     pe_heartbeat = \<lambda>_. None, pe_report = \<lambda>_. None, pe_query = \<lambda>_. None, pe_queryResponse = \<lambda>_. Inr [],
     pe_streamOpen = \<lambda>_. None, pe_streamClose = \<lambda>_. None, pe_hub = \<lambda>_. None, pe_auth = \<lambda>_. None,
     pe_hmac = \<lambda>_ _. [], pe_b64 = \<lambda>_. [], pe_verify = \<lambda>_. None, pe_verifyResponse = \<lambda>_. [],
     pe_list = \<lambda>_. Some demoListQuery, pe_listResponse = \<lambda>_. Inr [1]\<rparr>"

definition demoRunning :: Running where
  "demoRunning = mainWrites ((newServices 3 demoLoaded)\<lparr>ps_peerRegistry :=
     handleRegister (pe_register demoProcEnv) 4 (ps_peerRegistry (newServices 3 demoLoaded)) []\<rparr>) (startRunning 3 demoLoaded)"

lemma demoRunning_proc:
  "rn_proc demoRunning = setRegistry (handleRegister (pe_register demoProcEnv) 4
     (ps_peerRegistry (newServices 3 demoLoaded)) []) (newServices 3 demoLoaded)"
  using seen_main(2) [OF start_wired(1)] by (simp add: demoRunning_def start_wired(2))

lemma demoRunning_one: "length (List (pr_store (ps_peerRegistry (rn_proc demoRunning)))) = 1"
  by (simp add: demoRunning_proc setRegistry_def handleRegister_def demoProcEnv_def newServices_eq Let_def
      NewPeerRegistryService_def WithAclService_def syncPeerMetrics_def Set_def List_def NewMemoryStore_def gm_set_def)

lemma demo_page_limit:
  "di_MaxPageSize (cf_Discovery demoLoaded) = 100" "pl_maxPageSize (ps_peerListService (rn_proc demoRunning)) = 100"
  by (simp_all add: demoRunning_proc setRegistry_def newServices_eq Let_def NewPeerListService_def
      demoLoaded_def LoadWithArgs_def LoadPath_def MergeJson_def demoCfgEnv_def authCli_def demoCli_def
      applyCliOverrides_def overStr_def merge_defs applyEnvOverrides_def envMqtt_def defaultConfig_def
      zeroConfig_def zeroTLS_def envTrue_def overInt_def)

lemma demoRunning_run: "process_run demoProcEnv 3 demoLoaded demoRunning"
proof -
  have "(ts_PeerRegister (NewDefaultTopicSet (cf_Tenant demoLoaded)), OnRegistry HRegister) \<in> set (subscriptions demoLoaded)"
    by (simp add: subscriptions_def Let_def)
  from process_run.message [OF process_run.up [of demoProcEnv 3 demoLoaded] this,
      where payload = "[]" and out = "[]" and now = 4] show ?thesis
    by (simp add: demoRunning_def start_wired(2))
qed

text \<open>
  C4: the process is the sum of its services. Whatever messages, requests, timers, sweeps and moves of the CoAP queue
  came in whatever order, each holder of a shared service reads, through the pointer \<open>main\<close> gave it, what the
  others read, and the index has the server's pointers; the API server is in a state it
  reaches on its own from a fresh one, with the same registrations; the data service and its
  waiting calls are in a state that the steps of the data service alone reach; and the CoAP queue is in one
  that its enqueuers, workers and \<open>Stop\<close> reach. So what is shown of each
  service in its own theory holds of it inside the process. All this rests on \<open>main\<close> constructing each of them once.
\<close>

theorem process_projects:
  assumes "process_run penv boot cfg r"
  shows "sr_peerRegistry (ps_server (rn_proc r)) = ps_peerRegistry (rn_proc r) \<and>
    pl_peerRegistry (ps_peerListService (rn_proc r)) = ps_peerRegistry (rn_proc r) \<and>
    sr_dataService (ps_server (rn_proc r)) = Some (ps_dataService (rn_proc r)) \<and>
    sr_streamService (ps_server (rn_proc r)) = ps_streamService (rn_proc r) \<and>
    pt_indexRegistry (rn_ptrs r) = pt_serverRegistry (rn_ptrs r) \<and>
    pt_indexCatalog (rn_ptrs r) = pt_serverCatalog (rn_ptrs r) \<and>
    server_run (ps_server (newServices boot cfg)) (rn_regs r) (ps_server (rn_proc r)) \<and>
    (\<exists>done. dd_reachable (pe_data penv) (be_unmarshal (pe_bridge penv)) (be_gunzip (pe_bridge penv))
      (dur (sy_DefaultTimeoutMs (cf_Sync cfg)) Millisecond) (Some (buildAclService cfg))
      \<lparr>sy_svc = ps_dataService (rn_proc r), sy_calls = rn_calls r, sy_done = done\<rparr>) \<and>
    pred_option queue_reachable (ps_coapQueue (rn_proc r))"
  using process_projections [OF assms]
  by (cases "ps_coapQueue (rn_proc r)")
    (simp_all add: process_ok_def coherent_def data_run_def wired_def coap_ok_def Let_def)

theorem process_projects_witness:
  "pl_peerRegistry (ps_peerListService (rn_proc demoRunning)) = ps_peerRegistry (rn_proc demoRunning) \<and>
    server_run (ps_server (newServices 3 demoLoaded)) [] (ps_server (rn_proc demoRunning)) \<and>
    length (List (pr_store (ps_peerRegistry (rn_proc demoRunning)))) = 1"
proof -
  have "rn_regs demoRunning = []" by (simp add: demoRunning_def seen_fields)
  then show ?thesis
    using process_projects [OF demoRunning_run] demoRunning_one by simp
qed

text \<open>
  C12: the data of the process is well formed at every moment: the peers of the registry are filed under
  their own id and no query returns one twice; the catalog lists no resource twice; every stream
  session is filed under its own id, with a positive idle timeout and one of the three statuses; every hub
  and authentication peer is filed under its own id; the table of pending requests has exactly the
  request ids of the waiting calls, each once, and at most 1024, and what waits in a channel is a reply to that
  request; the cache has no entry for the empty key; and the CoAP queue holds at most 256 tasks.
\<close>

theorem process_well_formed:
  assumes "process_run penv boot cfg r"
  shows "(\<forall>k peer. Get (pr_store (ps_peerRegistry (rn_proc r))) k = Some peer \<longrightarrow> p_Id peer = k) \<and>
    distinct (map p_Id (GetPeers (ps_peerRegistry (rn_proc r)) now resource)) \<and>
    distinct (ListResources (sr_resourceCatalog (ps_server (rn_proc r)))) \<and>
    (\<forall>k ss. GetSession (ps_streamService (rn_proc r)) k = Some ss \<longrightarrow> ss_StreamId ss = k \<and>
      0 < ss_IdleTimeoutMs ss \<and> ss_Status ss \<in> {StreamStatusActive, StreamStatusClosed, StreamStatusTimeout}) \<and>
    (\<forall>k hub. map_of (hd_activeHubs (ps_hubDiscovery (rn_proc r))) k = Some hub \<longrightarrow> hb_HubId hub = k) \<and>
    (\<forall>k auth. map_of (hd_activeAuth (ps_hubDiscovery (rn_proc r))) k = Some auth \<longrightarrow> ab_AuthId auth = k) \<and>
    mset (map (\<lambda>c. reqId (fst c)) (rn_calls r)) = mset (map fst (ds_pendingRequests (ps_dataService (rn_proc r)))) \<and>
    distinct (map fst (ds_pendingRequests (ps_dataService (rn_proc r)))) \<and>
    PendingRequestCount (ps_dataService (rn_proc r)) \<le> 1024 \<and>
    (\<forall>k reply. (k, Some reply) \<in> set (ds_pendingRequests (ps_dataService (rn_proc r))) \<longrightarrow> replyId reply = k) \<and>
    [] \<notin> fst ` set (ds_idempotentKeys (ps_dataService (rn_proc r))) \<and>
    pred_option (\<lambda>b. length (cbr_reqCh b) \<le> 256) (ps_coapBridge (rn_proc r))"
proof -
  note ok = process_projections(1) [OF assms, unfolded process_ok_def Let_def]
  have "server_inv (ps_server (newServices boot cfg)) []"
    by (simp add: newServices_eq Let_def server_inv_new)
  then have inv: "server_inv (ps_server (rn_proc r)) (rn_regs r)"
    using ok server_run_inv by blast
  then have "\<forall>k peer. Get (pr_store (ps_peerRegistry (rn_proc r))) k = Some peer \<longrightarrow> p_Id peer = k"
    "distinct (map p_Id (GetPeers (ps_peerRegistry (rn_proc r)) now resource))"
    "stream_inv (ps_streamService (rn_proc r))"
    "distinct (ListResources (sr_resourceCatalog (ps_server (rn_proc r))))"
    using ok registry_inv_Get distinct_GetPeers
    by (simp_all add: server_inv_def coherent_def catalog_inv_def wf_catalog_def wf_gomap_def)
      (auto simp: ListResources_def)
  moreover obtain "done" where "dd_reachable (pe_data penv) (be_unmarshal (pe_bridge penv)) (be_gunzip (pe_bridge penv))
      (dur (sy_DefaultTimeoutMs (cf_Sync cfg)) Millisecond) (Some (buildAclService cfg))
      \<lparr>sy_svc = ps_dataService (rn_proc r), sy_calls = rn_calls r, sy_done = done\<rparr>"
    using ok by (auto simp: data_run_def)
  note dd_reachable_pending [OF this] dd_reachable_inv [OF this]
  ultimately show ?thesis
    using ok
    by (cases "ps_coapQueue (rn_proc r)")
      (auto simp: ps_coapBridge_def stream_inv_def session_ok_def keyed_by_def pending_inv_def PendingRequestCount_def wf_gomap_def
        dd_inv_def cache_inv_def coap_ok_def queue_inv_def dest: queue_reachable_inv)
qed

theorem process_well_formed_witness:
  "distinct (map p_Id (GetPeers (ps_peerRegistry (rn_proc demoRunning)) 5 ''r'')) \<and>
    PendingRequestCount (ps_dataService (rn_proc demoRunning)) \<le> 1024"
  using process_well_formed [OF demoRunning_run] by blast

text \<open>Between the two \<open>select\<close>s of a CoAP message \<open>main\<close> may stop the bridge.\<close>

lemma process_queue:
  assumes "process_run penv boot cfg r" "ps_coapQueue (rn_proc r) = Some q"
  shows "queue_reachable q" "\<not> cq_panicked q" "ps_coapQueue (newServices boot cfg) \<noteq> None"
  using process_projections(1) [OF assms(1)] assms(2) by (auto simp: process_ok_def Let_def coap_ok_def)

lemma coap_race:
  assumes "process_run penv boot cfg r" "ps_coapQueue (rn_proc r) = Some q" "\<not> cbr_stopped (cq_bridge q)"
  shows "\<exists>r' q q'. process_run penv boot cfg r' \<and> ps_coapQueue (rn_proc r') = Some q \<and> queue_step q q' \<and> cq_panicked q'"
proof -
  note q = process_queue [OF assms(1,2)] and ok = process_projections [OF assms(1)]
  let ?topic = "TransferRequest (NewDefaultTopicSet (cf_Tenant cfg)) (pc_Id (cf_Peer cfg))"
  define task where "task = \<lparr>ct_topic = ?topic, ct_payload = [], ct_isSync = True\<rparr>"
  let ?q1 = "enqueueCheck task q"
  let ?q2 = "closeStopCh ?q1"
  let ?q3 = "closeReqCh ?q2"
  define r1 where "r1 = mainWrites ((rn_proc r)\<lparr>ps_coapQueue := Some ?q1\<rparr>) r"
  define r2 where "r2 = mainWrites ((rn_proc r1)\<lparr>ps_coapQueue := Some ?q2\<rparr>) r1"
  define r3 where "r3 = mainWrites ((rn_proc r2)\<lparr>ps_coapQueue := Some ?q3\<rparr>) r2"
  have w: "wired r1" "wired r2" using ok(2) by (simp_all add: r1_def r2_def wired_writes)
  have queues: "ps_coapQueue (rn_proc r1) = Some ?q1" "ps_coapQueue (rn_proc r2) = Some ?q2" "ps_coapQueue (rn_proc r3) = Some ?q3"
    using seen_main(7) [OF ok(2), of "Some ?q1"] seen_main(7) [OF w(1), of "Some ?q2"] seen_main(7) [OF w(2), of "Some ?q3"]
    unfolding r1_def [symmetric] r2_def [symmetric] r3_def [symmetric] by simp_all
  have unclosed: "\<not> cq_reqClosed q"
    using queue_reachable_inv [OF q(1)] assms(3) by (auto simp: queue_inv_def)
  have flags: "\<not> cq_panicked ?q1" "\<not> cbr_stopped (cq_bridge ?q1)" "\<not> cq_panicked ?q2" "cbr_stopped (cq_bridge ?q2)"
    "\<not> cq_reqClosed ?q2" "\<not> cq_panicked ?q3" "task \<in> set (cq_checked ?q3)" "cq_reqClosed ?q3"
    "cq_checked ?q2 = cq_checked ?q1" "cq_checked ?q3 = cq_checked ?q2"
    using q(2) assms(3) unclosed by (auto simp: enqueueCheck_def closeStopCh_def closeReqCh_def coapStop_def)
  have "(?topic, OnCoap HSyncRequest) \<in> set (subscriptions cfg)"
    using q(3) by (auto simp: newServices_eq Let_def subscriptions_def bridgeTopics_def split: if_splits)
  from process_run.message [OF assms(1) this, where payload = "[]" and out = "[]" and topic = ?topic]
  have "process_run penv boot cfg r1"
    using assms(2) by (simp add: r1_def task_def)
  then have "process_run penv boot cfg r2"
    unfolding r2_def by (rule process_run.coap [OF _ queues(1) queue_step.stop]) (simp_all add: flags)
  then have "process_run penv boot cfg r3"
    unfolding r3_def by (rule process_run.coap [OF _ queues(2) queue_step.close]) (simp_all add: flags)
  moreover have "queue_step ?q3 (fst (enqueueSend undefined undefined task ?q3))"
    using flags by (intro queue_step.send)
  moreover have "cq_panicked (fst (enqueueSend undefined undefined task ?q3))"
    using flags(8) by (simp add: enqueueSend_def Let_def)
  ultimately show ?thesis using queues(3) by blast
qed

text \<open>
  C13: what can crash the process. A message makes its handler panic exactly when it is a list query whose
  offset plus the page size leaves the 64-bit range; then the whole process ends, for the handler runs in a
  goroutine of the MQTT client. A step of the CoAP queue panics exactly when it is the send of a message that
  had found \<open>stopCh\<close> open and now finds \<open>reqCh\<close> closed, and as long as the bridge is not stopped a run of the
  process leads there. No other message on any subscription, no answer of an HTTP or
  CoAP target, no CoAP worker and no transfer request can panic, in any state.
\<close>

theorem process_panics_iff:
  assumes "process_run penv boot cfg r" "in_i64 (di_MaxPageSize (cf_Discovery cfg))"
    "pred_option (\<lambda>req. in_i64 (lq_PageOffset req)) (pe_list penv payload)"
  shows "(deliver penv call clock visit start now h topic payload (rn_proc r) = None \<longleftrightarrow>
      h = OnListQuery \<and> (\<exists>req. pe_list penv payload = Some req \<and>
        2 ^ 63 \<le> lq_PageOffset req + effectivePageSize (pl_maxPageSize (ps_peerListService (rn_proc r))) (lq_PageSize req))) \<and>
    (\<forall>q q'. ps_coapQueue (rn_proc r) = Some q \<and> queue_step q q' \<longrightarrow> cq_panicked q' =
      (\<exists>env now task. task \<in> set (cq_checked q) \<and> cq_reqClosed q \<and> q' = fst (enqueueSend env now task q))) \<and>
    (\<forall>q. ps_coapQueue (rn_proc r) = Some q \<and> \<not> cbr_stopped (cq_bridge q) \<longrightarrow>
      (\<exists>r' q q'. process_run penv boot cfg r' \<and> ps_coapQueue (rn_proc r') = Some q \<and> queue_step q q' \<and> cq_panicked q')) \<and>
    handleTransferSync env now (ps_server (rn_proc r)) x ro \<noteq> None \<and>
    handleTransferAsync env now (ps_server (rn_proc r)) x ro \<noteq> None \<and>
    handleTransferAsyncBatch env now (ps_server (rn_proc r)) x items \<noteq> None"
proof -
  note ok = process_projections(1) [OF assms(1), unfolded process_ok_def Let_def]
  then have "pl_maxPageSize (ps_peerListService (rn_proc r)) < 2 ^ 63"
    using assms(2) by (simp add: newServices_eq Let_def NewPeerListService_def in_i64_def)
  note pages = handleListQuery_panics [OF _ this]
  have "deliver penv call clock visit start now OnListQuery topic payload (rn_proc r) = None \<longleftrightarrow>
      (\<exists>req. pe_list penv payload = Some req \<and>
        2 ^ 63 \<le> lq_PageOffset req + effectivePageSize (pl_maxPageSize (ps_peerListService (rn_proc r))) (lq_PageSize req))"
    using assms(3) pages [of "pe_list penv" payload]
    by (cases "pe_list penv payload") (auto simp: handleListQuery_def)
  then have "deliver penv call clock visit start now h topic payload (rn_proc r) = None \<longleftrightarrow>
      h = OnListQuery \<and> (\<exists>req. pe_list penv payload = Some req \<and>
        2 ^ 63 \<le> lq_PageOffset req + effectivePageSize (pl_maxPageSize (ps_peerListService (rn_proc r))) (lq_PageSize req))"
    by (cases h) (auto split: prod.split)
  moreover have "\<forall>q q'. ps_coapQueue (rn_proc r) = Some q \<and> queue_step q q' \<longrightarrow> cq_panicked q' =
      (\<exists>env now task. task \<in> set (cq_checked q) \<and> cq_reqClosed q \<and> q' = fst (enqueueSend env now task q))"
    using process_queue(2) [OF assms(1)] queue_panics_iff by blast
  moreover have "\<forall>q. ps_coapQueue (rn_proc r) = Some q \<and> \<not> cbr_stopped (cq_bridge q) \<longrightarrow>
      (\<exists>r' q q'. process_run penv boot cfg r' \<and> ps_coapQueue (rn_proc r') = Some q \<and> queue_step q q' \<and> cq_panicked q')"
    using coap_race [OF assms(1)] by blast
  ultimately show ?thesis
    by (simp only: transfers_total simp_thms)
qed

theorem process_panics_iff_witness:
  "deliver demoProcEnv (\<lambda>_ _. CallFailed) (\<lambda>_. 5) id 5 5 OnListQuery ''t'' [] (rn_proc demoRunning) = None"
  using process_panics_iff [OF demoRunning_run, where payload = "[]" and h = OnListQuery and now = 5 and start = 5
      and clock = "\<lambda>_. 5" and call = "\<lambda>_ _. CallFailed" and topic = "''t''" and visit = id]
  by (simp add: demo_page_limit demoProcEnv_def demoListQuery_def in_i64_def effectivePageSize_def)

end
