(* ===== verification/Metrics.thy ===== *)
theory Metrics
  imports Complex_Main Api_Index
begin

text \<open>
  The metrics the process registers when it starts (\<open>observability/metrics.go\<close>): name, help text, labels and
  kind of each, in the order of the source. The components log what they increment as values of the datatypes
  \<open>metric\<close>, \<open>bridgeMetric\<close> and \<open>apiMetric\<close>; here each such value is read as a sample of its metric, with the
  label values the call passes. The Prometheus library refuses two metrics of one name, names and
  labels outside its syntax, and a sample with another number of label values, each with a panic.
\<close>

section \<open>The descriptions\<close>

text \<open>\<open>prometheus.DefBuckets\<close> is a parameter.\<close>

datatype metricKind = CounterKind | GaugeKind | HistogramKind "rat list"

record MetricDesc =
  md_kind :: metricKind
  md_Name :: string
  md_Help :: string
  md_labels :: "string list"

definition counterVec :: "string \<Rightarrow> string \<Rightarrow> string list \<Rightarrow> MetricDesc" where
  "counterVec name help labels = \<lparr>md_kind = CounterKind, md_Name = name, md_Help = help, md_labels = labels\<rparr>"

definition histogramVec :: "rat list \<Rightarrow> string \<Rightarrow> string \<Rightarrow> string list \<Rightarrow> MetricDesc" where
  "histogramVec buckets name help labels =
     \<lparr>md_kind = HistogramKind buckets, md_Name = name, md_Help = help, md_labels = labels\<rparr>"

definition gauge :: "string \<Rightarrow> string \<Rightarrow> MetricDesc" where
  "gauge name help = \<lparr>md_kind = GaugeKind, md_Name = name, md_Help = help, md_labels = []\<rparr>"

definition syncRequestsDesc :: MetricDesc where
  "syncRequestsDesc = counterVec ''dd_sync_requests_total'' ''Total number of sync requests.'' [''resource'', ''status'']"

definition syncLatencyDesc :: "rat list \<Rightarrow> MetricDesc" where
  "syncLatencyDesc defBuckets = histogramVec defBuckets ''dd_sync_latency_ms'' ''Sync request latency in milliseconds.'' [''resource'']"

definition asyncPublishedDesc :: MetricDesc where
  "asyncPublishedDesc = counterVec ''dd_async_published_total'' ''Total number of async messages published.''
     [''resource'', ''status'']"

definition asyncBatchDesc :: MetricDesc where
  "asyncBatchDesc = counterVec ''dd_async_batch_requests_total'' ''Total number of async batch publish requests.'' [''status'']"

definition peerActiveDesc :: MetricDesc where
  "peerActiveDesc = gauge ''dd_peer_active_count'' ''Number of active peers.''"

definition peerStaleDesc :: MetricDesc where
  "peerStaleDesc = gauge ''dd_peer_stale_count'' ''Number of stale peers.''"

definition timeoutDesc :: MetricDesc where
  "timeoutDesc = counterVec ''dd_timeout_total'' ''Total number of sync timeouts.'' []"

definition aclDeniedDesc :: MetricDesc where
  "aclDeniedDesc = counterVec ''dd_acl_denied_total'' ''Total number of ACL denied requests.'' []"

definition bridgeRequestsDesc :: MetricDesc where
  "bridgeRequestsDesc = counterVec ''dd_bridge_requests_total'' ''Total number of bridge requests by protocol/mode/status.''
     [''protocol'', ''mode'', ''status'']"

definition bridgeLatencyDesc :: "rat list \<Rightarrow> MetricDesc" where
  "bridgeLatencyDesc defBuckets = histogramVec defBuckets ''dd_bridge_latency_ms'' ''Bridge request latency in milliseconds.''
     [''protocol'', ''mode'']"

definition bridgeRetriesDesc :: MetricDesc where
  "bridgeRetriesDesc = counterVec ''dd_bridge_retries_total'' ''Total number of bridge retry attempts.'' [''protocol'']"

definition metaValidateDesc :: MetricDesc where
  "metaValidateDesc = counterVec ''dd_resource_meta_validate_total'' ''Total number of resource meta schema validations.''
     [''resource'', ''result'']"

definition routeDecisionDesc :: MetricDesc where
  "routeDecisionDesc = counterVec ''dd_route_decision_total'' ''Total number of route decisions by mode.'' [''mode'']"

definition resourceQueryDesc :: MetricDesc where
  "resourceQueryDesc = counterVec ''dd_protocol_resource_query_total''
     ''Total number of protocol resource query requests.'' [''protocol'', ''mode'']"

text \<open>The two metrics of the logging middleware (\<open>observability/middleware.go\<close>).\<close>

definition httpRequestsDesc :: MetricDesc where
  "httpRequestsDesc = counterVec ''dd_http_requests_total'' ''Total HTTP requests.'' [''method'', ''path'', ''status'']"

definition httpDurationDesc :: "rat list \<Rightarrow> MetricDesc" where
  "httpDurationDesc defBuckets = histogramVec defBuckets ''dd_http_request_duration_ms''
     ''HTTP request duration in milliseconds.'' [''method'', ''path'']"

definition registered :: "rat list \<Rightarrow> MetricDesc list" where
  "registered defBuckets =
     [syncRequestsDesc, syncLatencyDesc defBuckets, asyncPublishedDesc, asyncBatchDesc, peerActiveDesc, peerStaleDesc,
      timeoutDesc, aclDeniedDesc, bridgeRequestsDesc, bridgeLatencyDesc defBuckets, bridgeRetriesDesc, metaValidateDesc,
      routeDecisionDesc, resourceQueryDesc, httpRequestsDesc, httpDurationDesc defBuckets]"

section \<open>Samples\<close>

fun dataSample :: "rat list \<Rightarrow> metric \<Rightarrow> MetricDesc \<times> string list" where
  "dataSample bs (SyncRequestsTotal resource status) = (syncRequestsDesc, [resource, status])"
| "dataSample bs (SyncLatencyMs resource ms) = (syncLatencyDesc bs, [resource])"
| "dataSample bs (AsyncPublishedTotal resource status) = (asyncPublishedDesc, [resource, status])"
| "dataSample bs AclDeniedTotal = (aclDeniedDesc, [])"
| "dataSample bs TimeoutTotal = (timeoutDesc, [])"

fun bridgeSample :: "rat list \<Rightarrow> bridgeMetric \<Rightarrow> MetricDesc \<times> string list" where
  "bridgeSample bs (BridgeRequestsTotal protocol mode status) = (bridgeRequestsDesc, [protocol, mode, status])"
| "bridgeSample bs (BridgeLatencyMs protocol mode ms) = (bridgeLatencyDesc bs, [protocol, mode])"
| "bridgeSample bs (BridgeRetriesTotal protocol) = (bridgeRetriesDesc, [protocol])"

fun apiSample :: "apiMetric \<Rightarrow> MetricDesc \<times> string list" where
  "apiSample (ResourceMetaValidateTotal resource result) = (metaValidateDesc, [resource, result])"
| "apiSample (RouteDecisionTotal mode) = (routeDecisionDesc, [mode])"
| "apiSample (ProtocolResourceQueryTotal protocol mode) = (resourceQueryDesc, [protocol, mode])"
| "apiSample (AsyncBatchRequestsTotal status) = (asyncBatchDesc, [status])"

text \<open>What the middleware counts for a request, from the result of \<open>RequestLoggingMiddleware\<close>.\<close>

fun httpSamples :: "rat list \<Rightarrow> responseWriter \<times> (string \<times> string \<times> string) \<times> int \<Rightarrow> (MetricDesc \<times> string list) list" where
  "httpSamples bs (rw, (meth, path, status), ms) =
     [(httpRequestsDesc, [meth, path, status]), (httpDurationDesc bs, [meth, path])]"

text \<open>The syntax of names and labels.\<close>

definition nameStart :: "char \<Rightarrow> bool" where
  "nameStart c \<longleftrightarrow> c \<in> set ''abcdefghijklmnopqrstuvwxyzABCDEFGHIJKLMNOPQRSTUVWXYZ_''"

fun labelName :: "string \<Rightarrow> bool" where
  "labelName [] = False"
| "labelName (c # cs) \<longleftrightarrow> nameStart c \<and> list_all (\<lambda>c. nameStart c \<or> c \<in> set ''0123456789'') cs"

text \<open>The bucket a histogram counts an observation in: the first whose upper bound is not below it.\<close>

fun bucketOf :: "rat list \<Rightarrow> rat \<Rightarrow> nat" where
  "bucketOf [] v = 0"
| "bucketOf (b # bs) v = (if v \<le> b then 0 else Suc (bucketOf bs v))"

section \<open>Lemmas\<close>

lemmas desc_defs = syncRequestsDesc_def syncLatencyDesc_def asyncPublishedDesc_def asyncBatchDesc_def peerActiveDesc_def
  peerStaleDesc_def timeoutDesc_def aclDeniedDesc_def bridgeRequestsDesc_def bridgeLatencyDesc_def bridgeRetriesDesc_def
  metaValidateDesc_def routeDecisionDesc_def resourceQueryDesc_def httpRequestsDesc_def httpDurationDesc_def counterVec_def histogramVec_def gauge_def

text \<open>No metric operation of the process panics: the names are distinct and in the syntax, so are the labels of
  each metric, and every sample is of a registered metric and has one value for each label.\<close>

lemma metrics_registered:
  "distinct (map md_Name (registered bs)) \<and>
    list_all (\<lambda>d. labelName (md_Name d) \<and> distinct (md_labels d) \<and> list_all labelName (md_labels d)) (registered bs)"
  by (simp add: registered_def desc_defs nameStart_def)

definition fits :: "rat list \<Rightarrow> MetricDesc \<times> string list \<Rightarrow> bool" where
  "fits bs sample \<longleftrightarrow> fst sample \<in> set (registered bs) \<and> length (snd sample) = length (md_labels (fst sample))"

lemma dataSample_fits: "fits bs (dataSample bs m)"
  by (cases m) (simp_all add: fits_def registered_def desc_defs)

lemma bridgeSample_fits: "fits bs (bridgeSample bs m)"
  by (cases m) (simp_all add: fits_def registered_def desc_defs)

lemma apiSample_fits: "fits bs (apiSample m)"
  by (cases m) (simp_all add: fits_def registered_def desc_defs)

lemma httpSamples_fit: "list_all (fits bs) (httpSamples bs (RequestLoggingMiddleware codes start end meth path))"
  by (simp add: RequestLoggingMiddleware_def Let_def fits_def registered_def desc_defs)

text \<open>The path of the request is a label as it stands: every path a client makes up is a time series of its own,
  whether a route matches it or not.\<close>

lemma http_series_per_path:
  "map snd (httpSamples bs (RequestLoggingMiddleware codes start end meth path)) =
     map snd (httpSamples bs (RequestLoggingMiddleware codes start' end' meth path')) \<longleftrightarrow> path = path'"
  by (auto simp: RequestLoggingMiddleware_def Let_def)

text \<open>The latencies are observed in milliseconds, but the default buckets are made for seconds and end at 10:
  whatever took longer than 10 milliseconds is counted in the last bucket, with no upper bound.\<close>

lemma bucketOf_above: "list_all (\<lambda>b. b < v) bs \<Longrightarrow> bucketOf bs v = length bs"
  by (induction bs) auto

lemma latency_above_buckets:
  assumes "list_all (\<lambda>b. b \<le> 10) defBuckets" "10 < ms"
  shows "md_kind (syncLatencyDesc defBuckets) = HistogramKind defBuckets \<and>
    md_kind (bridgeLatencyDesc defBuckets) = HistogramKind defBuckets \<and>
    md_kind (httpDurationDesc defBuckets) = HistogramKind defBuckets \<and>
    bucketOf defBuckets (of_int ms) = length defBuckets"
proof -
  have "(10 :: rat) < of_int ms" using assms(2) by simp
  then have "list_all (\<lambda>b. b < of_int ms) defBuckets"
    using assms(1) by (auto simp: list_all_iff)
  then show ?thesis by (simp add: desc_defs bucketOf_above)
qed

end
