(* ===== verification/Test_Logger.thy ===== *)
theory Test_Logger
  imports Protocol_Index
begin

text \<open>
  The logger of the integration tests (\<open>test/testutil/logger.go\<close>). The line it hands to \<open>testing.TB\<close> is
  the result; the time as text and the message that \<open>fmt.Sprintf\<close> made are arguments.
\<close>

record TestLogger =
  tl_prefix :: string

definition NewLogger :: "string \<Rightarrow> TestLogger" where
  "NewLogger p = \<lparr>tl_prefix = TrimSpace p\<rparr>"

definition logf :: "TestLogger \<Rightarrow> string \<Rightarrow> string \<Rightarrow> string \<Rightarrow> string" where
  "logf l now level msg =
    (if tl_prefix l \<noteq> [] then now @ '' ['' @ level @ ''] ['' @ tl_prefix l @ ''] '' @ msg
     else now @ '' ['' @ level @ ''] '' @ msg)"

definition Infof :: "TestLogger \<Rightarrow> string \<Rightarrow> string \<Rightarrow> string" where
  "Infof l now msg = logf l now ''INFO'' msg"

definition Warnf :: "TestLogger \<Rightarrow> string \<Rightarrow> string \<Rightarrow> string" where
  "Warnf l now msg = logf l now ''WARN'' msg"

definition Errorf :: "TestLogger \<Rightarrow> string \<Rightarrow> string \<Rightarrow> string" where
  "Errorf l now msg = logf l now ''ERROR'' msg"

text \<open>A prefix of white space alone is no prefix.\<close>

lemma blank_prefix: "TrimSpace p = [] \<Longrightarrow> logf (NewLogger p) now level msg = now @ '' ['' @ level @ ''] '' @ msg"
  by (simp add: logf_def NewLogger_def)

text \<open>A line tells the level: lines of one logger at one time differ when their levels or their messages do.\<close>

lemma logf_inject:
  assumes "CHR '']'' \<notin> set level" "CHR '']'' \<notin> set level'" "logf l now level msg = logf l now level' msg'"
  shows "level = level' \<and> msg = msg'"
proof -
  have split: "a = b \<and> x = y" if "a @ CHR '']'' # x = b @ CHR '']'' # y" "CHR '']'' \<notin> set a" "CHR '']'' \<notin> set b"
    for a b x y :: string
    using that by (induction a arbitrary: b) (auto simp: Cons_eq_append_conv append_eq_Cons_conv)
  define rest where "rest = (\<lambda>m. (if tl_prefix l \<noteq> [] then '' ['' @ tl_prefix l @ ''] '' @ m else '' '' @ m))"
  have "logf l now lv m = (now @ '' ['') @ lv @ CHR '']'' # rest m" for lv m
    by (simp add: logf_def rest_def)
  then have "level @ CHR '']'' # rest msg = level' @ CHR '']'' # rest msg'"
    using assms(3) by (metis same_append_eq)
  from split [OF this assms(1,2)] show ?thesis
    by (simp add: rest_def split: if_splits)
qed

end
