(* ===== verification/Spec2Isabelle.thy ===== *)
theory Spec2Isabelle
  imports Process_Run Metrics Test_Logger
begin

text \<open>
  A verification of dd-core, the message hub under \<open>src/\<close>.

  \<^bold>\<open>The program.\<close> dd-core is a Go process that connects peers over an MQTT broker. Peers register and
  keep a lease by heartbeats (\<open>internal/service/peer_registry_service.go\<close> over
  \<open>internal/registry\<close>); clients send synchronous and asynchronous messages through the
  HTTP API (\<open>api\<close>) and the data service (\<open>dd_data_service.go\<close>), which asks the topic access rules,
  validates, encodes and publishes, and correlates replies with waiting calls; bridges
  (\<open>internal/adapter\<close>) take requests from the broker to HTTP, CoAP and other MQTT topics
  and publish the replies. Hubs and authentication peers announce themselves
  (\<open>hub_discovery.go\<close>). Around these stand the resource catalog, the index of protocol resources, stream
  sessions, the paged peer list, the authentication peer and the configuration;
  \<open>cmd/main.go\<close> puts the process together.

  \<^bold>\<open>The theories\<close>, each opening with what it models:

  \<^item> \<open>Go_Prelude\<close>: what is used of Go and its library. Maps are association lists with distinct
    keys (one iteration order; \<open>gomap_sim\<close> relates two), 64-bit integers are \<open>int\<close> with
    \<open>wrap64\<close> where they can overflow, times are nanoseconds, \<open>strings.Split\<close> and others.
  \<^item> \<open>Dd_Model\<close> (\<open>internal/model\<close>): errors, the envelope, \<open>Normalize\<close>, \<open>Validate\<close>, the codec.
  \<^item> \<open>Topics\<close> (\<open>topics.go\<close>, the two topic matchers, QoS, topic alias), with the locales
    \<open>topic_matcher\<close> and \<open>level_loop\<close> interpreted for both matchers; \<open>Acl\<close>
    (\<open>topic_acl_service.go\<close>); \<open>Mq\<close> (\<open>mq/client.go\<close> as the locale \<open>mq_client\<close>,
    \<open>mq/mock_client.go\<close> as its interpretation); \<open>Mqtt_Client\<close> (\<open>mq/mqtt_client.go\<close>: options, TLS, calls).
  \<^item> \<open>Registry\<close> (the locale \<open>registry_store\<close> and the memory store) and \<open>Peer_Registry\<close> (all registry
    operations as a step relation, its invariant, the schema merge).
  \<^item> \<open>Data_Service\<close>: \<open>SendSync\<close> split at its \<open>select\<close>, so that \<open>dd_step\<close> can interleave
    calls, replies, timeouts, cancellations, asynchronous sends and sweeps at will; a branch of the \<open>select\<close> is taken
    only when it is ready at that time (\<open>selectReady\<close>), and \<open>dd_run\<close> is an endless run in time.
  \<^item> \<open>Resource_Catalog\<close> (the locale \<open>provider_relation\<close>, refined to a set of pairs),
    \<open>Protocol_Index\<close> (\<open>protocol_resource_index.go\<close>), \<open>Stream_Service\<close>, \<open>Peer_List\<close>, \<open>Auth_Peer\<close>.
  \<^item> \<open>Hub_Discovery\<close> (\<open>hub_discovery.go\<close>): the locale \<open>announcements\<close>, interpreted for hubs and for
    authentication peers; the broadcast loop is a function of the ticks it sees.
  \<^item> \<open>Coap\<close>: the two copies of the CoAP codec as interpretations of \<open>coap_codec\<close>; \<open>Bridges\<close>: the
    bridges, with the locale \<open>circuit_breaker\<close> interpreted for HTTP and CoAP; \<open>Coap_Queue\<close>: the queue of the
    CoAP bridge with enqueuers, workers and \<open>Stop\<close> in goroutines of their own; \<open>Protocol_Bridge\<close>
    (\<open>adapter/bridge.go\<close> as the locale \<open>protocol_bridge\<close>, interpreted for each bridge and for the interface value).
  \<^item> \<open>Config\<close> and \<open>Cli\<close> (\<open>internal/config\<close>), \<open>Api\<close> (\<open>api/handler.go\<close>, \<open>route_decision.go\<close>) and
    \<open>Api_Index\<close> (the index handlers, the route table of \<open>api/router.go\<close>, the logging middleware).
  \<^item> \<open>Api_Run\<close>: the handlers interleaved with what comes over the broker, as the relation \<open>server_run\<close>, and
    its invariant.
  \<^item> \<open>Startup\<close> (\<open>cmd/main.go\<close>): from the command line to a running process, with every subscription
    it makes and every point where it gives up; the services that are shared as objects on a heap, and who is given
    which pointer (\<open>allocServices\<close>); serving until a signal, and the stop of the bridges.
  \<^item> \<open>Process_Run\<close>: the running process, as the relation \<open>process_run\<close>: broker messages at their handlers, API
    requests, ends of waiting calls, steps of the CoAP queue and sweeps in any order, each through its own pointers.
  \<^item> \<open>Metrics\<close> (\<open>observability/metrics.go\<close>): what the logged increments mean to Prometheus; \<open>Test_Logger\<close>
    (\<open>test/testutil\<close>).
  \<^item> This theory: a transfer from one process to another.

  \<^bold>\<open>How state and effects correspond.\<close> A Go struct is a record whose fields carry a short prefix and
  the field's name; a method that writes its receiver returns the new record. What an
  operation publishes is returned as a list of topic and payload. A Go error is a value of
  \<open>go_error\<close>, a panic (slice bounds, indexing) is \<open>None\<close> of an outer option. Prometheus counters are
  logs of increments; log lines are left out. Every operation of a mutex-protected
  structure is one step; the clock is an argument \<open>now\<close>, one reading per operation. A component that is given a service by pointer has a field for what it reads there. That several
  components read the same is not built in: \<open>Startup\<close> puts the services on a heap and records
  who is given which address, a step in \<open>Process_Run\<close> writes through the address of the component it runs in, and
  that all holders agree is theorem \<open>process_projects\<close>. (Inside the API server \<open>sharedIndex\<close> gives the index the
  server's registry and catalog; the same theorem has their addresses equal.) The order in which Go ranges over a map is an
  argument where it shows, in the peer list (\<open>peerOrder\<close>). JSON, gzip, the
  broker, HTTP, UDP, HMAC, certificates, the file system and the environment are parameters, with what
  a theorem needs of them among its hypotheses.

  \<^bold>\<open>What is shown.\<close> Data service: under every interleaving the pending table matches the
  waiting calls, stays within its limit and leaks nothing; in every run in time with fair timers each call ends, by a
  branch that was ready; a reply is only given to the
  request it names; refused peers get nothing out; replays for a minute after an answer in every run; the cache sweep.
  End to end, when neither aliases topics: a synchronous transfer from the API of one process to the HTTP bridge of another comes back as
  exactly one reply, in the channel of the call that waits, and is answered with status 200. Messages: validation decided exactly, envelope generations agree, the codec
  round trip. Topics and access: the matchers decide the MQTT rules but for topics that start with a
  dollar and for filters MQTT forbids, denials override.
  Registry, catalog, streams, auth: exact contents in every reachable state. Peer list: each page by itself is right, but pages
  fit together only when the order of the map does not change.
  Hub discovery: what an edge knows after any run of broadcasts, and for how long. Protocol index: exact
  listings and query counts. CoAP: round trip, no out-of-bounds read on any input, both copies equal.
  Bridges: the breaker, retries, one correlated reply per request; no accepted CoAP task is lost or done twice, and
  the one race that makes the bridge panic. Configuration: where every setting comes from,
  the command line read back. API: the schema check, the direct route and its fallback to the broker, batches accounted for item by
  item, an unambiguous route table, what a client reads of peers and resources in every reachable state. Client: the TLS settings are in the options exactly when TLS is on, but the scheme of the URL decides whether they are
  used. Process: in every
  state it is the sum of its services, whose own theorems so hold inside it, and its data is well formed; one
  kind of message and a CoAP message overtaken by \<open>Stop\<close> can crash it; the subscriptions of a process that comes up are exactly those of its configuration; the access rules and
  the topic alias of the configuration decide who can send and whether replies are heard.
  Some theorems state behaviour the documentation does not promise or denies: the paging panic, the
  reset of a transfer record by a duplicate, replies lost under the topic alias, the panic of \<open>CoapBridge.Stop\<close>, the star in
  subscriptions and rules, disjoint enumerations, the direct route without access check, the
  announced registration topic nobody serves, the single announcement of an authentication peer, the pages that lose and
  repeat peers, the connection in the clear with TLS on.

  \<^bold>\<open>Loops.\<close> Every loop is a total function: structural, or with a measure (the distance to the
  end of the packet, the attempts left, the size of the cache, the length of the string that is trimmed
  and of the arguments that are left). The broadcast loop, which ends only when it is stopped, is a
  function of the list of its events. No fuel is used.

  \<^bold>\<open>Not modelled\<close>: the paho MQTT client, the mux of \<open>net/http\<close> beyond matching a path against a
  pattern, the inside of the HTTP server (it is the list of events \<open>serve\<close> sees); the text form of the
  uptime; the constants and the one request type (\<open>PeerResourceRegisterRequest\<close>) that no code uses.
\<close>

section \<open>From the data service to the bridge and back\<close>

text \<open>What the data service has checked and published, the bridge accepts as it is.\<close>

lemma SendSync_published:
  assumes "SendSync_begin denv now s topic mo = (None, s1, msg, out)"
  shows "\<exists>data c. out = [(topic, data)] \<and> Normalize msg = msg \<and>
    EncodeDdMessage (en_marshal denv) (en_gzip denv) msg c = (Inr data, msg) \<and>
    validateMessage msg = (None, msg) \<and> prepareSync msg = msg"
  using assms
proof (cases rule: SendSync_begin_cases)
  case (admitted m)
  let ?p = "syncPrepare s now m"
  have "validateMessage ?p = (fst (validateMessage ?p), ?p)"
    by (metis prod.collapse syncPrepare_simps validateMessage_msg)
  moreover have "fst (validateMessage ?p) = None \<and> m_Mode ?p = DdTransferModeSync"
    using admitted(4) by (simp add: syncPrepare_def validateMessage_ok_iff)
  ultimately have v: "validateMessage ?p = (None, ?p)" "m_Mode ?p = DdTransferModeSync" by simp_all
  then have "0 < h_TimeoutMs (m_Header ?p)"
    using validateMessage_ok_iff [of ?p] by simp
  then have "prepareSync ?p = ?p"
    using v(2) by (simp add: prepareSync_def)
  moreover have "msg = ?p"
    by (rule syncAdmit_wait(1) [OF admitted(5) syncPrepare_simps])
  ultimately show ?thesis
    using v(1) syncAdmit_encodes [OF admitted(5)] by auto
qed auto

text \<open>A request that was published is answered by the HTTP bridge that receives its bytes, with exactly one
  message, on the request's reply topic, whatever the HTTP target did; and what that message decodes to is
  correlated with the request. Assumed is that JSON and gzip read back what they wrote for these two messages,
  that JSON writes an object, and that publishing succeeds.\<close>

lemma http_answers:
  assumes begun: "SendSync_begin denv now s topic mo = (None, s1, msg, [(topic, data)])"
    and same_codec: "be_marshal benv = en_marshal denv" "be_gzip benv = en_gzip denv"
    and json_object: "\<forall>m. en_marshal denv m = Inr (0x7b # enc m)"
    and gzip_writes: "\<forall>d. en_gzip denv d = Inr (zipd d)"
    and gzip_reads_back: "\<forall>d. be_gunzip benv (zipd d) = Inr d"
    and published: "\<forall>t d. be_publish benv t d = None"
    and json_reads_request: "be_unmarshal benv (0x7b # enc msg) zeroMessage = Inr msg"
    and json_reads_reply: "be_unmarshal benv (0x7b # enc (httpReply call clock now2 b msg)) zeroMessage =
          Inr (httpReply call clock now2 b msg)"
  shows "replyId (httpReply call clock now2 b msg) = reqId msg \<and> reqId msg \<noteq> [] \<and>
    (\<exists>b' raw. http_handleSyncRequest benv call clock start now2 b topic data =
        (b', [(replyTopicOf (hbr_topics b) msg, raw)]) \<and>
      DecodeDdMessage (be_unmarshal benv) (be_gunzip benv) raw zeroMessage = Inr (httpReply call clock now2 b msg))"
proof -
  let ?reply = "httpReply call clock now2 b msg"
  obtain c where msg: "Normalize msg = msg" "validateMessage msg = (None, msg)" "prepareSync msg = msg"
    and data: "EncodeDdMessage (en_marshal denv) (en_gzip denv) msg c = (Inr data, msg)"
    using SendSync_published [OF begun] by auto
  have id: "h_RequestId (m_Header msg) \<noteq> []"
    using validateMessage_sync_id [of msg msg] msg(2,3) by simp
  then have reply: "replyId ?reply = reqId msg" "Normalize ?reply = ?reply"
    using httpReply_correlates [of msg call clock now2 b] by (simp_all add: replyId_def)
  have dec: "DecodeDdMessage (be_unmarshal benv) (be_gunzip benv)
      (if z then gzipMagic @ zipd (0x7b # enc m) else 0x7b # enc m) zeroMessage = Inr (Normalize m)"
    if "be_unmarshal benv (0x7b # enc m) zeroMessage = Inr m" for z m
    using that gzip_reads_back by (simp add: DecodeDdMessage_def isGzipEnvelope_iff gzipMagic_def)
  have "data = (if c then gzipMagic @ zipd (0x7b # enc msg) else 0x7b # enc msg)"
    using data EncodeDdMessage_total [OF json_object gzip_writes, of msg c, unfolded msg(1)] by simp
  then have "DecodeDdMessage (be_unmarshal benv) (be_gunzip benv) data zeroMessage = Inr msg"
    using dec [OF json_reads_request, of c] msg(1) by simp
  from http_sync_reply [OF this, of msg "\<lambda>m. 0x7b # enc m" zipd call clock start now2 b topic]
  obtain b' where "http_handleSyncRequest benv call clock start now2 b topic data =
      (b', [(replyTopicOf (hbr_topics b) msg,
             if length (m_Payload ?reply) \<ge> 128 then gzipMagic @ zipd (0x7b # enc ?reply) else 0x7b # enc ?reply)])"
    using msg(2,3) same_codec json_object gzip_writes published by (auto simp: Let_def)
  moreover have "DecodeDdMessage (be_unmarshal benv) (be_gunzip benv)
      (if length (m_Payload ?reply) \<ge> 128 then gzipMagic @ zipd (0x7b # enc ?reply) else 0x7b # enc ?reply) zeroMessage =
      Inr ?reply"
    using dec [OF json_reads_reply] reply(2) by simp
  ultimately show ?thesis using id reply(1) by blast
qed

text \<open>A correlated reply reaches the channel of a call that waits, and the call ends with it.\<close>

lemma reply_taken:
  assumes "DecodeDdMessage unmarshal gunzip raw zeroMessage = Inr reply" "replyId reply = k" "k \<noteq> []"
    "map_of (ds_pendingRequests ds) k = Some ch"
  shows "map_of (ds_pendingRequests (handleSyncResponse unmarshal gunzip ds raw)) k = Some (Some reply)"
  using assms by (auto simp: handleSyncResponse_def gomap_simps)

lemma finish_responded: "fst (SendSync_finish start now ds msg (Responded reply)) = Inr reply"
  by (simp add: SendSync_finish_def Let_def)

text \<open>What the handler of a synchronous transfer hands to \<open>SendSync\<close>.\<close>

lemma validate_header:
  assumes "validateRequestMeta now s r m = (e, s', m')" "\<not> isHeaderZero (m_Header m)"
  shows "m_Header m' = m_Header m"
  using assms by (auto simp: validateRequestMeta_def ProtocolFields_eq Normalize_Header split: option.splits prod.splits)

lemma syncMessage_header:
  "reqId (syncMessage env s x req) = ''req-'' @ ae_stamp env 0"
  "h_ReplyTo (m_Header (syncMessage env s x req)) = TransferResponseByRequest (sr_topics s) (''req-'' @ ae_stamp env 0)"
  by (simp_all add: syncMessage_def Let_def Normalize_Header isHeaderZero_def zeroHeader_def)

lemma sync_begun:
  assumes "handleTransferSync env now s x (Some req) = Some (None, s', msg, out)"
  shows "\<exists>ds ds' m. sr_dataService s = Some ds \<and> sr_dataService s' = Some ds' \<and>
    SendSync_begin (ae_data env) now ds (TransferRequest (sr_topics s) (tq_Resource req)) (Some m) = (None, ds', msg, out) \<and>
    m_Header m = m_Header (syncMessage env s x req)"
proof -
  obtain s1 m where v: "validateRequestMeta now s (tq_Resource req) (syncMessage env s x req) = (None, s1, m)"
    and b: "syncBroker env now s1 (tq_Resource req) m = (None, s', msg, out)"
    using assms by (auto simp: handleTransferSync_def split: option.splits prod.splits sum.splits if_splits)
  have "\<not> isHeaderZero (m_Header (syncMessage env s x req))"
    using syncMessage_header(1) [of env s x req] by (auto simp: isHeaderZero_def zeroHeader_def)
  with validate_header [OF v] have "m_Header m = m_Header (syncMessage env s x req)" by simp
  then show ?thesis
    using b validateRequestMeta_server [OF v]
    by (fastforce simp: syncBroker_def Let_def srvCount_def split: option.splits prod.splits)
qed

lemma begun_reply_to:
  assumes "SendSync_begin env now s topic (Some m) = (None, s', msg, out)" "reqId m \<noteq> []"
  shows "reqId msg = reqId m \<and> h_ReplyTo (m_Header msg) = h_ReplyTo (m_Header m)"
  using assms(1)
proof (cases rule: SendSync_begin_cases)
  case (admitted m0)
  have nz: "\<not> isHeaderZero h" if "h_RequestId h \<noteq> []" for h
    using that by (auto simp: isHeaderZero_def zeroHeader_def)
  have "msg = syncPrepare s now m"
    using syncAdmit_wait(1) [OF admitted(5) syncPrepare_simps] admitted(1) by simp
  moreover have "reqId (syncPrepare s now m) = reqId m"
    using reqId_syncPrepare [of m s now] reqId_Normalize [OF assms(2)] assms(2) by simp
  moreover have "h_ReplyTo (m_Header (syncPrepare s now m)) = h_ReplyTo (m_Header m)"
    using assms(2)
    by (simp add: syncPrepare_def Normalize_Header nz setTrace_def setTimeout_def setCreated_def)
  ultimately show ?thesis by simp
qed auto

section \<open>Across two processes\<close>

text \<open>A bridge hears the transfers whose resource is its peer id, and no others: the topic of a
  request names the resource where the subscription names the peer.\<close>

lemma bridge_hears_iff:
  assumes "enabled_target (bg_Http (cf_Bridges cfg))" "plain_topic (cf_Tenant cfg)" "plain_topic (pc_Id (cf_Peer cfg))"
  shows "(\<exists>pattern. (pattern, OnHttp HSyncRequest) \<in> set (subscriptions cfg) \<and>
      matchMQTTTopic pattern (TransferRequest (NewDefaultTopicSet (cf_Tenant cfg)) resource)) \<longleftrightarrow>
    resource = pc_Id (cf_Peer cfg)"
proof -
  let ?ts = "NewDefaultTopicSet (cf_Tenant cfg)"
  have "(pattern, OnHttp HSyncRequest) \<in> set (subscriptions cfg) \<longleftrightarrow> pattern = TransferRequest ?ts (pc_Id (cf_Peer cfg))"
    for pattern using assms(1) by (auto simp: subscriptions_def Let_def bridgeTopics_def)
  moreover have "plain_topic (TransferRequest ?ts (pc_Id (cf_Peer cfg)))"
    using assms(2,3) by (simp add: TransferRequest_def NewDefaultTopicSet_def plain_topic_def plain_level_def split_on_append_gen)
  ultimately show ?thesis
    by (auto simp: svc_match.match_plain TransferRequest_def)
qed

lemma transfer_published:
  assumes "process_run penv boot cfg r" "ae_data env = pe_data penv"
    "handleTransferSync env now (ps_server (rn_proc r)) x (Some req) = Some (None, s', msg, out)"
  shows "\<exists>ds ds' m data. let topic = TransferRequest (NewDefaultTopicSet (cf_Tenant cfg)) (tq_Resource req) in
    out = [(topic, data)] \<and>
    SendSync_begin (pe_data penv) now ds topic (Some m) = (None, ds', msg, [(topic, data)]) \<and>
    h_ReplyTo (m_Header msg) = TransferResponseByRequest (NewDefaultTopicSet (cf_Tenant cfg)) (''req-'' @ ae_stamp env 0)"
proof -
  let ?topic = "TransferRequest (NewDefaultTopicSet (cf_Tenant cfg)) (tq_Resource req)"
  note ts = process_topics [OF assms(1)]
  obtain ds ds' m where begun: "SendSync_begin (pe_data penv) now ds ?topic (Some m) = (None, ds', msg, out)"
    and m: "m_Header m = m_Header (syncMessage env (ps_server (rn_proc r)) x req)"
    using sync_begun [OF assms(3)] unfolding ts assms(2) by blast
  moreover obtain data where "out = [(?topic, data)]"
    using SendSync_published [OF begun] by auto
  ultimately show ?thesis
    using begun_reply_to [OF begun] syncMessage_header [of env "ps_server (rn_proc r)" x req] m
    by (auto simp: ts Let_def)
qed

lemma bridge_present:
  assumes "process_run penv boot cfg r" "enabled_target (bg_Http (cf_Bridges cfg))"
  shows "\<exists>b. ps_httpBridge (rn_proc r) = Some b"
proof -
  have "ps_httpBridge (newServices boot cfg) \<noteq> None"
    using assms(2) by (simp add: newServices_eq Let_def)
  then show ?thesis
    using process_projections(1) [OF assms(1)] by (auto simp: process_ok_def Let_def)
qed

lemma call_has_channel:
  assumes "process_run penv boot cfg r" "(msg, start) \<in> set (rn_calls r)"
  shows "\<exists>ch. map_of (ds_pendingRequests (ps_dataService (rn_proc r))) (reqId msg) = Some ch"
proof -
  obtain n where "pending_inv (ds_pendingRequests (ps_dataService (rn_proc r))) n (rn_calls r)"
    using process_ok_sel(3) [OF process_projections(1) [OF assms(1)]] dd_reachable_pending unfolding data_run_def
    by (metis DdSystem.select_convs(1,2))
  from pending_inv_iff_calls [OF this] assms(2) show ?thesis
    by (metis fst_conv map_of_eq_None_iff not_None_eq)
qed

lemma reply_heard:
  assumes "plain_topic (cf_Tenant cfg)" "CHR ''/'' \<notin> set rid"
  shows "\<exists>pattern. (pattern, OnResponse) \<in> set (subscriptions cfg) \<and>
    matchMQTTTopic pattern (TransferResponseByRequest (NewDefaultTopicSet (cf_Tenant cfg)) rid)"
proof -
  let ?ts = "NewDefaultTopicSet (cf_Tenant cfg)"
  have "matchMQTTTopic (TransferResponseByRequestStream ?ts) (TransferResponseByRequest ?ts rid)"
    using assms by (auto simp: svc_match.response_by_request_iff NewDefaultTopicSet_def)
  moreover have "(TransferResponseByRequestStream ?ts, OnResponse) \<in> set (subscriptions cfg)"
    by (simp add: subscriptions_def Let_def)
  ultimately show ?thesis by blast
qed

text \<open>What the client of a process makes of a topic, to publish on it and to subscribe to it.\<close>

definition onWire :: "Config \<Rightarrow> string \<Rightarrow> string" where
  "onWire cfg topic = aliasTopic (mqc_TopicAliasEnabled (mq_Mqtt (cf_Mq cfg))) topic"

text \<open>
  C3: a synchronous transfer from one process to another comes back, unless they alias topics. Process A has taken a
  request over its API and waits for the reply; process B, of the same tenant, has an HTTP bridge and the peer id that
  the request names as its resource; the topic alias, with which no reply is ever heard, is off in both. Then what A
  published is one message; with what the clients make of the topics, B's bridge is
  subscribed to it; B answers it with exactly one message, whatever its HTTP target does (an
  answer, an error, exhausted retries, an open circuit); A is subscribed to the topic of that message; and
  when A receives it, whatever A has done in the meantime, as long as the call still waits, the data service that
  the API server points to has the reply in the channel of exactly this call, and the API answers with status 200 and
  what B's target returned. Assumed is that JSON and gzip read back what they wrote for these two messages, that
  JSON writes an object, that B can publish, and that the topics have no wildcards.
\<close>

theorem transfer_end_to_end:
  assumes A: "process_run penv bootA cfgA rA" "ae_data env = pe_data penv"
    and waits: "handleTransferSync env now (ps_server (rn_proc rA)) x (Some req) = Some (None, sA, msg, out)"
    and later: "process_run penv bootA cfgA rA'" "(msg, now) \<in> set (rn_calls rA')"
    and B: "process_run penv bootB cfgB rB" "bt_Enabled (bg_Http (cf_Bridges cfgB))"
      "bt_TargetUrl (bg_Http (cf_Bridges cfgB)) \<noteq> []" "cf_Tenant cfgB = cf_Tenant cfgA"
      "pc_Id (cf_Peer cfgB) = tq_Resource req"
    and no_alias: "\<not> mqc_TopicAliasEnabled (mq_Mqtt (cf_Mq cfgA))" "\<not> mqc_TopicAliasEnabled (mq_Mqtt (cf_Mq cfgB))"
    and names: "plain_topic (cf_Tenant cfgA)" "plain_topic (tq_Resource req)" "CHR ''/'' \<notin> set (ae_stamp env 0)"
    and same_codec: "be_marshal (pe_bridge penv) = en_marshal (pe_data penv)" "be_gzip (pe_bridge penv) = en_gzip (pe_data penv)"
    and json_object: "\<forall>m. en_marshal (pe_data penv) m = Inr (0x7b # enc m)"
    and gzip_writes: "\<forall>d. en_gzip (pe_data penv) d = Inr (zipd d)"
    and gzip_reads_back: "\<forall>d. be_gunzip (pe_bridge penv) (zipd d) = Inr d"
    and published: "\<forall>t d. be_publish (pe_bridge penv) t d = None"
    and json_reads_request: "be_unmarshal (pe_bridge penv) (0x7b # enc msg) zeroMessage = Inr msg"
    and json_reads_reply: "\<forall>b. ps_httpBridge (rn_proc rB) = Some b \<longrightarrow>
      be_unmarshal (pe_bridge penv) (0x7b # enc (httpReply call clock now2 b msg)) zeroMessage =
        Inr (httpReply call clock now2 b msg)"
  shows "\<exists>b topic data pB replyTopic raw pA dsA. ps_httpBridge (rn_proc rB) = Some b \<and> out = [(topic, data)] \<and>
    (\<exists>pattern. (pattern, OnHttp HSyncRequest) \<in> set (subscriptions cfgB) \<and>
      matchMQTTTopic (onWire cfgB pattern) (onWire cfgA topic)) \<and>
    deliver penv call clock visit start now2 (OnHttp HSyncRequest) topic data (rn_proc rB) = Some (pB, [(replyTopic, raw)]) \<and>
    (\<exists>pattern. (pattern, OnResponse) \<in> set (subscriptions cfgA) \<and>
      matchMQTTTopic (onWire cfgA pattern) (onWire cfgB replyTopic)) \<and>
    deliver penv call' clock' visit' start' now3 OnResponse replyTopic raw (rn_proc rA') = Some (pA, []) \<and>
    sr_dataService (ps_server (rn_proc (mainWrites pA rA'))) = Some dsA \<and>
    (let reply = httpReply call clock now2 b msg in
      map_of (ds_pendingRequests dsA) (reqId msg) = Some (Some reply) \<and>
      handleTransferSync_end RouteModeBroker (fst (SendSync_finish now now4 dsA msg (Responded reply))) =
        writeJSON 200 (JResponse (m_Payload reply) RouteModeBroker))"
proof -
  let ?ts = "NewDefaultTopicSet (cf_Tenant cfgA)"
  let ?topic = "TransferRequest ?ts (tq_Resource req)"
  obtain ds ds' m data where out: "out = [(?topic, data)]"
    and begun: "SendSync_begin (pe_data penv) now ds ?topic (Some m) = (None, ds', msg, [(?topic, data)])"
    and reply_to: "h_ReplyTo (m_Header msg) = TransferResponseByRequest ?ts (''req-'' @ ae_stamp env 0)"
    using transfer_published [OF A waits] by (auto simp: Let_def)
  obtain b where b: "ps_httpBridge (rn_proc rB) = Some b"
    using bridge_present [OF B(1)] B(2,3) by blast
  with json_reads_reply have reads: "be_unmarshal (pe_bridge penv) (0x7b # enc (httpReply call clock now2 b msg)) zeroMessage =
        Inr (httpReply call clock now2 b msg)" by blast
  obtain b' raw where answer: "http_handleSyncRequest (pe_bridge penv) call clock start now2 b ?topic data =
        (b', [(replyTopicOf (hbr_topics b) msg, raw)])"
    and raw: "DecodeDdMessage (be_unmarshal (pe_bridge penv)) (be_gunzip (pe_bridge penv)) raw zeroMessage =
        Inr (httpReply call clock now2 b msg)"
    and corr: "replyId (httpReply call clock now2 b msg) = reqId msg" "reqId msg \<noteq> []"
    using http_answers [OF begun same_codec json_object gzip_writes gzip_reads_back published json_reads_request reads]
    by blast
  obtain ch where "map_of (ds_pendingRequests (ps_dataService (rn_proc rA'))) (reqId msg) = Some ch"
    using call_has_channel [OF later] by blast
  note taken = reply_taken [OF raw corr this]
  have "\<exists>pattern. (pattern, OnHttp HSyncRequest) \<in> set (subscriptions cfgB) \<and> matchMQTTTopic pattern ?topic"
    using bridge_hears_iff [of cfgB "tq_Resource req"] B(2-5) names(1,2) by simp
  moreover have "replyTopicOf (hbr_topics b) msg = TransferResponseByRequest ?ts (''req-'' @ ae_stamp env 0)"
    using reply_to by (simp add: replyTopicOf_def TransferResponseByRequest_def)
  moreover have "onWire cfgA t = t" "onWire cfgB t = t" for t
    using no_alias by (simp_all add: onWire_def aliasTopic_def)
  moreover have "sr_dataService (ps_server (rn_proc (mainWrites ((rn_proc rA')\<lparr>ps_dataService := ds\<rparr>) rA'))) = Some ds" for ds
    using seen_main(3) [OF process_projections(2) [OF later(1)]] by (simp add: setData_def)
  ultimately show ?thesis
    using b out answer taken reply_heard [of cfgA "''req-'' @ ae_stamp env 0"] names(1,3)
    by (auto simp: Let_def finish_responded handleTransferSync_end_def)
qed

text \<open>Two processes with the defaults: one whose rules allow the client, one with an HTTP bridge.\<close>

definition cfgOfA :: Config where
  "cfgOfA = defaultConfig\<lparr>cf_AclRules := [\<lparr>al_PeerId = ''c'', al_Action = ''pub'', al_Pattern = ''#'', al_Allow = True\<rparr>]\<rparr>"

definition cfgOfB :: Config where
  "cfgOfB = defaultConfig\<lparr>cf_Peer := (cf_Peer defaultConfig)\<lparr>pc_Id := ''edge''\<rparr>,
     cf_Bridges := (cf_Bridges defaultConfig)\<lparr>bg_Http := \<lparr>bt_Enabled = True, bt_TargetUrl = ''http://h''\<rparr>\<rparr>\<rparr>"

definition edgeReq :: TransferReq where
  "edgeReq = \<lparr>tq_Resource = ''edge'', tq_Protocol = ''http'', tq_SourcePeerId = ''c'', tq_TargetPeerId = [],
     tq_TimeoutMs = 100, tq_TraceId = [], tq_Headers = [], tq_ProtocolMeta = [], tq_Payload = [5]\<rparr>"

definition oneByte :: "DdMessage \<Rightarrow> bytes" where
  "oneByte m = [if h_CorrelationId (m_Header m) = [] then 1 else 2]"

definition apiEnvA :: ApiEnv where
  "apiEnvA = directEnv\<lparr>ae_data := \<lparr>en_marshal = \<lambda>m. Inr (0x7b # oneByte m), en_gzip = Inr, en_publish = \<lambda>t d. None\<rparr>,
     ae_stamp := \<lambda>i. ''1''\<rparr>"

definition callOfA :: "(ApiResponse option \<times> Server \<times> DdMessage \<times> outbox) option" where
  "callOfA = handleTransferSync apiEnvA 7 (ps_server (newServices 3 cfgOfA)) [] (Some edgeReq)"

definition serverOfA :: Server where "serverOfA = fst (snd (the callOfA))"
definition sentByA :: DdMessage where "sentByA = fst (snd (snd (the callOfA)))"
definition outOfA :: outbox where "outOfA = snd (snd (snd (the callOfA)))"

definition answerOfB :: DdMessage where
  "answerOfB = httpReply flakyHttp int 8 (the (ps_httpBridge (newServices 4 cfgOfB))) sentByA"

definition envOfBoth :: ProcEnv where
  "envOfBoth = demoProcEnv\<lparr>pe_data := ae_data apiEnvA, pe_bridge := \<lparr>be_marshal = \<lambda>m. Inr (0x7b # oneByte m),
     be_unmarshal = \<lambda>d out. Inr (if d = [0x7b, 1] then sentByA else answerOfB),
     be_gzip = Inr, be_gunzip = Inr, be_publish = \<lambda>t d. None, be_marshalDLQ = \<lambda>e. Inr [1], be_b64 = \<lambda>d. []\<rparr>\<rparr>"

definition waitingA :: Running where
  "waitingA = serverWrites serverOfA ((startRunning 3 cfgOfA)\<lparr>rn_calls := [(sentByA, 7)]\<rparr>)"

lemma callOfA_waits:
  "handleTransferSync apiEnvA 7 (ps_server (newServices 3 cfgOfA)) [] (Some edgeReq) = Some (None, serverOfA, sentByA, outOfA)"
proof -
  have "map_option fst callOfA = Some None" by code_simp
  then obtain s msg out where "callOfA = Some (None, s, msg, out)" by auto
  then show ?thesis by (simp add: serverOfA_def sentByA_def outOfA_def callOfA_def)
qed

lemma waitingA_run: "process_run envOfBoth 3 cfgOfA waitingA"
proof -
  have "ae_data apiEnvA = pe_data envOfBoth" by (simp add: envOfBoth_def)
  from process_run.api_sync [OF process_run.up this, of 7 3 cfgOfA "[]" "Some edgeReq" None serverOfA sentByA outOfA]
    callOfA_waits show ?thesis by (simp add: waitingA_def start_wired(2) seen_fields)
qed

lemma answer_codes: "oneByte sentByA = [1]" "oneByte answerOfB = [2]" "m_Payload answerOfB = [7]"
  by code_simp+

lemma cfgs:
  "\<not> mqc_TopicAliasEnabled (mq_Mqtt (cf_Mq cfgOfA))" "\<not> mqc_TopicAliasEnabled (mq_Mqtt (cf_Mq cfgOfB))"
  "cf_Tenant cfgOfA = ''default''" "cf_Tenant cfgOfB = ''default''" "pc_Id (cf_Peer cfgOfB) = ''edge''"
  "bg_Http (cf_Bridges cfgOfB) = \<lparr>bt_Enabled = True, bt_TargetUrl = ''http://h''\<rparr>"
  by (simp_all add: cfgOfA_def cfgOfB_def defaultConfig_def zeroConfig_def)

theorem transfer_end_to_end_witness:
  "\<exists>topic data pB replyTopic raw pA dsA. outOfA = [(topic, data)] \<and>
    deliver envOfBoth flakyHttp int id 1 8 (OnHttp HSyncRequest) topic data (newServices 4 cfgOfB) = Some (pB, [(replyTopic, raw)]) \<and>
    deliver envOfBoth flakyHttp int id 1 9 OnResponse replyTopic raw (rn_proc waitingA) = Some (pA, []) \<and>
    sr_dataService (ps_server (rn_proc (mainWrites pA waitingA))) = Some dsA \<and>
    handleTransferSync_end RouteModeBroker (fst (SendSync_finish 7 9 dsA sentByA (Responded answerOfB))) =
      writeJSON 200 (JResponse [7] RouteModeBroker)"
proof -
  have b: "httpReply flakyHttp int 8 b sentByA = answerOfB" if "ps_httpBridge (newServices 4 cfgOfB) = Some b" for b
    using that by (simp add: answerOfB_def)
  have A: "process_run envOfBoth 3 cfgOfA (startRunning 3 cfgOfA)"
    and B: "process_run envOfBoth 4 cfgOfB (startRunning 4 cfgOfB)"
    by (rule process_run.up)+
  have E: "ae_data apiEnvA = pe_data envOfBoth" by (simp add: envOfBoth_def)
  have W: "handleTransferSync apiEnvA 7 (ps_server (rn_proc (startRunning 3 cfgOfA))) [] (Some edgeReq) =
      Some (None, serverOfA, sentByA, outOfA)"
    by (simp add: callOfA_waits start_wired(2))
  have "\<exists>b topic data pB replyTopic raw pA dsA. ps_httpBridge (rn_proc (startRunning 4 cfgOfB)) = Some b \<and> outOfA = [(topic, data)] \<and>
    (\<exists>pattern. (pattern, OnHttp HSyncRequest) \<in> set (subscriptions cfgOfB) \<and>
      matchMQTTTopic (onWire cfgOfB pattern) (onWire cfgOfA topic)) \<and>
    deliver envOfBoth flakyHttp int id 1 8 (OnHttp HSyncRequest) topic data (rn_proc (startRunning 4 cfgOfB)) =
      Some (pB, [(replyTopic, raw)]) \<and>
    (\<exists>pattern. (pattern, OnResponse) \<in> set (subscriptions cfgOfA) \<and>
      matchMQTTTopic (onWire cfgOfA pattern) (onWire cfgOfB replyTopic)) \<and>
    deliver envOfBoth flakyHttp int id 1 9 OnResponse replyTopic raw (rn_proc waitingA) = Some (pA, []) \<and>
    sr_dataService (ps_server (rn_proc (mainWrites pA waitingA))) = Some dsA \<and>
    (let reply = httpReply flakyHttp int 8 b sentByA in
      map_of (ds_pendingRequests dsA) (reqId sentByA) = Some (Some reply) \<and>
      handleTransferSync_end RouteModeBroker (fst (SendSync_finish 7 9 dsA sentByA (Responded reply))) =
        writeJSON 200 (JResponse (m_Payload reply) RouteModeBroker))"
    by (rule transfer_end_to_end [OF A E W waitingA_run _ B, where enc = oneByte and zipd = id])
      (simp_all add: cfgs edgeReq_def envOfBoth_def apiEnvA_def plain_topic_level answer_codes b waitingA_def
        start_wired(2) seen_fields)
  then show ?thesis using b answer_codes(3) unfolding Let_def start_wired(2) by metis
qed

end
